(* ===== verification/Prelude.thy ===== *)
theory Prelude
  imports
    Main
    "HOL-Library.AList"
    "HOL-Library.Word"
    "HOL-Library.Signed_Division"
    "HOL-Library.List_Lexorder"
    "HOL-Library.Char_ord"
begin

text \<open>
  What the components share: Go maps as association lists with distinct keys, how many
  of their values or of a list's elements satisfy a predicate, the fixed-width integers and the
  \<open>time\<close> package's arithmetic, and reachable states of a step relation with the rule
  that an inductive invariant holds in all of them.
\<close>

named_theorems gomap_simps \<open>lookup, size and counting laws of Go maps\<close>
named_theorems int_width \<open>fixed-width integers that do not wrap\<close>

section \<open>Go maps\<close>

text \<open>
  A Go map is an association list with distinct keys. Go leaves the iteration order of a
  map open; the list is the order one execution happens to use, and every theorem holds
  for every list, so for every order.
\<close>

type_synonym ('k, 'v) gomap = "('k \<times> 'v) list"

abbreviation mget :: "('k, 'v) gomap \<Rightarrow> 'k \<Rightarrow> 'v option" where
  "mget \<equiv> map_of"

abbreviation mput :: "'k \<Rightarrow> 'v \<Rightarrow> ('k, 'v) gomap \<Rightarrow> ('k, 'v) gomap" where
  "mput \<equiv> AList.update"

abbreviation mdel :: "'k \<Rightarrow> ('k, 'v) gomap \<Rightarrow> ('k, 'v) gomap" where
  "mdel \<equiv> AList.delete"

abbreviation mkeys :: "('k, 'v) gomap \<Rightarrow> 'k list" where
  "mkeys m \<equiv> map fst m"

abbreviation mhas :: "('k, 'v) gomap \<Rightarrow> 'k \<Rightarrow> bool" where
  "mhas m k \<equiv> mget m k \<noteq> None"

definition gomap_ok :: "('k, 'v) gomap \<Rightarrow> bool" where
  "gomap_ok m \<longleftrightarrow> distinct (mkeys m)"

lemma gomap_ok_Nil [simp]: "gomap_ok []"
  by (simp add: gomap_ok_def)

lemma gomap_ok_mput [simp]: "gomap_ok m \<Longrightarrow> gomap_ok (mput k v m)"
  by (simp add: gomap_ok_def distinct_update)

lemma gomap_ok_mdel [simp]: "gomap_ok m \<Longrightarrow> gomap_ok (mdel k m)"
  by (simp add: gomap_ok_def distinct_delete)

lemma mget_mput [simp, gomap_simps]: "mget (mput k v m) k' = (if k' = k then Some v else mget m k')"
  by (simp add: update_conv')

lemma mget_mdel [simp, gomap_simps]: "mget (mdel k m) k' = (if k' = k then None else mget m k')"
  by (simp add: delete_conv')

lemma mget_in_mkeys: "mget m k = Some v \<Longrightarrow> k \<in> set (mkeys m)"
  by (metis domI dom_map_of_conv_image_fst list.set_map)

lemma mkeys_mget: "k \<in> set (mkeys m) \<longleftrightarrow> mhas m k"
  by (simp add: map_of_eq_None_iff)

lemma mget_in_set: "gomap_ok m \<Longrightarrow> (k, v) \<in> set m \<longleftrightarrow> mget m k = Some v"
  unfolding gomap_ok_def by (metis map_of_SomeD map_of_is_SomeI)

lemma length_mput [gomap_simps]:
  "length (mput k v m) = (if mhas m k then length m else Suc (length m))"
  by (induction m) (auto split: if_splits)

lemma mdel_absent: "\<not> mhas m k \<Longrightarrow> mdel k m = m"
  by (induction m) (auto split: if_splits)

lemma length_mdel [gomap_simps]:
  "gomap_ok m \<Longrightarrow> length (mdel k m) = (if mhas m k then length m - 1 else length m)"
proof (induction m)
  case (Cons kv m)
  obtain a b where kv: "kv = (a, b)" by (cases kv)
  show ?case
  proof (cases "a = k")
    case True
    with Cons.prems kv have "\<not> mhas m k"
      by (auto simp: gomap_ok_def map_of_eq_None_iff)
    with True kv show ?thesis by (simp add: mdel_absent)
  next
    case False
    with Cons kv show ?thesis
      by (cases m) (auto simp: gomap_ok_def mkeys_mget dest: map_of_SomeD split: if_splits)
  qed
qed simp

lemma length_mdel_le: "length (mdel k m) \<le> length m"
  by (induction m) auto

subsection \<open>Counting values\<close>

definition mcount :: "('v \<Rightarrow> bool) \<Rightarrow> ('k, 'v) gomap \<Rightarrow> nat" where
  "mcount P m = length (filter (\<lambda>kv. P (snd kv)) m)"

definition tally :: "('v \<Rightarrow> bool) \<Rightarrow> 'v option \<Rightarrow> nat" where
  "tally P w = (case w of None \<Rightarrow> 0 | Some v \<Rightarrow> if P v then 1 else 0)"

lemma tally_simps [simp]: "tally P None = 0" "tally P (Some v) = (if P v then 1 else 0)"
  by (simp_all add: tally_def)

lemma mcount_simps [simp]:
  "mcount P [] = 0"
  "mcount P ((k, v) # m) = (if P v then Suc (mcount P m) else mcount P m)"
  by (simp_all add: mcount_def)

lemma mcount_mput:
  "gomap_ok m \<Longrightarrow> mcount P (mput k v m) + tally P (mget m k) = mcount P m + tally P (Some v)"
  by (induction m) (auto simp: gomap_ok_def split: if_splits)

lemma mcount_mdel: "gomap_ok m \<Longrightarrow> mcount P (mdel k m) + tally P (mget m k) = mcount P m"
proof (induction m)
  case (Cons kv m)
  obtain a b where kv: "kv = (a, b)" by (cases kv)
  from Cons.prems kv have ok: "gomap_ok m" and a: "\<not> mhas m a"
    by (auto simp: gomap_ok_def map_of_eq_None_iff)
  show ?case
    using Cons.IH [OF ok] a kv by (cases "a = k") (auto simp: mdel_absent)
qed simp

lemma mcount_le_length: "mcount P m \<le> length m"
  by (simp add: mcount_def)

lemma mcount_pos: "gomap_ok m \<Longrightarrow> mget m k = Some v \<Longrightarrow> P v \<Longrightarrow> 0 < mcount P m"
  using mcount_mdel [of m P k] by simp

lemma mcount_cong: "(\<And>k v. mget m k = Some v \<Longrightarrow> P v = Q v) \<Longrightarrow> gomap_ok m \<Longrightarrow> mcount P m = mcount Q m"
  unfolding mcount_def by (metis (mono_tags, lifting) filter_cong mget_in_set prod.collapse)

subsection \<open>Counting list elements\<close>

definition count_if :: "('a \<Rightarrow> bool) \<Rightarrow> 'a list \<Rightarrow> nat" where
  "count_if P xs = length (filter P xs)"

lemma count_if_simps [simp]:
  "count_if P [] = 0"
  "count_if P (x # xs) = (if P x then 1 else 0) + count_if P xs"
  "count_if P (xs @ ys) = count_if P xs + count_if P ys"
  by (simp_all add: count_if_def)

lemma count_if_update:
  "n < length xs \<Longrightarrow>
     count_if P (xs[n := y]) + (if P (xs ! n) then 1 else 0) = count_if P xs + (if P y then 1 else 0)"
proof (induction xs arbitrary: n)
  case (Cons x xs)
  show ?case
  proof (cases n)
    case (Suc m)
    with Cons.prems Cons.IH [of m] show ?thesis by simp
  qed simp
qed simp

lemma count_if_remove1:
  "x \<in> set xs \<Longrightarrow> count_if P (remove1 x xs) + (if P x then 1 else 0) = count_if P xs"
  by (induction xs) auto

lemma count_if_cong: "xs = ys \<Longrightarrow> (\<And>x. x \<in> set ys \<Longrightarrow> P x = Q x) \<Longrightarrow> count_if P xs = count_if Q ys"
  unfolding count_if_def by (metis filter_cong)

lemma count_if_le: "count_if P xs \<le> length xs"
  by (simp add: count_if_def)

lemma count_if_none: "(\<And>x. x \<in> set xs \<Longrightarrow> \<not> P x) \<Longrightarrow> count_if P xs = 0"
  by (induction xs) auto

lemma count_if_pos: "x \<in> set xs \<Longrightarrow> P x \<Longrightarrow> 0 < count_if P xs"
  by (induction xs) auto

lemma list_all_update: "list_all P xs \<Longrightarrow> P x \<Longrightarrow> list_all P (xs[n := x])"
  unfolding list_all_iff using set_update_subset_insert by fastforce

lemma count_list_set: "(x \<in> set xs) = (0 < count_list xs x)"
  by (metis count_list_0_iff not_gr_zero)

lemma distinct_count_list: "distinct xs = (\<forall>x. count_list xs x \<le> 1)"
proof (induction xs)
  case (Cons a xs)
  have "(\<forall>x. count_list (a # xs) x \<le> 1) = (count_list xs a = 0 \<and> (\<forall>x. count_list xs x \<le> 1))"
  proof (intro iffI conjI allI)
    fix x
    assume all: "\<forall>x. count_list (a # xs) x \<le> 1"
    show "count_list xs a = 0" using all [rule_format, of a] by simp
    show "count_list xs x \<le> 1" using all [rule_format, of x] by (simp split: if_splits)
  next
    fix x
    assume "count_list xs a = 0 \<and> (\<forall>x. count_list xs x \<le> 1)"
    then show "count_list (a # xs) x \<le> 1" by auto
  qed
  then show ?case using Cons.IH by (simp add: count_list_0_iff)
qed simp

section \<open>Fixed-width integers and durations\<close>

text \<open>
  Go's \<open>int32\<close> and \<open>int64\<close> are integers whose results wrap to two's complement. A
  \<open>time.Duration\<close> is an \<open>int64\<close> of nanoseconds.
\<close>

definition i32 :: "int \<Rightarrow> int" where
  "i32 k = signed_take_bit 31 k"

definition i64 :: "int \<Rightarrow> int" where
  "i64 k = signed_take_bit 63 k"

lemma i32_word: "i32 k = sint (word_of_int k :: 32 word)"
  by (simp add: i32_def sint_sbintrunc')

lemma i64_word: "i64 k = sint (word_of_int k :: 64 word)"
  by (simp add: i64_def sint_sbintrunc')

lemma i32_id [int_width]: "- (2 ^ 31) \<le> k \<Longrightarrow> k < 2 ^ 31 \<Longrightarrow> i32 k = k"
  unfolding i32_def by (rule signed_take_bit_int_eq_self) simp_all

lemma i64_id [int_width]: "- (2 ^ 63) \<le> k \<Longrightarrow> k < 2 ^ 63 \<Longrightarrow> i64 k = k"
  unfolding i64_def by (rule signed_take_bit_int_eq_self) simp_all

lemma i32_range: "- (2 ^ 31) \<le> i32 k" "i32 k < 2 ^ 31"
  using signed_take_bit_int_greater_eq_minus_exp [of 31 k] signed_take_bit_int_less_exp [of 31 k]
  by (simp_all add: i32_def)

lemma i64_range: "- (2 ^ 63) \<le> i64 k" "i64 k < 2 ^ 63"
  using signed_take_bit_int_greater_eq_minus_exp [of 63 k] signed_take_bit_int_less_exp [of 63 k]
  by (simp_all add: i64_def)

lemma i64_double_overflow: "2 ^ 62 \<le> k \<Longrightarrow> k < 2 ^ 63 \<Longrightarrow> i64 (k * 2) = k * 2 - 2 ^ 64"
proof -
  assume k: "2 ^ 62 \<le> k" "k < 2 ^ 63"
  have "i64 (k * 2) = i64 (k * 2 - 2 ^ 64)"
    by (simp add: i64_def signed_take_bit_eq_iff_take_bit_eq take_bit_eq_mod mod_diff_right_eq [symmetric])
  also have "\<dots> = k * 2 - 2 ^ 64"
    by (rule i64_id) (use k in auto)
  finally show ?thesis .
qed

text \<open>
  A \<open>time.Time\<close> is the number of nanoseconds since Go's zero time, so \<open>IsZero\<close> is
  \<open>= 0\<close>, \<open>Before\<close> is \<open><\<close> and \<open>Add\<close> is \<open>+\<close>. \<open>Sub\<close> saturates at the
  ends of \<open>time.Duration\<close>, and the division of a duration truncates towards zero.
\<close>

type_synonym time = int
type_synonym duration = int

abbreviation millisecond :: duration where "millisecond \<equiv> 1000000"
abbreviation second :: duration where "second \<equiv> 1000000000"

definition time_sub :: "time \<Rightarrow> time \<Rightarrow> duration" where
  "time_sub t u = max (- (2 ^ 63)) (min (2 ^ 63 - 1) (t - u))"

definition half :: "duration \<Rightarrow> duration" where
  "half d = d sdiv 2"

lemma half_eq: "half d = (if 0 \<le> d then d div 2 else - (- d div 2))"
  by (auto simp: half_def signed_divide_int_def sgn_if)

lemma half_le: "0 \<le> d \<Longrightarrow> half d \<le> d"
  by (simp add: half_eq)

lemma half_double: "2 * half d \<le> max 0 d + (if d < 0 then d + 1 else 0)"
  by (auto simp: half_eq)

section \<open>Reachable states\<close>

inductive reach :: "('s \<Rightarrow> bool) \<Rightarrow> ('s \<Rightarrow> 's \<Rightarrow> bool) \<Rightarrow> 's \<Rightarrow> bool"
  for start :: "'s \<Rightarrow> bool" and step :: "'s \<Rightarrow> 's \<Rightarrow> bool" where
  reach_start: "start s \<Longrightarrow> reach start step s"
| reach_step: "reach start step s \<Longrightarrow> step s t \<Longrightarrow> reach start step t"

text \<open>The contract of an inductive invariant, and what it gives in every reachable state.\<close>

locale inductive_invariant =
  fixes start :: "'s \<Rightarrow> bool"
    and step :: "'s \<Rightarrow> 's \<Rightarrow> bool"
    and inv :: "'s \<Rightarrow> bool"
  assumes inv_start: "start s \<Longrightarrow> inv s"
    and inv_step: "inv s \<Longrightarrow> step s t \<Longrightarrow> inv t"
begin

lemma reach_inv: "reach start step s \<Longrightarrow> inv s"
  by (induction rule: reach.induct) (auto intro: inv_start inv_step)

lemma reach_steps: "inv s \<Longrightarrow> step\<^sup>*\<^sup>* s t \<Longrightarrow> inv t"
  by (rotate_tac, induction rule: rtranclp_induct) (auto intro: inv_step)

end

end
