(* ===== verification/Clock_Backoff.thy ===== *)
theory Clock_Backoff
  imports Prelude
begin

text \<open>
  The retry policies of \<open>internal/clock/clock.go\<close>: \<open>Exponential.Next\<close>, with the
  \<open>int64\<close> overflow of its doubling, and \<open>Zero.Next\<close>. The contract the Scheduler, the
  release ladder and the health monitor use them under is the locale \<open>backoff_policy\<close>.
\<close>

section \<open>Exponential and Zero\<close>

record exponential =
  Base :: duration
  Max :: duration

text \<open>The loop body runs once per remaining attempt.\<close>

fun next_loop :: "exponential \<Rightarrow> nat \<Rightarrow> duration \<Rightarrow> duration" where
  "next_loop e 0 d = (if Max e > 0 \<and> d > Max e then Max e else d)"
| "next_loop e (Suc n) d =
     (let d = i64 (d * 2) in
      if Max e > 0 \<and> d \<ge> Max e then Max e
      else if d \<le> 0 then Max e
      else next_loop e n d)"

definition Exponential_Next :: "exponential \<Rightarrow> int \<Rightarrow> duration" where
  "Exponential_Next e attempt =
     (let attempt = (if attempt < 0 then 0 else attempt) in next_loop e (nat attempt) (Base e))"

definition Zero_Next :: "int \<Rightarrow> duration" where
  "Zero_Next attempt = 0"

definition exponential_ok :: "exponential \<Rightarrow> bool" where
  "exponential_ok e \<longleftrightarrow> 0 < Base e \<and> Base e < 2 ^ 63 \<and> 0 \<le> Max e \<and> Max e < 2 ^ 63"

section \<open>What Next returns\<close>

lemma i64_double: "0 < d \<Longrightarrow> d < 2 ^ 63 \<Longrightarrow> i64 (d * 2) = (if d < 2 ^ 62 then d * 2 else d * 2 - 2 ^ 64)"
  by (cases "d < 2 ^ 62") (simp_all add: i64_id i64_double_overflow)

lemma next_loop_capped:
  assumes "0 < Max e" "Max e < 2 ^ 63" "0 < d" "d < 2 ^ 63"
  shows "next_loop e n d = min (Max e) (d * 2 ^ n)"
  using assms(3,4)
proof (induction n arbitrary: d)
  case 0
  with assms(1) show ?case by (simp add: min_def)
next
  case (Suc n)
  have grow: "d * 2 \<le> d * 2 ^ Suc n"
    using Suc.prems mult_left_mono [of "1::int" "2 ^ n" "d * 2"] by simp
  show ?case
  proof (cases "d < 2 ^ 62")
    case True
    with Suc.prems have dbl: "i64 (d * 2) = d * 2" by (simp add: i64_double)
    show ?thesis
    proof (cases "Max e \<le> d * 2")
      case True
      then have "Max e \<le> d * 2 ^ Suc n" using grow by (rule order.trans)
      with True dbl assms(1) show ?thesis by (simp add: min_def)
    next
      case False
      with dbl Suc.prems \<open>d < 2 ^ 62\<close> assms(1) show ?thesis
        by (simp add: Suc.IH [of "d * 2"] mult.assoc)
    qed
  next
    case False
    with Suc.prems have "i64 (d * 2) = d * 2 - 2 ^ 64" by (simp add: i64_double)
    with Suc.prems have "i64 (d * 2) \<le> 0" by simp
    moreover have "Max e \<le> d * 2 ^ Suc n"
      using False assms(2) by (intro order.trans [OF _ grow]) simp
    ultimately show ?thesis using assms(1) by (simp add: min_def)
  qed
qed

lemma next_loop_uncapped:
  assumes "Max e = 0" "0 < d" "d < 2 ^ 63"
  shows "next_loop e n d = (if d * 2 ^ n < 2 ^ 63 then d * 2 ^ n else 0)"
  using assms(2,3)
proof (induction n arbitrary: d)
  case 0
  with assms(1) show ?case by simp
next
  case (Suc n)
  have grow: "d * 2 \<le> d * 2 ^ Suc n"
    using Suc.prems mult_left_mono [of "1::int" "2 ^ n" "d * 2"] by simp
  show ?case
  proof (cases "d < 2 ^ 62")
    case True
    with Suc.prems assms(1) show ?thesis
      by (simp add: i64_double Suc.IH [of "d * 2"] mult.assoc)
  next
    case False
    with Suc.prems have "i64 (d * 2) \<le> 0" by (simp add: i64_double)
    moreover have "2 ^ 63 \<le> d * 2 ^ Suc n"
      using False by (intro order.trans [OF _ grow]) simp
    ultimately show ?thesis using assms(1) by simp
  qed
qed

text \<open>
  C39: with a positive base and cap, the overflow-checked doubling loop of
  \<open>Exponential.Next\<close> computes exactly the mathematical backoff, the smaller of the cap
  and the base times two to the attempt, whatever the attempt, although the doubling
  itself wraps at 64 bits.
\<close>

theorem Exponential_Next_exact:
  assumes "0 < Base e" "Base e < 2 ^ 63" "0 < Max e" "Max e < 2 ^ 63"
  shows "Exponential_Next e attempt = min (Max e) (Base e * 2 ^ nat (max 0 attempt))"
  using assms next_loop_capped [of e "Base e"]
  by (cases "attempt < 0") (simp_all add: Exponential_Next_def)

theorem Exponential_Next_exact_witness:
  "Exponential_Next \<lparr>Base = 500 * millisecond, Max = 30 * second\<rparr> 70 = 30 * second"
  using Exponential_Next_exact [of "\<lparr>Base = 500 * millisecond, Max = 30 * second\<rparr>" 70] by simp

text \<open>
  An \<open>Exponential\<close> with a zero \<open>Max\<close>, which is documented to have no cap, doubles
  only until the doubling leaves \<open>int64\<close>; from the attempt that overflows on it returns
  no wait at all.
\<close>

theorem Exponential_Next_uncapped_overflow:
  assumes "0 < Base e" "Base e < 2 ^ 63" "Max e = 0" "0 \<le> attempt"
  shows "Exponential_Next e attempt =
           (if Base e * 2 ^ nat attempt < 2 ^ 63 then Base e * 2 ^ nat attempt else 0)"
  using assms next_loop_uncapped [of e "Base e" "nat attempt"]
  by (simp add: Exponential_Next_def)

theorem Exponential_Next_uncapped_overflow_witness:
  "Exponential_Next \<lparr>Base = second, Max = 0\<rparr> 33 = second * 2 ^ 33
   \<and> Exponential_Next \<lparr>Base = second, Max = 0\<rparr> 34 = 0"
  using Exponential_Next_uncapped_overflow [of "\<lparr>Base = second, Max = 0\<rparr>" 33]
    Exponential_Next_uncapped_overflow [of "\<lparr>Base = second, Max = 0\<rparr>" 34]
  by simp

section \<open>The interface of a backoff policy\<close>

text \<open>
  \<open>clock.Backoff\<close>: what its callers rely on is that no wait is negative and that there is
  a longest wait. The time a ladder of \<open>n\<close> retries spends waiting is then bounded.
\<close>

locale backoff_policy =
  fixes next_wait :: "int \<Rightarrow> duration"
    and longest :: duration
  assumes next_nonneg: "0 \<le> next_wait n"
    and next_bounded: "next_wait n \<le> longest"
begin

lemma longest_nonneg: "0 \<le> longest"
  using next_nonneg [of 0] next_bounded [of 0] by simp

lemma ladder_wait:
  "0 \<le> (\<Sum>i<n. next_wait (int i)) \<and> (\<Sum>i<n. next_wait (int i)) \<le> int n * longest"
proof (induction n)
  case (Suc n)
  with next_nonneg [of "int n"] next_bounded [of "int n"] show ?case
    by (simp add: algebra_simps)
qed simp

end

lemma Exponential_Next_range:
  assumes "exponential_ok e"
  shows "0 \<le> Exponential_Next e n" "0 < Max e \<Longrightarrow> Exponential_Next e n \<le> Max e"
proof -
  from assms have b: "0 < Base e" "Base e < 2 ^ 63" and m: "Max e < 2 ^ 63"
    by (simp_all add: exponential_ok_def)
  have cap: "next_loop e k (Base e) = min (Max e) (Base e * 2 ^ k)" if "0 < Max e" for k
    using that m b by (rule next_loop_capped)
  have nocap: "0 \<le> next_loop e k (Base e)" if "Max e = 0" for k
    using b by (simp add: next_loop_uncapped [OF that b])
  from assms consider "0 < Max e" | "Max e = 0" by (force simp: exponential_ok_def)
  then show "0 \<le> Exponential_Next e n"
    using b by cases (simp_all add: Exponential_Next_def cap nocap)
  show "Exponential_Next e n \<le> Max e" if "0 < Max e"
    using that by (simp add: Exponential_Next_def cap)
qed

text \<open>The Scheduler's default policy, 500 ms doubling to 30 s, and the policy that never waits.\<close>

definition default_backoff :: exponential where
  "default_backoff = \<lparr>Base = 500 * millisecond, Max = 30 * second\<rparr>"

interpretation default_policy: backoff_policy "Exponential_Next default_backoff" "30 * second"
proof
  have ok: "exponential_ok default_backoff" "0 < Max default_backoff"
    by (simp_all add: exponential_ok_def default_backoff_def)
  show "0 \<le> Exponential_Next default_backoff n" for n
    by (rule Exponential_Next_range [OF ok(1)])
  show "Exponential_Next default_backoff n \<le> 30 * second" for n
    using Exponential_Next_range(2) [OF ok] by (simp add: default_backoff_def)
qed

interpretation zero_policy: backoff_policy Zero_Next 0
  by standard (simp_all add: Zero_Next_def)

end
