(* ===== verification/Pool_Types.thy ===== *)
theory Pool_Types
  imports Prelude
begin

text \<open>
  The vocabulary of the Pool Manager client (\<open>internal/poolmgr/interfaces.go\<close>,
  \<open>client.go\<close>): Pool references, counts, events with their JSON payloads, the sentinel
  errors and the translation of gRPC statuses into them.
\<close>

section \<open>References, counts and claims\<close>

record pool_ref =
  ref_name :: string
  ref_namespace :: string

definition PoolRef_String :: "pool_ref \<Rightarrow> string" where
  "PoolRef_String r = ref_namespace r @ ''/'' @ ref_name r"

record pool_status =
  st_available :: int
  st_leased :: int
  st_provisioning :: int
  st_quarantined :: int

record host_ref =
  host_name :: string
  host_address :: string

text \<open>The network interfaces of a claim are copied through unread and are left out.\<close>

record claim =
  claim_lease :: string
  claim_vm :: string
  claim_host :: host_ref

section \<open>Events\<close>

datatype event_type =
    EVENT_TYPE_UNSPECIFIED
  | VM_PROVISIONED
  | VM_AVAILABLE
  | VM_CLAIMED
  | VM_RELEASED
  | VM_DELETED_DUE_TO_EXPIRY
  | VM_DELETED_ON_RELEASE
  | VM_HOOK_FAILED
  | POOL_SIZE_BELOW_TARGET

text \<open>
  A payload is a byte string that \<open>json.Unmarshal\<close> reads. The lexical layer is taken as
  done: a payload is empty, is not JSON, or is a JSON document. A number is an integer
  literal or one with a fraction or an exponent, which \<open>encoding/json\<close> refuses to store
  in an integer field.
\<close>

datatype json =
    JNull
  | JBool bool
  | JInt int
  | JReal
  | JString string
  | JArray "json list"
  | JObject "(string \<times> json) list"

datatype payload = EmptyPayload | InvalidPayload | Document json

record event =
  ev_id :: int
  ev_pool :: pool_ref
  ev_vm :: string
  ev_type :: event_type
  ev_at :: time
  ev_payload :: payload

section \<open>Decoding a payload into a struct\<close>

text \<open>
  \<open>encoding/json\<close> matches the keys of an object to the fields of a struct without
  regard to case, ignores keys it does not know, leaves a field alone on \<open>null\<close>, lets a
  later key override an earlier one, and goes on after a value of the wrong type but
  returns the error at the end.
\<close>

definition fold_char :: "char \<Rightarrow> char" where
  "fold_char c = (if CHR ''A'' \<le> c \<and> c \<le> CHR ''Z'' then char_of (of_char c + 32 :: nat) else c)"

definition same_key :: "string \<Rightarrow> string \<Rightarrow> bool" where
  "same_key k field \<longleftrightarrow> map fold_char k = map fold_char field"

definition int32_field :: "json \<Rightarrow> int \<Rightarrow> int option" where
  "int32_field v old = (case v of
     JNull \<Rightarrow> Some old
   | JInt k \<Rightarrow> if - (2 ^ 31) \<le> k \<and> k < 2 ^ 31 then Some k else None
   | _ \<Rightarrow> None)"

definition string_field :: "json \<Rightarrow> string \<Rightarrow> string option" where
  "string_field v old = (case v of JNull \<Rightarrow> Some old | JString s \<Rightarrow> Some s | _ \<Rightarrow> None)"

text \<open>The value of one field after decoding an object, and whether every value fitted.\<close>

fun decode_field :: "(json \<Rightarrow> 'a \<Rightarrow> 'a option) \<Rightarrow> string \<Rightarrow> (string \<times> json) list \<Rightarrow> 'a \<Rightarrow> 'a option" where
  "decode_field conv field [] old = Some old"
| "decode_field conv field ((k, v) # kvs) old =
     (if same_key k field
      then case conv v old of None \<Rightarrow> None | Some new \<Rightarrow> decode_field conv field kvs new
      else decode_field conv field kvs old)"

lemma decode_field_absent:
  "\<forall>kv \<in> set kvs. \<not> same_key (fst kv) field \<Longrightarrow> decode_field conv field kvs old = Some old"
  by (induction kvs) auto

section \<open>Errors\<close>

datatype ctx_error = Canceled | DeadlineExceeded

datatype pm_error =
    ErrExhausted
  | ErrNotFound
  | ErrAlreadyExists
  | ErrUnavailable
  | ErrInvalid
  | ErrAborted
  | ErrContext ctx_error
  | ErrOther

text \<open>The codes of \<open>google.golang.org/grpc/codes\<close>, and an error that carries no status.\<close>

datatype grpc_code =
    Code_Canceled | Code_Unknown | Code_InvalidArgument | Code_DeadlineExceeded
  | Code_NotFound | Code_AlreadyExists | Code_PermissionDenied | Code_ResourceExhausted
  | Code_FailedPrecondition | Code_Aborted | Code_OutOfRange | Code_Unimplemented
  | Code_Internal | Code_Unavailable | Code_DataLoss | Code_Unauthenticated

datatype grpc_error = NoStatus | Status grpc_code

definition mapErr :: "ctx_error option \<Rightarrow> grpc_error option \<Rightarrow> pm_error option" where
  "mapErr ctx err = (case err of
     None \<Rightarrow> None
   | Some NoStatus \<Rightarrow> Some ErrOther
   | Some (Status code) \<Rightarrow> Some (case code of
       Code_ResourceExhausted \<Rightarrow> ErrExhausted
     | Code_NotFound \<Rightarrow> ErrNotFound
     | Code_AlreadyExists \<Rightarrow> ErrAlreadyExists
     | Code_Unavailable \<Rightarrow> ErrUnavailable
     | Code_InvalidArgument \<Rightarrow> ErrInvalid
     | Code_Aborted \<Rightarrow> ErrAborted
     | Code_Canceled \<Rightarrow> (case ctx of Some e \<Rightarrow> ErrContext e | None \<Rightarrow> ErrUnavailable)
     | Code_DeadlineExceeded \<Rightarrow> (case ctx of Some e \<Rightarrow> ErrContext e | None \<Rightarrow> ErrUnavailable)
     | _ \<Rightarrow> ErrOther))"

lemma mapErr_context:
  "mapErr ctx err = Some (ErrContext e) \<Longrightarrow>
     ctx = Some e \<and> err \<in> {Some (Status Code_Canceled), Some (Status Code_DeadlineExceeded)}"
  by (auto simp: mapErr_def split: option.splits grpc_error.splits grpc_code.splits)

lemma mapErr_not_found:
  "mapErr ctx err = Some ErrNotFound \<longleftrightarrow> err = Some (Status Code_NotFound)"
  by (auto simp: mapErr_def split: option.splits grpc_error.splits grpc_code.splits)

end
