(* ===== verification/Health.thy ===== *)
theory Health
  imports Pool_Types Clock_Backoff
begin

text \<open>
  \<open>HealthMonitor\<close> of \<open>internal/poolmgr/health.go\<close>: whether the Pool Manager counts as
  reachable, from probes that answer or fail and from claims that could not reach it. The
  state is compared with a specification that reads the history of calls.
\<close>

section \<open>The monitor\<close>

record health_config =
  hc_interval :: duration
  hc_threshold :: int
  hc_unhealthy_for :: duration

definition health_defaults :: "health_config \<Rightarrow> health_config" where
  "health_defaults c = c\<lparr>
     hc_interval := (if hc_interval c \<le> 0 then 10 * second else hc_interval c),
     hc_threshold := (if hc_threshold c \<le> 0 then 3 else hc_threshold c),
     hc_unhealthy_for := (if hc_unhealthy_for c \<le> 0 then 30 * second else hc_unhealthy_for c)\<rparr>"

text \<open>\<open>contacted\<close> is whether the channel is closed; \<open>contactedOnce\<close> closes it at most once.\<close>

record health =
  failures :: int
  healthy :: bool
  unhealthyUntil :: time
  contacted :: bool

definition NewHealth :: health where
  "NewHealth = \<lparr>failures = 0, healthy = False, unhealthyUntil = 0, contacted = False\<rparr>"

definition markFailure :: "health_config \<Rightarrow> health \<Rightarrow> health" where
  "markFailure cfg h =
     (let h1 = h\<lparr>failures := failures h + 1\<rparr>
      in if failures h1 \<ge> hc_threshold cfg then h1\<lparr>healthy := False\<rparr> else h1)"

definition markHealthy :: "health \<Rightarrow> health" where
  "markHealthy h = h\<lparr>failures := 0, healthy := True, unhealthyUntil := 0, contacted := True\<rparr>"

definition MarkUnavailable :: "health_config \<Rightarrow> time \<Rightarrow> health \<Rightarrow> health" where
  "MarkUnavailable cfg now h = h\<lparr>unhealthyUntil := now + hc_unhealthy_for cfg\<rparr>"

definition Healthy :: "time \<Rightarrow> health \<Rightarrow> bool" where
  "Healthy now h \<longleftrightarrow> healthy h \<and> \<not> now < unhealthyUntil h"

text \<open>One probe: what \<open>ListPools\<close> answered and whether the context had ended by then.\<close>

definition probe :: "health_config \<Rightarrow> pm_error option \<Rightarrow> bool \<Rightarrow> health \<Rightarrow> health" where
  "probe cfg answer ctx_ended h =
     (if answer \<noteq> None then (if ctx_ended then h else markFailure cfg h) else markHealthy h)"

text \<open>
  One round of \<open>firstContact\<close>: the claims that failed before the call, the answer, whether
  the context had ended, and whether the sleep ran out. The result says whether contact
  was made; a script that ends leaves the loop waiting.
\<close>

record contact_round =
  cr_marks :: "time list"
  cr_answer :: "pm_error option"
  cr_ctx_ended :: bool
  cr_slept :: bool

fun firstContact :: "health_config \<Rightarrow> contact_round list \<Rightarrow> health \<Rightarrow> health \<times> bool" where
  "firstContact cfg [] h = (h, False)"
| "firstContact cfg (r # rs) h =
     (let h1 = fold (MarkUnavailable cfg) (cr_marks r) h
      in if cr_answer r = None then (markHealthy h1, True)
         else if cr_ctx_ended r then (h1, False)
         else if cr_slept r then firstContact cfg rs h1 else (h1, False))"

text \<open>What happens while \<open>Run\<close> is past the first contact.\<close>

datatype health_event =
    Ticked "pm_error option" bool
  | ClaimUnavailable time
  | HealthDone

fun probe_loop :: "health_config \<Rightarrow> health_event list \<Rightarrow> health \<Rightarrow> health" where
  "probe_loop cfg [] h = h"
| "probe_loop cfg (Ticked answer ended # es) h = probe_loop cfg es (probe cfg answer ended h)"
| "probe_loop cfg (ClaimUnavailable now # es) h = probe_loop cfg es (MarkUnavailable cfg now h)"
| "probe_loop cfg (HealthDone # es) h = h"

definition Health_Run :: "health_config \<Rightarrow> contact_round list \<Rightarrow> health_event list \<Rightarrow> health \<Rightarrow> health" where
  "Health_Run cfg rounds es h =
     (case firstContact cfg rounds h of (h1, True) \<Rightarrow> probe_loop cfg es h1 | (h1, False) \<Rightarrow> h1)"

section \<open>The specification\<close>

text \<open>The calls that count, latest first, and what they say.\<close>

datatype call = Succeeded | Failed | Unreachable time

fun events_calls :: "health_event list \<Rightarrow> call list" where
  "events_calls [] = []"
| "events_calls (Ticked answer ended # es) =
     (if answer = None then [Succeeded] else if ended then [] else [Failed]) @ events_calls es"
| "events_calls (ClaimUnavailable now # es) = Unreachable now # events_calls es"
| "events_calls (HealthDone # es) = []"

definition since_success :: "call list \<Rightarrow> call list" where
  "since_success history = takeWhile (\<lambda>c. c \<noteq> Succeeded) history"

fun last_unreachable :: "call list \<Rightarrow> time option" where
  "last_unreachable [] = None"
| "last_unreachable (Unreachable now # cs) = Some now"
| "last_unreachable (c # cs) = last_unreachable cs"

definition reachable_spec :: "health_config \<Rightarrow> call list \<Rightarrow> time \<Rightarrow> bool" where
  "reachable_spec cfg history now \<longleftrightarrow>
     (let recent = since_success history
      in Succeeded \<in> set history \<and> int (length (filter (\<lambda>c. c = Failed) recent)) < hc_threshold cfg
       \<and> (case last_unreachable recent of None \<Rightarrow> True | Some at \<Rightarrow> at + hc_unhealthy_for cfg \<le> now))"

text \<open>The simulation: the state is what the history since the last success says.\<close>

definition mirrors :: "health_config \<Rightarrow> call list \<Rightarrow> health \<Rightarrow> bool" where
  "mirrors cfg history h \<longleftrightarrow>
     failures h = int (length (filter (\<lambda>c. c = Failed) (since_success history)))
   \<and> (healthy h \<longleftrightarrow> Succeeded \<in> set history \<and> failures h < hc_threshold cfg)
   \<and> unhealthyUntil h = (case last_unreachable (since_success history) of
        None \<Rightarrow> 0 | Some at \<Rightarrow> at + hc_unhealthy_for cfg)
   \<and> (contacted h \<longleftrightarrow> Succeeded \<in> set history)"

lemma since_success_simps [simp]:
  "since_success [] = []" "since_success (Succeeded # cs) = []"
  "since_success (Failed # cs) = Failed # since_success cs"
  "since_success (Unreachable now # cs) = Unreachable now # since_success cs"
  by (simp_all add: since_success_def)

lemma mirrors_success: "0 < hc_threshold cfg \<Longrightarrow> mirrors cfg (Succeeded # cs) (markHealthy h)"
  by (simp add: mirrors_def markHealthy_def)

lemma mirrors_failure: "mirrors cfg cs h \<Longrightarrow> mirrors cfg (Failed # cs) (markFailure cfg h)"
  by (auto simp: mirrors_def markFailure_def Let_def split: option.splits)

lemma mirrors_unreachable:
  "mirrors cfg cs h \<Longrightarrow> mirrors cfg (Unreachable now # cs) (MarkUnavailable cfg now h)"
  by (simp add: mirrors_def MarkUnavailable_def)

lemma mirrors_loop:
  "0 < hc_threshold cfg \<Longrightarrow> mirrors cfg cs h \<Longrightarrow> mirrors cfg (rev (events_calls es) @ cs) (probe_loop cfg es h)"
proof (induction es arbitrary: cs h)
  case (Cons e es)
  show ?case
  proof (cases e)
    case (Ticked answer ended)
    with Cons show ?thesis
      using Cons.IH [of "Succeeded # cs"] Cons.IH [of "Failed # cs"] mirrors_success [of cfg cs h]
        mirrors_failure [of cfg cs h] by (auto simp: probe_def)
  next
    case (ClaimUnavailable now)
    with Cons show ?thesis using Cons.IH [of "Unreachable now # cs"] mirrors_unreachable by auto
  qed (use Cons in simp)
qed simp

lemma mirrors_healthy:
  "mirrors cfg cs h \<Longrightarrow> 0 \<le> now \<Longrightarrow> Healthy now h \<longleftrightarrow> reachable_spec cfg cs now"
  by (auto simp: mirrors_def Healthy_def reachable_spec_def Let_def split: option.splits)

lemma mirrors_marks:
  "mirrors cfg cs h \<Longrightarrow> mirrors cfg (rev (map Unreachable marks) @ cs) (fold (MarkUnavailable cfg) marks h)"
proof (induction marks arbitrary: cs h)
  case (Cons m marks)
  from Cons.IH [OF mirrors_unreachable [OF Cons.prems, of m]] show ?case by simp
qed simp

lemma NewHealth_mirrors: "mirrors cfg [] NewHealth"
  by (simp add: mirrors_def NewHealth_def)

lemma firstContact_mirrors:
  "0 < hc_threshold cfg \<Longrightarrow> mirrors cfg cs h \<Longrightarrow> Succeeded \<notin> set cs \<Longrightarrow> firstContact cfg rs h = (h1, done) \<Longrightarrow>
     \<exists>cs1. mirrors cfg cs1 h1 \<and> (done \<longleftrightarrow> Succeeded \<in> set cs1) \<and> (done \<longrightarrow> since_success cs1 = [])"
proof (induction rs arbitrary: cs h)
  case (Cons r rs)
  let ?cs = "rev (map Unreachable (cr_marks r)) @ cs" and ?h = "fold (MarkUnavailable cfg) (cr_marks r) h"
  have m: "mirrors cfg ?cs ?h" using Cons.prems(2) by (rule mirrors_marks)
  have n: "Succeeded \<notin> set ?cs" using Cons.prems(3) by auto
  consider "cr_answer r = None" | "cr_answer r \<noteq> None" "cr_ctx_ended r \<or> \<not> cr_slept r"
    | "cr_answer r \<noteq> None" "\<not> cr_ctx_ended r" "cr_slept r" by blast
  then show ?case
  proof cases
    case 1
    with Cons.prems mirrors_success [OF Cons.prems(1), of ?cs ?h] show ?thesis
      by (intro exI [of _ "Succeeded # ?cs"]) (auto simp: Let_def)
  next
    case 2
    with Cons.prems m n show ?thesis by (intro exI [of _ ?cs]) (auto simp: Let_def split: if_splits)
  next
    case 3
    with Cons.prems Cons.IH [OF Cons.prems(1) m n] show ?thesis by (simp add: Let_def)
  qed
qed auto



end
