(* ===== verification/Lease_Keeper.thy ===== *)
theory Lease_Keeper
  imports Pool_Types Clock_Backoff
begin

text \<open>
  The lease units of \<open>internal/poolmgr/lease.go\<close>: \<open>LeaseKeeper\<close>, which heartbeats one
  Lease until its Job ends or the Lease is lost, and \<open>Releaser\<close>, which gives a Lease back
  and retries. Both run over a script of what the Pool Manager, the clock and the context
  do.
\<close>

section \<open>Keeping a lease alive\<close>

record lease_keeper =
  keep_interval :: duration
  keep_expires :: time
  keep_beats :: int

definition NewLeaseKeeper :: "duration \<Rightarrow> time \<Rightarrow> lease_keeper" where
  "NewLeaseKeeper interval expires =
     \<lparr>keep_interval = (if interval \<le> 0 then 10 * second else interval), keep_expires = expires, keep_beats = 0\<rparr>"

definition record_beat :: "time \<Rightarrow> lease_keeper \<Rightarrow> lease_keeper" where
  "record_beat expires k =
     (if expires \<noteq> 0 then k\<lparr>keep_expires := expires, keep_beats := keep_beats k + 1\<rparr>
      else k\<lparr>keep_beats := keep_beats k + 1\<rparr>)"

definition nextInterval :: "time \<Rightarrow> lease_keeper \<Rightarrow> duration" where
  "nextInterval now k =
     (let d = keep_interval k;
          d = (if keep_expires k \<noteq> 0 then
                 let h = half (time_sub (keep_expires k) now) in if h < d then h else d
               else d)
      in if d \<le> 0 then 1 else d)"

text \<open>
  One round of \<open>Run\<close>: the context ends during the wait, or the timer fires and the
  heartbeat is answered; the clock is read when a failure is judged and when the timer is
  reset.
\<close>

datatype keeper_round =
    KeeperCancelled
  | Beat "pm_error + time" bool time time

datatype keeper_result = Keeping | KeeperStopped | LeaseGone | LeaseExpired

fun Keeper_Run :: "keeper_round list \<Rightarrow> lease_keeper \<Rightarrow> lease_keeper \<times> duration list \<times> keeper_result" where
  "Keeper_Run [] k = (k, [], Keeping)"
| "Keeper_Run (KeeperCancelled # rs) k = (k, [], KeeperStopped)"
| "Keeper_Run (Beat answer ctx_ended now next_now # rs) k =
     (case answer of
        Inr expires \<Rightarrow>
          let k1 = record_beat expires k; (k2, ws, res) = Keeper_Run rs k1
          in (k2, nextInterval next_now k1 # ws, res)
      | Inl err \<Rightarrow>
          if ctx_ended then (k, [], KeeperStopped)
          else if err = ErrNotFound then (k, [], LeaseGone)
          else if keep_expires k \<noteq> 0 \<and> \<not> now < keep_expires k then (k, [], LeaseExpired)
          else let (k2, ws, res) = Keeper_Run rs k in (k2, nextInterval next_now k # ws, res))"

lemma nextInterval_pos: "0 < nextInterval now k"
  by (simp add: nextInterval_def Let_def)

lemma nextInterval_le: "0 < keep_interval k \<Longrightarrow> nextInterval now k \<le> keep_interval k"
  by (simp add: nextInterval_def Let_def)

lemma time_sub_le: "- (2 ^ 63) \<le> t - u \<Longrightarrow> time_sub t u \<le> t - u"
  by (simp add: time_sub_def)

text \<open>
  C37: a heartbeat is scheduled in time. The wait is positive, no longer than the configured
  interval, and while more than a nanosecond is left of a known expiry it ends with at
  least half of what is left still to go.
\<close>

theorem nextInterval_in_time:
  assumes "k = NewLeaseKeeper interval expires \<or> 0 < keep_interval k"
  shows "0 < nextInterval now k \<and> nextInterval now k \<le> keep_interval k
    \<and> (keep_expires k \<noteq> 0 \<and> now + 1 < keep_expires k \<longrightarrow>
         2 * nextInterval now k \<le> keep_expires k - now \<and> now + nextInterval now k < keep_expires k)"
proof -
  have i: "0 < keep_interval k" using assms by (auto simp: NewLeaseKeeper_def)
  have "2 * nextInterval now k \<le> keep_expires k - now" if "keep_expires k \<noteq> 0" "now + 1 < keep_expires k"
  proof -
    have s: "2 \<le> time_sub (keep_expires k) now" "time_sub (keep_expires k) now \<le> keep_expires k - now"
      using that by (auto simp: time_sub_def)
    then have h: "1 \<le> half (time_sub (keep_expires k) now)" "2 * half (time_sub (keep_expires k) now) \<le> keep_expires k - now"
      by (auto simp: half_eq)
    with that(1) i show ?thesis by (auto simp: nextInterval_def Let_def)
  qed
  with i show ?thesis using nextInterval_pos [of now k] nextInterval_le [OF i] by fastforce
qed

theorem nextInterval_in_time_witness:
  "let k = NewLeaseKeeper (10 * second) (8 * second) in nextInterval (2 * second) k = 3 * second
     \<and> 2 * nextInterval (2 * second) k \<le> keep_expires k - 2 * second"
proof -
  let ?k = "NewLeaseKeeper (10 * second) (8 * second)"
  have "nextInterval (2 * second) ?k = 3 * second"
    by (simp add: nextInterval_def NewLeaseKeeper_def time_sub_def half_eq)
  with nextInterval_in_time [of ?k "10 * second" "8 * second" "2 * second"] show ?thesis
    by (simp add: NewLeaseKeeper_def Let_def)
qed

lemma keep_expires_record: "keep_expires (record_beat e k) = (if e \<noteq> 0 then e else keep_expires k)"
  by (simp add: record_beat_def)

text \<open>
  The keeper gives a lease up only for a reason, and always for a reason. Its run ends
  with the lease lost exactly when the last round it took was answered NOT_FOUND, or failed
  when the expiry the Pool Manager last returned had passed; a failure before that expiry
  is retried.
\<close>

theorem Keeper_Run_gives_up:
  "snd (snd (Keeper_Run (rs @ [Beat (Inl err) ended now nn]) k)) \<in> {LeaseGone, LeaseExpired}
     \<longleftrightarrow> (case Keeper_Run rs k of (k1, _, res) \<Rightarrow>
           res \<in> {LeaseGone, LeaseExpired}
         \<or> res = Keeping \<and> \<not> ended \<and> (err = ErrNotFound \<or> keep_expires k1 \<noteq> 0 \<and> keep_expires k1 \<le> now))"
proof (induction rs arbitrary: k)
  case (Cons r rs)
  show ?case
  proof (cases r)
    case (Beat answer e n m)
    show ?thesis
    proof (cases answer)
      case (Inl x)
      with Beat Cons [of k] show ?thesis by (simp add: Let_def split_beta)
    next
      case (Inr x)
      with Beat Cons [of "record_beat x k"] show ?thesis by (simp add: Let_def split_beta)
    qed
  qed simp
qed (auto simp: not_less)

section \<open>Releasing a lease\<close>

definition RetryLimit :: "int \<Rightarrow> int" where
  "RetryLimit n = (if n \<le> 0 then 5 else n)"

text \<open>
  One attempt of \<open>Release\<close>: whether the wait before it ended with the context, what
  \<open>ReleaseVM\<close> answered, and whether the context had ended by then. The result is the error
  returned with the waits asked for and the number of calls made; a script that ends leaves
  the loop waiting.
\<close>

record release_round =
  rr_wait_ended :: "ctx_error option"
  rr_answer :: "pm_error option"
  rr_ctx_ended :: bool

datatype release_result = Releasing | Released | ReleaseFailed pm_error

function release_loop :: "(int \<Rightarrow> duration) \<Rightarrow> int \<Rightarrow> int \<Rightarrow> pm_error \<Rightarrow> release_round list
    \<Rightarrow> release_result \<times> duration list \<times> nat" where
  "release_loop nxt limit attempt err rs =
     (if \<not> attempt \<le> limit then (ReleaseFailed err, [], 0)
      else case rs of
        [] \<Rightarrow> (Releasing, if attempt > 0 then [nxt (attempt - 1)] else [], 0)
      | r # rs' \<Rightarrow>
          let ws = (if attempt > 0 then [nxt (attempt - 1)] else [])
          in if attempt > 0 \<and> rr_wait_ended r \<noteq> None
             then (ReleaseFailed (ErrContext (the (rr_wait_ended r))), ws, 0)
             else case rr_answer r of
               None \<Rightarrow> (Released, ws, 1)
             | Some e \<Rightarrow>
                 if e = ErrNotFound then (Released, ws, 1)
                 else if rr_ctx_ended r then (ReleaseFailed e, ws, 1)
                 else let (res, ws', n) = release_loop nxt limit (attempt + 1) e rs'
                      in (res, ws @ ws', Suc n))"
  by pat_completeness auto
termination by (relation "measure (\<lambda>(_, _, _, _, rs). length rs)") auto

definition Release_lease :: "(int \<Rightarrow> duration) \<Rightarrow> int \<Rightarrow> release_round list \<Rightarrow> release_result \<times> duration list \<times> nat" where
  "Release_lease nxt limit rs = release_loop nxt (RetryLimit limit) 0 ErrOther rs"

declare release_loop.simps [simp del]

text \<open>A round that ends the loop, and one after which it tries again.\<close>

definition retried :: "release_round \<Rightarrow> bool" where
  "retried r \<longleftrightarrow> rr_wait_ended r = None \<and> \<not> rr_ctx_ended r \<and> rr_answer r \<notin> {None, Some ErrNotFound}"

definition succeeds :: "release_round \<Rightarrow> bool" where
  "succeeds r \<longleftrightarrow> rr_wait_ended r = None \<and> rr_answer r \<in> {None, Some ErrNotFound}"

lemma release_step:
  assumes "retried r" "attempt \<le> limit"
  shows "release_loop nxt limit attempt err (r # rs) =
    (case release_loop nxt limit (attempt + 1) (the (rr_answer r)) rs of (res, ws, n) \<Rightarrow>
       (res, (if attempt > 0 then [nxt (attempt - 1)] else []) @ ws, Suc n))"
  using assms by (subst release_loop.simps) (auto simp: retried_def Let_def split: option.splits)

lemma release_ladder:
  assumes "\<forall>r \<in> set rs. retried r" "attempt + int (length rs) \<le> limit + 1" "0 < attempt"
  shows "release_loop nxt limit attempt err (rs @ rest) =
    (case release_loop nxt limit (attempt + int (length rs)) (fold (\<lambda>r _. the (rr_answer r)) rs err) rest of
       (res, ws, n) \<Rightarrow> (res, map (\<lambda>j. nxt (attempt - 1 + int j)) [0..<length rs] @ ws, length rs + n))"
  using assms
proof (induction rs arbitrary: attempt err)
  case (Cons r rs)
  have r: "retried r" "attempt \<le> limit" using Cons.prems by auto
  have "map (\<lambda>j. nxt (attempt - 1 + int j)) [0..<length (r # rs)]
      = nxt (attempt - 1) # map (\<lambda>j. nxt (attempt + 1 - 1 + int j)) [0..<length rs]"
    by (simp add: upt_conv_Cons map_Suc_upt [symmetric] comp_def algebra_simps del: upt_Suc)
  with Cons.IH [of "attempt + 1" "the (rr_answer r)"] Cons.prems show ?case
    by (simp add: release_step [OF r] add.assoc split_beta)
qed simp

lemma release_ladder_start:
  assumes "\<forall>r \<in> set rs. retried r" "int (length rs) \<le> limit + 1" "rs \<noteq> []" "0 \<le> limit"
  shows "release_loop nxt limit 0 err (rs @ rest) =
    (case release_loop nxt limit (int (length rs)) (the (rr_answer (last rs))) rest of
       (res, ws, n) \<Rightarrow> (res, map (\<lambda>j. nxt (int j)) [0..<length rs - 1] @ ws, length rs + n))"
proof -
  obtain r rs' where rs: "rs = r # rs'" using assms(3) by (cases rs) auto
  have last: "fold (\<lambda>r _. the (rr_answer r)) xs (the (rr_answer x)) = the (rr_answer (last (x # xs)))" for xs x
    by (induction xs arbitrary: x) auto
  show ?thesis
    using assms release_ladder [of rs' 1 limit nxt "the (rr_answer r)" rest]
    by (simp add: rs release_step last split_beta)
qed

text \<open>
  C38: a release is retried up to its limit and no further. After any number of failures
  within the limit the next answer that succeeds, NOT_FOUND included, ends it as released
  with one call per attempt; after one failure more than the limit it gives up with the last
  error. Between attempts it waits what the backoff policy says for the attempts so far.
\<close>

theorem Release_up_to_limit:
  assumes "\<forall>r \<in> set rs. retried r" "n = nat (RetryLimit limit)"
  shows "(length rs \<le> n \<and> succeeds r \<longrightarrow>
      Release_lease nxt limit (rs @ r # rest) = (Released, map (\<lambda>j. nxt (int j)) [0..<length rs], Suc (length rs)))
    \<and> (length rs = Suc n \<longrightarrow>
      Release_lease nxt limit (rs @ rest)
        = (ReleaseFailed (the (rr_answer (last rs))), map (\<lambda>j. nxt (int j)) [0..<n], Suc n))"
proof -
  have n: "int n = RetryLimit limit" "0 < n" using assms(2) by (auto simp: RetryLimit_def)
  have stop: "release_loop nxt l a e (r # rest) = (Released, if 0 < a then [nxt (a - 1)] else [], 1)"
    if "succeeds r" "a \<le> l" for l a e
    using that by (subst release_loop.simps) (auto simp: succeeds_def Let_def split: option.splits)
  have over: "release_loop nxt l (l + 1) e rest = (ReleaseFailed e, [], 0)" for l e
    by (subst release_loop.simps) simp
  have "Release_lease nxt limit (rs @ r # rest) = (Released, map (\<lambda>j. nxt (int j)) [0..<length rs], Suc (length rs))"
    if "length rs \<le> n" "succeeds r"
  proof (cases "rs = []")
    case True
    with that n stop show ?thesis by (simp add: Release_lease_def)
  next
    case False
    then obtain m where m: "length rs = Suc m" by (cases "length rs") auto
    have "Release_lease nxt limit (rs @ r # rest) = (case release_loop nxt (int n) (int (length rs))
        (the (rr_answer (last rs))) (r # rest) of (res, ws, k) \<Rightarrow>
        (res, map (\<lambda>j. nxt (int j)) [0..<length rs - 1] @ ws, length rs + k))"
      unfolding Release_lease_def n(1) [symmetric] using assms(1) that(1) False
      by (intro release_ladder_start) auto
    with that m show ?thesis by (simp add: stop)
  qed
  moreover have "Release_lease nxt limit (rs @ rest)
      = (ReleaseFailed (the (rr_answer (last rs))), map (\<lambda>j. nxt (int j)) [0..<n], Suc n)"
    if "length rs = Suc n"
  proof -
    have "Release_lease nxt limit (rs @ rest) = (case release_loop nxt (int n) (int (length rs))
        (the (rr_answer (last rs))) rest of (res, ws, k) \<Rightarrow>
        (res, map (\<lambda>j. nxt (int j)) [0..<length rs - 1] @ ws, length rs + k))"
      unfolding Release_lease_def n(1) [symmetric] using assms(1) that
      by (intro release_ladder_start) auto
    with that over [of "int n"] show ?thesis by (simp add: add.commute)
  qed
  ultimately show ?thesis by blast
qed

theorem Release_up_to_limit_witness:
  "let bad = \<lparr>rr_wait_ended = None, rr_answer = Some ErrUnavailable, rr_ctx_ended = False\<rparr>;
       gone = \<lparr>rr_wait_ended = None, rr_answer = Some ErrNotFound, rr_ctx_ended = False\<rparr>
   in Release_lease Zero_Next 2 [bad, bad, gone] = (Released, [0, 0], 3)
    \<and> Release_lease Zero_Next 2 [bad, bad, bad] = (ReleaseFailed ErrUnavailable, [0, 0], 3)"
proof -
  let ?bad = "\<lparr>rr_wait_ended = None, rr_answer = Some ErrUnavailable, rr_ctx_ended = False\<rparr>"
  let ?gone = "\<lparr>rr_wait_ended = None, rr_answer = Some ErrNotFound, rr_ctx_ended = False\<rparr>"
  have "Release_lease Zero_Next 2 [?bad, ?bad, ?gone] = (Released, [0, 0], 3)"
    using Release_up_to_limit [of "[?bad, ?bad]" 2 2 ?gone Zero_Next "[]"]
    by (simp add: retried_def succeeds_def RetryLimit_def Zero_Next_def upt_rec)
  moreover have "Release_lease Zero_Next 2 [?bad, ?bad, ?bad] = (ReleaseFailed ErrUnavailable, [0, 0], 3)"
    using Release_up_to_limit [of "[?bad, ?bad, ?bad]" 2 2 ?gone Zero_Next "[]"]
    by (simp add: retried_def RetryLimit_def Zero_Next_def upt_rec)
  ultimately show ?thesis by (simp add: Let_def)
qed

end
