(* ===== verification/Uid_Count.thy ===== *)
theory Uid_Count
  imports Prelude
begin

text \<open>
  \<open>uidCount\<close> of \<open>internal/poolmgr/tracker.go\<close>: a count of MicroVMs kept by uid, fed by
  events that may be replayed and by polls that report a bare total. A contract says how
  such a count answers the operations an event makes on it, and that replaying a sequence
  of operations already applied changes nothing; \<open>uidCount\<close> is shown to meet it.
\<close>

section \<open>The count\<close>

record uid_count =
  named :: "string set"
  unnamed :: int
  accounted :: "string set"

definition newUIDCount :: uid_count where
  "newUIDCount = \<lparr>named = {}, unnamed = 0, accounted = {}\<rparr>"

definition total :: "uid_count \<Rightarrow> int" where
  "total c = i32 (i32 (int (card (named c))) + unnamed c)"

definition take_unnamed :: "string \<Rightarrow> uid_count \<Rightarrow> uid_count \<times> bool" where
  "take_unnamed uid c =
     (if uid = [] \<or> unnamed c \<le> 0 then (c, False)
      else if uid \<in> accounted c then (c, False)
      else let acc = insert uid (accounted c); left = i32 (unnamed c - 1)
           in (c\<lparr>unnamed := left, accounted := (if left = 0 then {} else acc)\<rparr>, True))"

definition add :: "string \<Rightarrow> uid_count \<Rightarrow> uid_count \<times> bool \<times> bool" where
  "add uid c =
     (if uid = [] then (c, False, False)
      else if uid \<in> named c then (c, False, False)
      else let (c', took) = take_unnamed uid (c\<lparr>named := insert uid (named c)\<rparr>)
           in (c', True, took))"

definition remove :: "string \<Rightarrow> uid_count \<Rightarrow> uid_count \<times> bool" where
  "remove uid c =
     (if uid = [] then (c, False)
      else if uid \<in> named c then (c\<lparr>named := named c - {uid}\<rparr>, True)
      else (c, False))"

definition rebaseline :: "int \<Rightarrow> uid_count \<Rightarrow> uid_count" where
  "rebaseline tot c =
     (let rest = i32 (tot - i32 (int (card (named c)))); left = (if rest < 0 then 0 else rest)
      in c\<lparr>unnamed := left, accounted := (if left = 0 then {} else named c)\<rparr>)"

definition reset :: "uid_count \<Rightarrow> uid_count" where
  "reset c = c\<lparr>named := {}, accounted := {}, unnamed := 0\<rparr>"

definition leaves :: "uid_count \<Rightarrow> string \<Rightarrow> uid_count" where
  "leaves c uid = (case remove uid c of (c', True) \<Rightarrow> c' | (c', False) \<Rightarrow> fst (take_unnamed uid c'))"

section \<open>Its invariant\<close>

text \<open>
  While some MicroVMs are only counted, every named one is accounted for, so no event can
  take it out of the unnamed part a second time; once none are left nothing is remembered.
\<close>

definition count_ok :: "uid_count \<Rightarrow> bool" where
  "count_ok c \<longleftrightarrow> finite (named c) \<and> finite (accounted c) \<and> 0 \<le> unnamed c \<and> unnamed c < 2 ^ 31
     \<and> (unnamed c = 0 \<longrightarrow> accounted c = {}) \<and> (0 < unnamed c \<longrightarrow> named c \<subseteq> accounted c)
     \<and> [] \<notin> named c"

lemma count_ok_unnamed [int_width]: "count_ok c \<Longrightarrow> 0 < unnamed c \<Longrightarrow> i32 (unnamed c - 1) = unnamed c - 1"
  by (intro i32_id) (auto simp: count_ok_def)

lemma new_ok [simp]: "count_ok newUIDCount"
  by (simp add: count_ok_def newUIDCount_def)

lemma reset_ok [simp]: "count_ok (reset c)"
  by (simp add: count_ok_def reset_def)

lemma take_ok: "count_ok c \<Longrightarrow> count_ok (fst (take_unnamed uid c))"
  using count_ok_unnamed [of c] by (auto simp: take_unnamed_def count_ok_def Let_def)

lemma add_ok [simp]: "count_ok c \<Longrightarrow> count_ok (fst (add uid c))"
  using count_ok_unnamed [of c]
  by (auto simp: add_def take_unnamed_def count_ok_def Let_def split: if_splits)

lemma remove_ok [simp]: "count_ok c \<Longrightarrow> count_ok (fst (remove uid c))"
  by (auto simp: remove_def count_ok_def)

lemma leaves_ok [simp]: "count_ok c \<Longrightarrow> count_ok (leaves c uid)"
  using take_ok [of c uid] remove_ok [of c uid]
  by (auto simp: leaves_def remove_def split: if_splits)

lemma rebaseline_ok [simp]: "count_ok c \<Longrightarrow> count_ok (rebaseline tot c)"
  using i32_range [of "tot - i32 (int (card (named c)))"]
  by (auto simp: count_ok_def rebaseline_def Let_def)

lemmas count_ok_ops = take_ok new_ok reset_ok add_ok remove_ok leaves_ok rebaseline_ok

text \<open>How an operation changes the set of named MicroVMs.\<close>

lemma named_take [simp]: "named (fst (take_unnamed uid c)) = named c"
  by (simp add: take_unnamed_def Let_def)

lemma named_add: "named (fst (add uid c)) = (if uid = [] then named c else insert uid (named c))"
  by (auto simp: add_def take_unnamed_def Let_def)

lemma named_remove: "named (fst (remove uid c)) = (if uid = [] then named c else named c - {uid})"
  by (auto simp: remove_def)

lemma named_leaves: "named (leaves c uid) = (if uid = [] then named c else named c - {uid})"
  by (auto simp: leaves_def remove_def split: if_splits)

lemma named_rebaseline [simp]: "named (rebaseline tot c) = named c"
  by (simp add: rebaseline_def Let_def)

lemma named_reset [simp]: "named (reset c) = {}"
  by (simp add: reset_def)

lemma named_new [simp]: "named newUIDCount = {}"
  by (simp add: newUIDCount_def)

lemmas named_ops = named_add named_remove named_leaves

section \<open>Replaying operations\<close>

text \<open>
  What an event does to one count is a sequence of these operations. The contract of a
  replayable count: the members change as a set does, an \<open>Enter\<close> or \<open>Leave\<close> settles its
  uid for good, and an operation on a settled uid, and any \<open>Drop\<close>, changes nothing but the
  members.
\<close>

datatype count_op = Enter string | Drop string | Leave string

fun member_op :: "count_op \<Rightarrow> string set \<Rightarrow> string set" where
  "member_op (Enter u) A = (if u = [] then A else insert u A)"
| "member_op (Drop u) A = (if u = [] then A else A - {u})"
| "member_op (Leave u) A = (if u = [] then A else A - {u})"

fun op_uid :: "count_op \<Rightarrow> string" where
  "op_uid (Enter u) = u"
| "op_uid (Drop u) = u"
| "op_uid (Leave u) = u"

fun settles :: "count_op \<Rightarrow> bool" where
  "settles (Drop u) = False"
| "settles (Enter u) = True"
| "settles (Leave u) = True"

lemma member_op_other: "v \<noteq> op_uid x \<Longrightarrow> v \<in> member_op x A \<longleftrightarrow> v \<in> A"
  by (cases x) auto

lemma member_op_own: "v = op_uid x \<Longrightarrow> v \<noteq> [] \<Longrightarrow> v \<in> member_op x A \<longleftrightarrow> v \<in> member_op x B"
  by (cases x) auto

lemma member_op_empty: "op_uid x = [] \<Longrightarrow> member_op x A = A"
  by (cases x) auto

lemma member_ops_other: "v \<notin> op_uid ` set xs \<Longrightarrow> v \<in> fold member_op xs A \<longleftrightarrow> v \<in> A"
  by (induction xs arbitrary: A) (auto simp: member_op_other)

lemma member_ops_own:
  "v \<in> op_uid ` set xs \<Longrightarrow> v \<noteq> [] \<Longrightarrow> v \<in> fold member_op xs A \<longleftrightarrow> v \<in> fold member_op xs B"
proof (induction xs arbitrary: A B)
  case (Cons x xs)
  show ?case
  proof (cases "v \<in> op_uid ` set xs")
    case True
    with Cons show ?thesis by simp
  next
    case False
    with Cons.prems have "v = op_uid x" by auto
    with False Cons.prems(2) show ?thesis
      using member_ops_other [OF False] member_op_own [of v x] by (metis fold_simps(2))
  qed
qed simp

lemma member_ops_empty: "[] \<in> fold member_op xs A \<longleftrightarrow> [] \<in> A"
proof (induction xs arbitrary: A)
  case (Cons x xs)
  then show ?case by (cases x) auto
qed simp

lemma member_ops_replay: "fold member_op xs (fold member_op xs A) = fold member_op xs A"
proof (rule set_eqI)
  fix v
  show "v \<in> fold member_op xs (fold member_op xs A) \<longleftrightarrow> v \<in> fold member_op xs A"
    using member_ops_other [of v xs] member_ops_own [of v xs "fold member_op xs A" A]
      member_ops_empty [of xs] by (cases "v = []"; cases "v \<in> op_uid ` set xs") auto
qed

locale replayable_count =
  fixes ok :: "'c \<Rightarrow> bool"
    and members :: "'c \<Rightarrow> string set"
    and with_members :: "string set \<Rightarrow> 'c \<Rightarrow> 'c"
    and settled :: "'c \<Rightarrow> string \<Rightarrow> bool"
    and perform :: "count_op \<Rightarrow> 'c \<Rightarrow> 'c"
  assumes ok_perform: "ok c \<Longrightarrow> ok (perform x c)"
    and members_perform: "ok c \<Longrightarrow> members (perform x c) = member_op x (members c)"
    and settled_perform: "ok c \<Longrightarrow> settled c u \<Longrightarrow> settled (perform x c) u"
    and settles_perform: "ok c \<Longrightarrow> settles x \<Longrightarrow> settled (perform x c) (op_uid x)"
    and perform_settled: "ok c \<Longrightarrow> settled c (op_uid x) \<or> \<not> settles x \<Longrightarrow>
      perform x c = with_members (member_op x (members c)) c"
    and with_members_id: "with_members (members c) c = c"
    and with_members_twice: "with_members A (with_members B c) = with_members A c"
begin

lemma ok_performs: "ok c \<Longrightarrow> ok (fold perform xs c)"
  by (induction xs arbitrary: c) (auto intro: ok_perform)

lemma members_performs: "ok c \<Longrightarrow> members (fold perform xs c) = fold member_op xs (members c)"
  by (induction xs arbitrary: c) (auto simp: members_perform ok_perform)

lemma settled_performs: "ok c \<Longrightarrow> settled c u \<Longrightarrow> settled (fold perform xs c) u"
  by (induction xs arbitrary: c) (auto intro: settled_perform ok_perform)

lemma settles_performs: "ok c \<Longrightarrow> x \<in> set xs \<Longrightarrow> settles x \<Longrightarrow> settled (fold perform xs c) (op_uid x)"
proof (induction xs arbitrary: c)
  case (Cons y ys)
  then show ?case
    by (cases "x = y") (auto intro: settled_performs settles_perform ok_perform)
qed simp

lemma performs_settled:
  assumes "ok c" and "\<forall>x \<in> set xs. settles x \<longrightarrow> settled c (op_uid x)"
  shows "fold perform xs c = with_members (fold member_op xs (members c)) c"
  using assms
proof (induction xs arbitrary: c)
  case Nil
  then show ?case by (simp add: with_members_id)
next
  case (Cons x xs)
  have step: "perform x c = with_members (member_op x (members c)) c"
    using Cons.prems by (intro perform_settled) auto
  have "fold perform xs (perform x c)
    = with_members (fold member_op xs (members (perform x c))) (perform x c)"
    using Cons.prems by (intro Cons.IH) (auto intro: ok_perform settled_perform)
  with Cons.prems(1) show ?case
    by (simp add: members_perform) (simp add: step with_members_twice)
qed

text \<open>Replaying a sequence of operations that has been applied is a no-op.\<close>

lemma replay:
  assumes "ok c"
  shows "fold perform xs (fold perform xs c) = fold perform xs c"
proof -
  let ?d = "fold perform xs c"
  have "fold perform xs ?d = with_members (fold member_op xs (members ?d)) ?d"
    using assms by (intro performs_settled) (auto intro: ok_performs settles_performs)
  also have "fold member_op xs (members ?d) = members ?d"
    by (simp add: members_performs [OF assms] member_ops_replay)
  finally show ?thesis by (simp add: with_members_id)
qed

end

section \<open>A uid count is replayable\<close>

fun count_perform :: "count_op \<Rightarrow> uid_count \<Rightarrow> uid_count" where
  "count_perform (Enter u) c = fst (add u c)"
| "count_perform (Drop u) c = fst (remove u c)"
| "count_perform (Leave u) c = leaves c u"

definition count_settled :: "uid_count \<Rightarrow> string \<Rightarrow> bool" where
  "count_settled c u \<longleftrightarrow> u = [] \<or> unnamed c = 0 \<or> u \<in> accounted c"

abbreviation with_named :: "string set \<Rightarrow> uid_count \<Rightarrow> uid_count" where
  "with_named A c \<equiv> c\<lparr>named := A\<rparr>"

lemma take_settled: "0 \<le> unnamed c \<Longrightarrow> count_settled c u \<Longrightarrow> take_unnamed u c = (c, False)"
  by (auto simp: take_unnamed_def count_settled_def)

lemma take_settles: "count_ok c \<Longrightarrow> count_settled (fst (take_unnamed u c)) u"
  using count_ok_unnamed [of c]
  by (auto simp: take_unnamed_def count_settled_def count_ok_def Let_def)

lemma take_keeps_settled: "count_ok c \<Longrightarrow> count_settled c v \<Longrightarrow> count_settled (fst (take_unnamed u c)) v"
  by (auto simp: take_unnamed_def count_settled_def count_ok_def Let_def)

lemma add_eq: "add u c = (if u = [] \<or> u \<in> named c then (c, False, False)
    else (with_named (insert u (named c)) (fst (take_unnamed u c)), True, snd (take_unnamed u c)))"
  by (auto simp: add_def take_unnamed_def Let_def)

lemma leaves_eq: "leaves c u = (if u = [] then c else if u \<in> named c then with_named (named c - {u}) c
    else fst (take_unnamed u c))"
  by (auto simp: leaves_def remove_def take_unnamed_def)

lemma settled_with_named [simp]: "count_settled (with_named A c) v = count_settled c v"
  by (simp add: count_settled_def)

lemma settled_empty: "count_settled c []"
  by (simp add: count_settled_def)

lemma named_settled: "count_ok c \<Longrightarrow> u \<in> named c \<Longrightarrow> count_settled c u"
  by (auto simp: count_settled_def count_ok_def)

interpretation uidc: replayable_count count_ok named with_named count_settled count_perform
proof unfold_locales
  fix c x u
  assume ok: "count_ok c"
  show "count_ok (count_perform x c)" using ok by (cases x) auto
  show "named (count_perform x c) = member_op x (named c)" by (cases x) (auto simp: named_ops)
  show "count_settled (count_perform x c) u" if "count_settled c u"
    using ok that by (cases x) (auto simp: add_eq leaves_eq remove_def take_keeps_settled)
  show "count_settled (count_perform x c) (op_uid x)" if "settles x"
    using ok that by (cases x) (auto simp: add_eq leaves_eq take_settles named_settled settled_empty)
  show "count_perform x c = with_named (member_op x (named c)) c"
    if "count_settled c (op_uid x) \<or> \<not> settles x"
    using ok that
    by (cases x) (auto simp: add_eq leaves_eq remove_def take_settled count_ok_def insert_absorb)
next
  fix c :: uid_count and A B
  show "with_named (named c) c = c" by simp
  show "with_named A (with_named B c) = with_named A c" by simp
qed

text \<open>What remembering the accounted uids costs: at most as many as the last total it was given.\<close>

definition baseline :: "uid_count \<Rightarrow> int" where
  "baseline c = int (card (accounted c)) + unnamed c"

lemma baseline_perform: "count_ok c \<Longrightarrow> baseline (count_perform x c) \<le> baseline c"
  using count_ok_unnamed [of c]
  by (cases x)
    (auto simp: baseline_def add_eq leaves_eq remove_def take_unnamed_def count_ok_def Let_def)

lemma total_exact [int_width]:
  assumes "count_ok c" and "int (card (named c)) + unnamed c < 2 ^ 31"
  shows "total c = int (card (named c)) + unnamed c"
proof -
  have "i32 (int (card (named c))) = int (card (named c))"
    using assms by (intro i32_id) (auto simp: count_ok_def)
  with assms show ?thesis by (auto simp: total_def count_ok_def intro: i32_id)
qed

lemma rebaseline_total:
  assumes "count_ok c" and "int (card (named c)) < 2 ^ 31" and "0 \<le> tot" and "tot < 2 ^ 31"
  shows "total (rebaseline tot c) = max tot (int (card (named c)))"
proof -
  let ?n = "int (card (named c))"
  have n: "i32 ?n = ?n" using assms by (intro i32_id) auto
  have d: "i32 (tot - ?n) = tot - ?n" using assms by (intro i32_id) auto
  have "total (rebaseline tot c) = int (card (named (rebaseline tot c))) + unnamed (rebaseline tot c)"
    using assms rebaseline_ok [OF assms(1), of tot] by (intro total_exact) (auto simp: rebaseline_def n d)
  then show ?thesis by (auto simp: rebaseline_def n d)
qed

end
