(* ===== verification/Tracker.thy ===== *)
theory Tracker
  imports Pool_Types Uid_Count
begin

text \<open>
  \<open>PoolTracker\<close> of \<open>internal/poolmgr/tracker.go\<close>: the counts of every tracked Pool, the
  events and polls folded into them, the poll a Pool owes, and the channels callers wait
  on. Every critical section under \<open>t.mu\<close> is one function; the two loops run over
  scripts of what their environment does, with the other goroutines' sections in between.
\<close>

section \<open>One tracked Pool\<close>

record tracked_pool =
  available :: uid_count
  leased :: uid_count
  provisioning :: uid_count
  quarantined :: uid_count
  psize :: int
  declared :: bool
  exhausted :: bool
  needsPoll :: bool
  unsettled :: bool
  generation :: "64 word"
  waiters :: nat
  waiting :: int

definition availableCount :: "tracked_pool \<Rightarrow> int" where
  "availableCount p = (if \<not> declared p \<or> exhausted p then 0 else total (available p))"

definition pool_status_of :: "tracked_pool \<Rightarrow> pool_status" where
  "pool_status_of p = \<lparr>st_available = availableCount p, st_leased = total (leased p),
     st_provisioning = total (provisioning p), st_quarantined = total (quarantined p)\<rparr>"

definition pool_rebaseline :: "pool_status \<Rightarrow> tracked_pool \<Rightarrow> tracked_pool" where
  "pool_rebaseline st p = p\<lparr>
     available := rebaseline (st_available st) (available p),
     leased := rebaseline (st_leased st) (leased p),
     provisioning := rebaseline (st_provisioning st) (provisioning p),
     quarantined := rebaseline (st_quarantined st) (quarantined p)\<rparr>"

text \<open>\<open>closeWaiters\<close> closes the Pool's channel and arms the fresh one it is given.\<close>

definition closeWaiters :: "nat \<Rightarrow> tracked_pool \<Rightarrow> tracked_pool" where
  "closeWaiters fresh p = p\<lparr>waiters := fresh, waiting := 0\<rparr>"

definition new_pool :: "nat \<Rightarrow> tracked_pool" where
  "new_pool fresh = \<lparr>available = newUIDCount, leased = newUIDCount, provisioning = newUIDCount,
     quarantined = newUIDCount, psize = 0, declared = False, exhausted = False, needsPoll = False,
     unsettled = False, generation = 0, waiters = fresh, waiting = 0\<rparr>"

subsection \<open>Payloads\<close>

record below_target =
  bt_target :: int
  bt_available :: int
  bt_leased :: int
  bt_provisioning :: int
  bt_quarantined :: int

definition no_counts :: below_target where
  "no_counts = \<lparr>bt_target = 0, bt_available = 0, bt_leased = 0, bt_provisioning = 0, bt_quarantined = 0\<rparr>"

definition belowTargetCounts :: "event \<Rightarrow> below_target option" where
  "belowTargetCounts e = (case ev_payload e of
     EmptyPayload \<Rightarrow> None
   | InvalidPayload \<Rightarrow> None
   | Document JNull \<Rightarrow> Some no_counts
   | Document (JObject kvs) \<Rightarrow>
       (case (decode_field int32_field ''target'' kvs 0, decode_field int32_field ''available'' kvs 0,
              decode_field int32_field ''leased'' kvs 0, decode_field int32_field ''provisioning'' kvs 0,
              decode_field int32_field ''quarantined'' kvs 0) of
          (Some t, Some a, Some l, Some p, Some q) \<Rightarrow>
            Some \<lparr>bt_target = t, bt_available = a, bt_leased = l, bt_provisioning = p, bt_quarantined = q\<rparr>
        | _ \<Rightarrow> None)
   | Document _ \<Rightarrow> None)"

record hook_failure_body =
  hf_hook :: string
  hf_error :: string
  hf_policy :: string

definition no_hook_failure :: hook_failure_body where
  "no_hook_failure = \<lparr>hf_hook = [], hf_error = [], hf_policy = []\<rparr>"

definition hookFailurePayload :: "event \<Rightarrow> hook_failure_body" where
  "hookFailurePayload e = (case ev_payload e of
     Document (JObject kvs) \<Rightarrow>
       (case (decode_field string_field ''hook'' kvs [], decode_field string_field ''error'' kvs [],
              decode_field string_field ''policy'' kvs []) of
          (Some h, Some x, Some p) \<Rightarrow> \<lparr>hf_hook = h, hf_error = x, hf_policy = p\<rparr>
        | _ \<Rightarrow> no_hook_failure)
   | _ \<Rightarrow> no_hook_failure)"

definition hookFailureQuarantined :: "event \<Rightarrow> bool" where
  "hookFailureQuarantined e \<longleftrightarrow> hf_policy (hookFailurePayload e) = ''QUARANTINE''"

subsection \<open>Folding one event\<close>

text \<open>
  The switch of \<open>apply\<close> on the event type, with whether it woke the Pool's waiters: only a
  MicroVM that becomes available and was not named does.
\<close>

definition apply_switch :: "nat \<Rightarrow> event \<Rightarrow> tracked_pool \<Rightarrow> tracked_pool \<times> bool" where
  "apply_switch fresh e p = (let u = ev_vm e in case ev_type e of
     VM_PROVISIONED \<Rightarrow>
       (p\<lparr>exhausted := False, provisioning := fst (add u (provisioning p))\<rparr>, False)
   | VM_AVAILABLE \<Rightarrow>
       (let p1 = p\<lparr>exhausted := False, provisioning := leaves (provisioning p) u\<rparr>;
            (av, added, tookUnnamed) = add u (available p1);
            p2 = p1\<lparr>available := av\<rparr>;
            p3 = (if added then closeWaiters fresh p2 else p2);
            p4 = (if tookUnnamed then p3\<lparr>unsettled := True\<rparr> else p3)
        in (p4, added))
   | VM_CLAIMED \<Rightarrow>
       (p\<lparr>available := leaves (available p) u, leased := fst (add u (leased p))\<rparr>, False)
   | VM_RELEASED \<Rightarrow>
       (p\<lparr>exhausted := False, available := fst (remove u (available p)), leased := leaves (leased p) u\<rparr>, False)
   | VM_DELETED_DUE_TO_EXPIRY \<Rightarrow>
       (p\<lparr>exhausted := False, available := fst (remove u (available p)), leased := leaves (leased p) u\<rparr>, False)
   | VM_DELETED_ON_RELEASE \<Rightarrow>
       (p\<lparr>exhausted := False, available := fst (remove u (available p)), leased := fst (remove u (leased p))\<rparr>, False)
   | VM_HOOK_FAILED \<Rightarrow>
       (let p1 = p\<lparr>available := fst (remove u (available p)), provisioning := leaves (provisioning p) u\<rparr>
        in (if hookFailureQuarantined e then p1\<lparr>quarantined := fst (add u (quarantined p1))\<rparr> else p1, False))
   | POOL_SIZE_BELOW_TARGET \<Rightarrow>
       (case belowTargetCounts e of
          None \<Rightarrow> (p, False)
        | Some c \<Rightarrow>
            ((pool_rebaseline \<lparr>st_available = bt_available c, st_leased = bt_leased c,
                st_provisioning = bt_provisioning c, st_quarantined = bt_quarantined c\<rparr>
              (p\<lparr>exhausted := False, psize := bt_target c\<rparr>))\<lparr>needsPoll := False, unsettled := False\<rparr>, False))
   | EVENT_TYPE_UNSPECIFIED \<Rightarrow> (p, False))"

text \<open>The rest of the critical section: the generation, and the polls an event leaves owed.\<close>

definition apply_pool :: "nat \<Rightarrow> event \<Rightarrow> tracked_pool \<Rightarrow> tracked_pool \<times> bool" where
  "apply_pool fresh e p =
     (let p0 = p\<lparr>generation := generation p + 1\<rparr>;
          before = availableCount p0;
          (p1, woken) = apply_switch fresh e p0;
          p2 = (if before > 0 \<and> availableCount p1 = 0 then p1\<lparr>needsPoll := True\<rparr> else p1);
          p3 = (if unsettled p2 \<and> (psize p2 \<le> 0 \<or> availableCount p2 < psize p2)
                then p2\<lparr>needsPoll := True\<rparr> else p2)
      in (p3, woken))"

section \<open>The Tracker\<close>

text \<open>
  \<open>kick\<close> is whether the one-slot channel holds a request. Channels are numbered in the
  order \<open>make\<close> creates them, and \<open>closed\<close> lists the closed ones: closing one twice
  would panic.
\<close>

record tracker =
  pools :: "(pool_ref, tracked_pool) gomap"
  streamUp :: bool
  kick :: bool
  next_chan :: nat
  closed :: "nat list"

definition NewTracker :: tracker where
  "NewTracker = \<lparr>pools = [], streamUp = False, kick = False, next_chan = 0, closed = []\<rparr>"

definition requestPoll :: "tracker \<Rightarrow> tracker" where
  "requestPoll t = t\<lparr>kick := True\<rparr>"

text \<open>\<open>poolLocked\<close> creates the Pool when it is named for the first time.\<close>

definition poolLocked :: "pool_ref \<Rightarrow> tracker \<Rightarrow> tracked_pool \<times> tracker" where
  "poolLocked ref t = (case mget (pools t) ref of
     Some p \<Rightarrow> (p, t)
   | None \<Rightarrow> let p = new_pool (next_chan t)
             in (p, t\<lparr>pools := mput ref p (pools t), next_chan := Suc (next_chan t)\<rparr>))"

definition put_pool :: "pool_ref \<Rightarrow> tracked_pool \<Rightarrow> tracker \<Rightarrow> tracker" where
  "put_pool ref p t = t\<lparr>pools := mput ref p (pools t)\<rparr>"

text \<open>Stores a Pool whose channel \<open>c\<close> was closed and replaced by the next fresh one.\<close>

definition put_woken :: "pool_ref \<Rightarrow> tracked_pool \<Rightarrow> nat \<Rightarrow> tracker \<Rightarrow> tracker" where
  "put_woken ref p c t = t\<lparr>pools := mput ref p (pools t), next_chan := Suc (next_chan t), closed := c # closed t\<rparr>"

definition setStreamUp :: "bool \<Rightarrow> tracker \<Rightarrow> tracker" where
  "setStreamUp up t = t\<lparr>streamUp := up\<rparr>"

definition streamIsUp :: "tracker \<Rightarrow> bool" where
  "streamIsUp t = streamUp t"

definition pollOwed :: "tracker \<Rightarrow> bool" where
  "pollOwed t \<longleftrightarrow> list_ex (\<lambda>(_, p). needsPoll p) (pools t)"

definition refs :: "tracker \<Rightarrow> pool_ref list" where
  "refs t = sort_key PoolRef_String (mkeys (pools t))"

definition Track :: "pool_ref \<Rightarrow> bool \<Rightarrow> tracker \<Rightarrow> tracker" where
  "Track ref decl t =
     (let known = mhas (pools t) ref;
          (p, t1) = poolLocked ref t;
          t2 = put_pool ref (p\<lparr>declared := decl\<rparr>) t1
      in if \<not> known \<or> decl then requestPoll t2 else t2)"

definition setDeclared :: "pool_ref \<Rightarrow> bool \<Rightarrow> tracker \<Rightarrow> tracker" where
  "setDeclared ref decl t =
     (let (p, t1) = poolLocked ref t;
          p1 = p\<lparr>declared := decl\<rparr>;
          p2 = (if \<not> decl then p1\<lparr>needsPoll := False, unsettled := False\<rparr> else p1)
      in put_pool ref p2 t1)"

definition Untrack :: "pool_ref \<Rightarrow> tracker \<Rightarrow> tracker" where
  "Untrack ref t = (case mget (pools t) ref of
     Some p \<Rightarrow> t\<lparr>pools := mdel ref (pools t), next_chan := Suc (next_chan t), closed := waiters p # closed t\<rparr>
   | None \<Rightarrow> t)"

text \<open>\<open>health\<close> is what the optional Health dependency answers.\<close>

definition unhealthy :: "bool option \<Rightarrow> bool" where
  "unhealthy health \<longleftrightarrow> health = Some False"

definition Available :: "bool option \<Rightarrow> pool_ref \<Rightarrow> tracker \<Rightarrow> int" where
  "Available health ref t =
     (if unhealthy health then 0
      else case mget (pools t) ref of None \<Rightarrow> 0 | Some p \<Rightarrow> availableCount p)"

definition MarkExhausted :: "pool_ref \<Rightarrow> tracker \<Rightarrow> tracker" where
  "MarkExhausted ref t =
     (let (p, t1) = poolLocked ref t
      in put_pool ref (p\<lparr>exhausted := True, available := reset (available p)\<rparr>) t1)"

definition Wait :: "pool_ref \<Rightarrow> tracker \<Rightarrow> nat \<times> tracker" where
  "Wait ref t =
     (let (p, t1) = poolLocked ref t
      in (waiters p, put_pool ref (p\<lparr>waiting := waiting p + 1\<rparr>) t1))"

record pool_availability =
  pa_pool :: pool_ref
  pa_status :: pool_status
  pa_declared :: bool
  pa_waiting :: int

definition Pools :: "bool option \<Rightarrow> tracker \<Rightarrow> pool_availability list" where
  "Pools health t = sort_key (\<lambda>a. PoolRef_String (pa_pool a)) (map (\<lambda>(ref, p).
     \<lparr>pa_pool = ref,
      pa_status = (if unhealthy health then (pool_status_of p)\<lparr>st_available := 0\<rparr> else pool_status_of p),
      pa_declared = declared p, pa_waiting = waiting p\<rparr>) (pools t))"

definition pool_generation :: "pool_ref \<Rightarrow> tracker \<Rightarrow> 64 word" where
  "pool_generation ref t = (case mget (pools t) ref of Some p \<Rightarrow> generation p | None \<Rightarrow> 0)"

definition applyPoll :: "pool_ref \<Rightarrow> 64 word \<Rightarrow> int \<Rightarrow> pool_status \<Rightarrow> tracker \<Rightarrow> tracker" where
  "applyPoll ref asked sz st t = (case mget (pools t) ref of
     None \<Rightarrow> t
   | Some p \<Rightarrow>
       if generation p \<noteq> asked then requestPoll (put_pool ref (p\<lparr>needsPoll := True\<rparr>) t)
       else let p1 = (pool_rebaseline st p)\<lparr>psize := sz, exhausted := False, needsPoll := False, unsettled := False\<rparr>
            in if availableCount p1 > 0 then put_woken ref (closeWaiters (next_chan t) p1) (waiters p1) t
               else put_pool ref p1 t)"

definition apply_event :: "event \<Rightarrow> tracker \<Rightarrow> tracker" where
  "apply_event e t = (case mget (pools t) (ev_pool e) of
     None \<Rightarrow> t
   | Some p \<Rightarrow>
       let (p1, woken) = apply_pool (next_chan t) e p;
           t1 = (if woken then put_woken (ev_pool e) p1 (waiters p) t else put_pool (ev_pool e) p1 t)
       in if needsPoll p1 then requestPoll t1 else t1)"

section \<open>The loops\<close>

text \<open>
  What the goroutines of a Runner do to the Tracker, one critical section each. The
  interleavings of the loops and of the Tracker's callers are the sequences of these.
\<close>

datatype tracker_op =
    OpApply event
  | OpTrack pool_ref bool
  | OpSetDeclared pool_ref bool
  | OpUntrack pool_ref
  | OpMarkExhausted pool_ref
  | OpWait pool_ref
  | OpApplyPoll pool_ref "64 word" int pool_status
  | OpTakeKick
  | OpSetStreamUp bool

fun tracker_perform :: "tracker_op \<Rightarrow> tracker \<Rightarrow> tracker" where
  "tracker_perform (OpApply e) t = apply_event e t"
| "tracker_perform (OpTrack r d) t = Track r d t"
| "tracker_perform (OpSetDeclared r d) t = setDeclared r d t"
| "tracker_perform (OpUntrack r) t = Untrack r t"
| "tracker_perform (OpMarkExhausted r) t = MarkExhausted r t"
| "tracker_perform (OpWait r) t = snd (Wait r t)"
| "tracker_perform (OpApplyPoll r g sz st) t = applyPoll r g sz st t"
| "tracker_perform OpTakeKick t = t\<lparr>kick := False\<rparr>"
| "tracker_perform (OpSetStreamUp b) t = setStreamUp b t"

text \<open>
  One turn of the loop in \<open>pollAll\<close>: whether the context has ended, what other goroutines
  do before the generation is read and while the question is out, and the answer.
\<close>

record poll_turn =
  turn_before :: "tracker_op list"
  turn_cancelled :: bool
  turn_during :: "tracker_op list"
  turn_answer :: "pm_error + int \<times> pool_status"

definition poll_one :: "poll_turn \<Rightarrow> pool_ref \<Rightarrow> tracker \<Rightarrow> tracker" where
  "poll_one turn ref t =
     (let asked = pool_generation ref t;
          t1 = fold tracker_perform (turn_during turn) t
      in case turn_answer turn of
           Inr (sz, st) \<Rightarrow> applyPoll ref asked sz st t1
         | Inl err \<Rightarrow> if err = ErrNotFound then setDeclared ref False t1 else t1)"

fun poll_refs :: "(pool_ref \<Rightarrow> poll_turn) \<Rightarrow> pool_ref list \<Rightarrow> tracker \<Rightarrow> tracker" where
  "poll_refs turn [] t = t"
| "poll_refs turn (r # rs) t =
     (let t1 = fold tracker_perform (turn_before (turn r)) t
      in if turn_cancelled (turn r) then t1 else poll_refs turn rs (poll_one (turn r) r t1))"

definition pollAll :: "(pool_ref \<Rightarrow> poll_turn) \<Rightarrow> tracker \<Rightarrow> tracker" where
  "pollAll turn t = poll_refs turn (refs t) t"

text \<open>
  What the \<open>select\<close> of \<open>pollLoop\<close> receives. A kick is only received when one is in the
  slot.
\<close>

datatype loop_event =
    LoopDone
  | LoopKick "pool_ref \<Rightarrow> poll_turn"
  | LoopTick "pool_ref \<Rightarrow> poll_turn"
  | LoopOther tracker_op

fun pollLoop :: "loop_event list \<Rightarrow> tracker \<Rightarrow> tracker" where
  "pollLoop [] t = t"
| "pollLoop (LoopDone # evs) t = t"
| "pollLoop (LoopKick turn # evs) t =
     (if kick t then pollLoop evs (pollAll turn (t\<lparr>kick := False\<rparr>)) else pollLoop evs t)"
| "pollLoop (LoopTick turn # evs) t =
     (if streamIsUp t \<and> \<not> pollOwed t then pollLoop evs t else pollLoop evs (pollAll turn t))"
| "pollLoop (LoopOther op # evs) t = pollLoop evs (tracker_perform op t)"

text \<open>
  One round of \<open>subscribeLoop\<close>: a refused subscription, or a stream with what each
  \<open>Recv\<close> returns until it fails; whether the context ended; whether the sleep ran out.
\<close>

datatype subscription =
    Refused bool bool
  | Granted "(tracker_op list \<times> event) list" bool bool

fun readStream :: "(tracker_op list \<times> event) list \<Rightarrow> tracker \<Rightarrow> tracker" where
  "readStream [] t = t"
| "readStream ((others, e) # evs) t = readStream evs (apply_event e (fold tracker_perform others t))"

fun subscribeLoop :: "subscription list \<Rightarrow> tracker \<Rightarrow> tracker" where
  "subscribeLoop [] t = t"
| "subscribeLoop (Refused cancelled slept # subs) t =
     (if cancelled then t
      else let t1 = setStreamUp False t in if slept then subscribeLoop subs t1 else t1)"
| "subscribeLoop (Granted evs cancelled slept # subs) t =
     (let t1 = setStreamUp False (readStream evs (setStreamUp True t))
      in if cancelled \<or> \<not> slept then t1 else subscribeLoop subs t1)"

end
