(* ===== verification/Tracker_Props.thy ===== *)
theory Tracker_Props
  imports Tracker
begin

text \<open>
  What holds of the Tracker: its invariant under every interleaving, the channels its
  callers wait on, replayed events, the poll a Pool owes, and how its available count
  relates to the MicroVMs the Pool Manager really has.
\<close>

section \<open>The invariant\<close>

definition pool_ok :: "tracked_pool \<Rightarrow> bool" where
  "pool_ok p \<longleftrightarrow> count_ok (available p) \<and> count_ok (leased p) \<and> count_ok (provisioning p)
     \<and> count_ok (quarantined p) \<and> 0 \<le> waiting p"

definition tracker_ok :: "tracker \<Rightarrow> bool" where
  "tracker_ok t \<longleftrightarrow> gomap_ok (pools t)
     \<and> (\<forall>r p. mget (pools t) r = Some p \<longrightarrow> pool_ok p \<and> waiters p < next_chan t \<and> waiters p \<notin> set (closed t))
     \<and> (\<forall>r r' p p'. mget (pools t) r = Some p \<longrightarrow> mget (pools t) r' = Some p' \<longrightarrow> waiters p = waiters p' \<longrightarrow> r = r')
     \<and> distinct (closed t) \<and> (\<forall>c \<in> set (closed t). c < next_chan t)"

lemma new_pool_ok [simp]: "pool_ok (new_pool c)"
  by (simp add: pool_ok_def new_pool_def)

lemma tracker_ok_pool: "tracker_ok t \<Longrightarrow> mget (pools t) r = Some p \<Longrightarrow> pool_ok p"
  by (auto simp: tracker_ok_def)

lemma closeWaiters_simps [simp]:
  "waiters (closeWaiters c p) = c" "waiting (closeWaiters c p) = 0"
  "available (closeWaiters c p) = available p" "leased (closeWaiters c p) = leased p"
  "provisioning (closeWaiters c p) = provisioning p" "quarantined (closeWaiters c p) = quarantined p"
  "psize (closeWaiters c p) = psize p" "declared (closeWaiters c p) = declared p"
  "exhausted (closeWaiters c p) = exhausted p" "needsPoll (closeWaiters c p) = needsPoll p"
  "unsettled (closeWaiters c p) = unsettled p" "generation (closeWaiters c p) = generation p"
  by (simp_all add: closeWaiters_def)

lemma pool_rebaseline_ok [simp]: "pool_ok p \<Longrightarrow> pool_ok (pool_rebaseline st p)"
  by (simp add: pool_ok_def pool_rebaseline_def)

lemma pool_rebaseline_simps [simp]:
  "waiters (pool_rebaseline st p) = waiters p" "waiting (pool_rebaseline st p) = waiting p"
  "psize (pool_rebaseline st p) = psize p" "declared (pool_rebaseline st p) = declared p"
  "exhausted (pool_rebaseline st p) = exhausted p" "needsPoll (pool_rebaseline st p) = needsPoll p"
  "unsettled (pool_rebaseline st p) = unsettled p" "generation (pool_rebaseline st p) = generation p"
  "available (pool_rebaseline st p) = rebaseline (st_available st) (available p)"
  "leased (pool_rebaseline st p) = rebaseline (st_leased st) (leased p)"
  by (simp_all add: pool_rebaseline_def)

lemma tracker_ok_put_pool:
  assumes "tracker_ok t" "mget (pools t) ref = Some p0" "pool_ok p" "waiters p = waiters p0"
  shows "tracker_ok (put_pool ref p t)"
  using assms unfolding tracker_ok_def put_pool_def by (auto split: if_splits)

lemma tracker_ok_chan:
  assumes "tracker_ok t" "mget (pools t) r = Some p"
  shows "waiters p < next_chan t" "waiters p \<noteq> next_chan t" "next_chan t \<noteq> waiters p" "waiters p \<notin> set (closed t)"
  using assms by (force simp: tracker_ok_def)+

lemma tracker_ok_fresh:
  assumes "tracker_ok t" shows "next_chan t \<notin> set (closed t)"
  using assms by (auto simp: tracker_ok_def)

lemma tracker_ok_put_woken:
  assumes ok: "tracker_ok t" and p0: "mget (pools t) ref = Some p0" and "pool_ok p" "waiters p = next_chan t"
  shows "tracker_ok (put_woken ref p (waiters p0) t)"
proof -
  have "r = ref" if "mget (pools t) r = Some q" "waiters q = waiters p0" for r q
    using ok p0 that by (auto simp: tracker_ok_def)
  then show ?thesis
    using assms tracker_ok_chan [OF ok] tracker_ok_chan [OF ok p0] tracker_ok_fresh [OF ok]
    unfolding put_woken_def
    by (subst tracker_ok_def) (auto simp: less_Suc_eq tracker_ok_def)
qed

lemma tracker_ok_new:
  assumes ok: "tracker_ok t" and "mget (pools t) ref = None"
  shows "tracker_ok (t\<lparr>pools := mput ref (new_pool (next_chan t)) (pools t), next_chan := Suc (next_chan t)\<rparr>)"
proof -
  have "waiters (new_pool (next_chan t)) = next_chan t" by (simp add: new_pool_def)
  then show ?thesis
    using assms tracker_ok_chan [OF ok] tracker_ok_fresh [OF ok]
    by (subst tracker_ok_def) (auto simp: less_Suc_eq tracker_ok_def)
qed

lemma poolLocked_ok:
  assumes "tracker_ok t" "poolLocked ref t = (p, t1)"
  shows "tracker_ok t1" "mget (pools t1) ref = Some p" "pool_ok p"
  using assms tracker_ok_new [of t ref]
  by (auto simp: poolLocked_def Let_def tracker_ok_pool split: option.splits)

lemma tracker_ok_request [simp]: "tracker_ok (requestPoll t) = tracker_ok t"
  by (simp add: requestPoll_def tracker_ok_def)

lemma tracker_ok_flags [simp]:
  "tracker_ok (t\<lparr>kick := b\<rparr>) = tracker_ok t" "tracker_ok (setStreamUp b t) = tracker_ok t"
  by (simp_all add: setStreamUp_def tracker_ok_def)

subsection \<open>Every operation preserves it\<close>

lemma Track_ok: "tracker_ok t \<Longrightarrow> tracker_ok (Track r d t)"
  using poolLocked_ok [of t r]
  by (auto simp: Track_def Let_def pool_ok_def intro!: tracker_ok_put_pool split: prod.split)

lemma setDeclared_ok: "tracker_ok t \<Longrightarrow> tracker_ok (setDeclared r d t)"
  using poolLocked_ok [of t r]
  by (auto simp: setDeclared_def Let_def pool_ok_def intro!: tracker_ok_put_pool split: prod.split)

lemma Untrack_ok: "tracker_ok t \<Longrightarrow> tracker_ok (Untrack r t)"
  unfolding Untrack_def tracker_ok_def by (auto simp: less_Suc_eq split: option.splits if_splits)

lemma MarkExhausted_ok: "tracker_ok t \<Longrightarrow> tracker_ok (MarkExhausted r t)"
  using poolLocked_ok [of t r]
  by (auto simp: MarkExhausted_def Let_def pool_ok_def intro!: tracker_ok_put_pool split: prod.split)

lemma Wait_ok: "tracker_ok t \<Longrightarrow> tracker_ok (snd (Wait r t))"
  using poolLocked_ok [of t r]
  by (auto simp: Wait_def Let_def pool_ok_def intro!: tracker_ok_put_pool split: prod.split)

lemma applyPoll_ok: "tracker_ok t \<Longrightarrow> tracker_ok (applyPoll r g sz st t)"
proof (cases "mget (pools t) r")
  case (Some p)
  assume ok: "tracker_ok t"
  have "pool_ok p" using ok Some by (rule tracker_ok_pool)
  then have q: "pool_ok ((pool_rebaseline st p)\<lparr>psize := sz, exhausted := False, needsPoll := False, unsettled := False\<rparr>)"
    using pool_rebaseline_ok [of p st] by (simp add: pool_ok_def)
  then have "pool_ok (closeWaiters c ((pool_rebaseline st p)\<lparr>psize := sz, exhausted := False, needsPoll := False, unsettled := False\<rparr>))" for c
    by (simp add: pool_ok_def)
  moreover have "pool_ok (p\<lparr>needsPoll := True\<rparr>)" using \<open>pool_ok p\<close> by (simp add: pool_ok_def)
  ultimately show ?thesis
    using ok Some q tracker_ok_put_woken [OF ok Some]
    by (auto simp: applyPoll_def Let_def intro: tracker_ok_put_pool)
qed (simp add: applyPoll_def)

subsection \<open>What an event does, component by component\<close>

text \<open>
  Every event but a \<open>POOL_SIZE_BELOW_TARGET\<close> that carries counts acts on each count by
  operations on the uid it names.
\<close>

definition vm_event :: "event \<Rightarrow> bool" where
  "vm_event e \<longleftrightarrow> ev_type e = POOL_SIZE_BELOW_TARGET \<longrightarrow> belowTargetCounts e = None"

definition available_ops :: "event \<Rightarrow> count_op list" where
  "available_ops e = (case ev_type e of
     VM_AVAILABLE \<Rightarrow> [Enter (ev_vm e)]
   | VM_CLAIMED \<Rightarrow> [Leave (ev_vm e)]
   | VM_RELEASED \<Rightarrow> [Drop (ev_vm e)]
   | VM_DELETED_DUE_TO_EXPIRY \<Rightarrow> [Drop (ev_vm e)]
   | VM_DELETED_ON_RELEASE \<Rightarrow> [Drop (ev_vm e)]
   | VM_HOOK_FAILED \<Rightarrow> [Drop (ev_vm e)]
   | _ \<Rightarrow> [])"

definition leased_ops :: "event \<Rightarrow> count_op list" where
  "leased_ops e = (case ev_type e of
     VM_CLAIMED \<Rightarrow> [Enter (ev_vm e)]
   | VM_RELEASED \<Rightarrow> [Leave (ev_vm e)]
   | VM_DELETED_DUE_TO_EXPIRY \<Rightarrow> [Leave (ev_vm e)]
   | VM_DELETED_ON_RELEASE \<Rightarrow> [Drop (ev_vm e)]
   | _ \<Rightarrow> [])"

definition provisioning_ops :: "event \<Rightarrow> count_op list" where
  "provisioning_ops e = (case ev_type e of
     VM_PROVISIONED \<Rightarrow> [Enter (ev_vm e)]
   | VM_AVAILABLE \<Rightarrow> [Leave (ev_vm e)]
   | VM_HOOK_FAILED \<Rightarrow> [Leave (ev_vm e)]
   | _ \<Rightarrow> [])"

definition quarantined_ops :: "event \<Rightarrow> count_op list" where
  "quarantined_ops e =
     (if ev_type e = VM_HOOK_FAILED \<and> hookFailureQuarantined e then [Enter (ev_vm e)] else [])"

definition clears_exhausted :: "event \<Rightarrow> bool" where
  "clears_exhausted e \<longleftrightarrow> ev_type e \<in> {VM_PROVISIONED, VM_AVAILABLE, VM_RELEASED,
     VM_DELETED_DUE_TO_EXPIRY, VM_DELETED_ON_RELEASE}"

definition wakes :: "event \<Rightarrow> tracked_pool \<Rightarrow> bool" where
  "wakes e p \<longleftrightarrow> ev_type e = VM_AVAILABLE \<and> ev_vm e \<noteq> [] \<and> ev_vm e \<notin> named (available p)"

lemma add_flags:
  "fst (snd (add u c)) = (u \<noteq> [] \<and> u \<notin> named c)"
  "snd (snd (add u c)) = (u \<noteq> [] \<and> u \<notin> named c \<and> snd (take_unnamed u c))"
  by (auto simp: add_eq)

abbreviation bumped :: "tracked_pool \<Rightarrow> tracked_pool" where
  "bumped p \<equiv> p\<lparr>generation := generation p + 1\<rparr>"

definition owes :: "int \<Rightarrow> tracked_pool \<Rightarrow> bool" where
  "owes before p \<longleftrightarrow> needsPoll p \<or> before > 0 \<and> availableCount p = 0
     \<or> unsettled p \<and> (psize p \<le> 0 \<or> availableCount p < psize p)"

lemma availableCount_cong [simp]:
  "availableCount (p\<lparr>needsPoll := b\<rparr>) = availableCount p"
  "availableCount (p\<lparr>generation := g\<rparr>) = availableCount p"
  "availableCount (p\<lparr>unsettled := b\<rparr>) = availableCount p"
  "availableCount (p\<lparr>psize := n\<rparr>) = availableCount p"
  "availableCount (p\<lparr>waiting := w\<rparr>) = availableCount p"
  "availableCount (closeWaiters c p) = availableCount p"
  by (simp_all add: availableCount_def)

lemma apply_pool_eq:
  "apply_pool f e p = (let q = fst (apply_switch f e (bumped p))
     in (q\<lparr>needsPoll := owes (availableCount p) q\<rparr>, snd (apply_switch f e (bumped p))))"
  by (auto simp: apply_pool_def owes_def Let_def split: prod.split)

lemma apply_switch_frame:
  "declared (fst (apply_switch f e p)) = declared p"
  "generation (fst (apply_switch f e p)) = generation p"
  "snd (apply_switch f e p) = wakes e p"
  "waiters (fst (apply_switch f e p)) = (if wakes e p then f else waiters p)"
  "waiting (fst (apply_switch f e p)) = (if wakes e p then 0 else waiting p)"
  by - (cases "ev_type e";
      simp add: apply_switch_def Let_def wakes_def add_eq pool_rebaseline_def split: option.split)+

lemma apply_pool_frame:
  "declared (fst (apply_pool f e p)) = declared p"
  "generation (fst (apply_pool f e p)) = generation p + 1"
  "snd (apply_pool f e p) = wakes e p"
  "waiters (fst (apply_pool f e p)) = (if wakes e p then f else waiters p)"
  "waiting (fst (apply_pool f e p)) = (if wakes e p then 0 else waiting p)"
  by (simp_all add: apply_pool_eq Let_def apply_switch_frame wakes_def)

lemma apply_switch_counts:
  assumes "vm_event e"
  shows "available (fst (apply_switch f e p)) = fold count_perform (available_ops e) (available p)"
    "leased (fst (apply_switch f e p)) = fold count_perform (leased_ops e) (leased p)"
    "provisioning (fst (apply_switch f e p)) = fold count_perform (provisioning_ops e) (provisioning p)"
    "quarantined (fst (apply_switch f e p)) = fold count_perform (quarantined_ops e) (quarantined p)"
    "psize (fst (apply_switch f e p)) = psize p"
    "exhausted (fst (apply_switch f e p)) = (exhausted p \<and> \<not> clears_exhausted e)"
    "needsPoll (fst (apply_switch f e p)) = needsPoll p"
  using assms
  by - (cases "ev_type e";
      simp add: apply_switch_def Let_def vm_event_def available_ops_def leased_ops_def provisioning_ops_def
        quarantined_ops_def clears_exhausted_def split: prod.split)+

lemma apply_pool_counts:
  assumes "vm_event e"
  shows "available (fst (apply_pool f e p)) = fold count_perform (available_ops e) (available p)"
    "leased (fst (apply_pool f e p)) = fold count_perform (leased_ops e) (leased p)"
    "provisioning (fst (apply_pool f e p)) = fold count_perform (provisioning_ops e) (provisioning p)"
    "quarantined (fst (apply_pool f e p)) = fold count_perform (quarantined_ops e) (quarantined p)"
    "psize (fst (apply_pool f e p)) = psize p"
    "exhausted (fst (apply_pool f e p)) = (exhausted p \<and> \<not> clears_exhausted e)"
  using apply_switch_counts [OF assms, of f "bumped p"] by (simp_all add: apply_pool_eq Let_def)

lemma apply_pool_ok: "pool_ok p \<Longrightarrow> pool_ok (fst (apply_pool f e p))"
proof (cases "vm_event e")
  case True
  assume "pool_ok p"
  with True show ?thesis
    by (simp add: pool_ok_def apply_pool_counts apply_pool_frame uidc.ok_performs)
next
  case False
  then obtain c where "ev_type e = POOL_SIZE_BELOW_TARGET" "belowTargetCounts e = Some c"
    by (auto simp: vm_event_def)
  moreover assume "pool_ok p"
  ultimately show ?thesis
    by (simp add: apply_pool_eq apply_switch_def Let_def pool_ok_def pool_rebaseline_def)
qed

lemma apply_event_ok: "tracker_ok t \<Longrightarrow> tracker_ok (apply_event e t)"
proof (cases "mget (pools t) (ev_pool e)")
  case (Some p)
  assume ok: "tracker_ok t"
  have p: "pool_ok (fst (apply_pool (next_chan t) e p))"
    using tracker_ok_pool [OF ok Some] by (rule apply_pool_ok)
  show ?thesis
    using ok Some p tracker_ok_put_woken [OF ok Some p] tracker_ok_put_pool [OF ok Some p]
    by (auto simp: apply_event_def Let_def apply_pool_frame split: prod.split)
       (metis apply_pool_frame fst_conv snd_conv)+
qed (simp add: apply_event_def)

lemma perform_ok: "tracker_ok t \<Longrightarrow> tracker_ok (tracker_perform op t)"
  by (cases op)
    (auto simp: apply_event_ok Track_ok setDeclared_ok Untrack_ok MarkExhausted_ok Wait_ok
      applyPoll_ok)

lemma performs_ok: "tracker_ok t \<Longrightarrow> tracker_ok (fold tracker_perform ops t)"
  by (induction ops arbitrary: t) (auto intro: perform_ok)

lemma NewTracker_ok [simp]: "tracker_ok NewTracker"
  by (simp add: tracker_ok_def NewTracker_def)

lemma poll_one_ok: "tracker_ok t \<Longrightarrow> tracker_ok (poll_one turn r t)"
  by (auto simp: poll_one_def Let_def intro!: applyPoll_ok setDeclared_ok performs_ok split: sum.splits)

lemma poll_refs_ok: "tracker_ok t \<Longrightarrow> tracker_ok (poll_refs turn rs t)"
  by (induction rs arbitrary: t) (auto simp: Let_def intro!: poll_one_ok performs_ok)

lemma pollLoop_ok: "tracker_ok t \<Longrightarrow> tracker_ok (pollLoop evs t)"
  by (induction evs t rule: pollLoop.induct)
    (simp_all add: pollAll_def poll_refs_ok perform_ok)

lemma readStream_ok: "tracker_ok t \<Longrightarrow> tracker_ok (readStream evs t)"
  by (induction evs t rule: readStream.induct) (auto intro: apply_event_ok performs_ok)

lemma subscribeLoop_ok: "tracker_ok t \<Longrightarrow> tracker_ok (subscribeLoop subs t)"
  by (induction subs t rule: subscribeLoop.induct) (auto simp: Let_def readStream_ok)

section \<open>Waiting for a MicroVM\<close>

text \<open>
  C35: no execution closes a Pool's channel twice, which would panic. Neither the poll loop
  nor the subscription loop does, with any events, polls and callers in between, in any
  order.
\<close>

theorem waiters_closed_once:
  "distinct (closed (subscribeLoop subs (pollLoop evs NewTracker)))"
  using subscribeLoop_ok [OF pollLoop_ok [OF NewTracker_ok]] by (simp add: tracker_ok_def)

text \<open>A channel is watched while it is closed or is the one its Pool will close next.\<close>

definition watched :: "pool_ref \<Rightarrow> nat \<Rightarrow> tracker \<Rightarrow> bool" where
  "watched ref c t \<longleftrightarrow> c \<in> set (closed t) \<or>
     (\<exists>p. mget (pools t) ref = Some p \<and> waiters p = c \<and> 0 < waiting p)"

lemma watched_put_pool:
  "watched ref c t \<Longrightarrow> mget (pools t) r = Some p0 \<Longrightarrow> waiters p = waiters p0 \<Longrightarrow> waiting p0 \<le> waiting p
     \<Longrightarrow> watched ref c (put_pool r p t)"
  by (auto simp: watched_def put_pool_def)

lemma watched_put_woken:
  "watched ref c t \<Longrightarrow> mget (pools t) r = Some p0 \<Longrightarrow> watched ref c (put_woken r p (waiters p0) t)"
  by (auto simp: watched_def put_woken_def)

lemma watched_flags [simp]:
  "watched ref c (requestPoll t) = watched ref c t" "watched ref c (setStreamUp b t) = watched ref c t"
  "watched ref c (t\<lparr>kick := b\<rparr>) = watched ref c t"
  by (simp_all add: watched_def requestPoll_def setStreamUp_def)

lemma poolLocked_watched:
  assumes "poolLocked r t = (p, t1)"
  shows "mget (pools t1) r = Some p" "watched ref c t \<Longrightarrow> watched ref c t1"
  using assms by (cases "ref = r"; auto simp: poolLocked_def Let_def watched_def split: option.splits)+

lemma watched_apply: "watched ref c t \<Longrightarrow> watched ref c (apply_event e t)"
proof (cases "mget (pools t) (ev_pool e)")
  case (Some p)
  obtain q woken where q: "apply_pool (next_chan t) e p = (q, woken)" by fastforce
  assume "watched ref c t"
  with Some q show ?thesis
    using apply_pool_frame [of "next_chan t" e p]
    by (auto simp: apply_event_def Let_def intro!: watched_put_woken watched_put_pool)
qed (simp add: apply_event_def)

lemma watched_applyPoll: "watched ref c t \<Longrightarrow> watched ref c (applyPoll r g sz st t)"
  using watched_put_woken [of ref c t r]
  by (auto simp: applyPoll_def Let_def intro!: watched_put_pool split: option.splits)

lemma watched_perform: "watched ref c t \<Longrightarrow> watched ref c (tracker_perform op t)"
proof (cases op)
  case (OpUntrack r)
  then show "watched ref c t \<Longrightarrow> ?thesis"
    by (auto simp: Untrack_def watched_def split: option.splits)
qed (auto simp: watched_apply watched_applyPoll Track_def setDeclared_def MarkExhausted_def Wait_def Let_def
    dest: poolLocked_watched intro!: watched_put_pool split: prod.splits)

lemma watched_performs: "watched ref c t \<Longrightarrow> watched ref c (fold tracker_perform ops t)"
  by (induction ops arbitrary: t) (auto intro: watched_perform)

lemma Wait_watched:
  assumes "tracker_ok t" "Wait ref t = (c, t1)"
  shows "watched ref c t1"
proof -
  obtain p t0 where p: "poolLocked ref t = (p, t0)" by fastforce
  then have "pool_ok p" using poolLocked_ok(3) [OF assms(1)] by blast
  with p assms(2) show ?thesis by (auto simp: Wait_def watched_def put_pool_def pool_ok_def)
qed

lemma put_woken_closed [simp]: "closed (put_woken r p c t) = c # closed t"
  by (simp add: put_woken_def)

lemma apply_event_wakes:
  assumes "mget (pools t) (ev_pool e) = Some p" "wakes e p"
  shows "waiters p \<in> set (closed (apply_event e t))"
  using assms apply_pool_frame(3) [of "next_chan t" e p]
  by (cases "apply_pool (next_chan t) e p") (auto simp: apply_event_def Let_def requestPoll_def)

lemma closed_apply_mono: "c \<in> set (closed t) \<Longrightarrow> c \<in> set (closed (apply_event e t))"
  by (auto simp: apply_event_def put_pool_def requestPoll_def Let_def split: option.split prod.split)

text \<open>
  C33: a caller that waits on a Pool is never stranded. Whatever happens after \<open>Wait\<close>
  handed out a channel, the channel is closed or it is the one the still tracked Pool
  closes next with the caller counted as waiting; and an event for the Pool that names a
  MicroVM becoming available which is not in the count closes it.
\<close>

theorem Wait_never_stranded:
  assumes "Wait ref (fold tracker_perform ops NewTracker) = (c, t1)"
  shows "let t2 = fold tracker_perform ops' t1
    in (c \<in> set (closed t2) \<or> (\<exists>p. mget (pools t2) ref = Some p \<and> waiters p = c \<and> 0 < waiting p))
     \<and> (\<forall>p e. mget (pools t2) ref = Some p \<and> ev_pool e = ref \<and> ev_type e = VM_AVAILABLE \<and> ev_vm e \<noteq> []
          \<and> ev_vm e \<notin> named (available p) \<longrightarrow> c \<in> set (closed (apply_event e t2)))"
proof -
  define t2 where "t2 = fold tracker_perform ops' t1"
  have w: "watched ref c t2"
    unfolding t2_def by (intro watched_performs Wait_watched [OF _ assms] performs_ok) simp
  have "c \<in> set (closed (apply_event e t2))"
    if "mget (pools t2) ref = Some p" "ev_pool e = ref" "wakes e p" for p e
    using w that apply_event_wakes [of t2 e p] closed_apply_mono [of c t2 e] by (auto simp: watched_def)
  with w show ?thesis by (simp add: t2_def [symmetric] watched_def wakes_def)
qed

definition pool_a :: pool_ref where
  "pool_a = \<lparr>ref_name = ''a'', ref_namespace = ''ci''\<rparr>"

definition vm_of :: "event_type \<Rightarrow> string \<Rightarrow> event" where
  "vm_of ty u = \<lparr>ev_id = 1, ev_pool = pool_a, ev_vm = u, ev_type = ty, ev_at = 0, ev_payload = EmptyPayload\<rparr>"

lemma vm_of_simps [simp]:
  "ev_pool (vm_of ty u) = pool_a" "ev_vm (vm_of ty u) = u" "ev_type (vm_of ty u) = ty"
  "ev_payload (vm_of ty u) = EmptyPayload" "vm_event (vm_of ty u)"
  by (simp_all add: vm_of_def vm_event_def belowTargetCounts_def)

theorem Wait_never_stranded_witness:
  "Wait pool_a (fold tracker_perform [OpTrack pool_a True] NewTracker)
     = (0, snd (Wait pool_a (Track pool_a True NewTracker)))
   \<and> 0 \<in> set (closed (apply_event (vm_of VM_AVAILABLE ''u'') (snd (Wait pool_a (Track pool_a True NewTracker)))))"
proof -
  let ?t = "Track pool_a True NewTracker"
  have w: "Wait pool_a (fold tracker_perform [OpTrack pool_a True] NewTracker) = (0, snd (Wait pool_a ?t))"
    by (simp add: Wait_def Track_def poolLocked_def NewTracker_def put_pool_def requestPoll_def new_pool_def Let_def)
  moreover have "0 \<in> set (closed (apply_event (vm_of VM_AVAILABLE ''u'') (snd (Wait pool_a ?t))))"
    using Wait_never_stranded [OF w, of "[]"]
    by (simp add: Wait_def Track_def poolLocked_def NewTracker_def put_pool_def requestPoll_def new_pool_def Let_def)
  ultimately show ?thesis by simp
qed

section \<open>Replayed events\<close>

text \<open>What a capacity computation can see of a Pool, and how an event changes it.\<close>

type_synonym pool_view = "uid_count \<times> uid_count \<times> uid_count \<times> uid_count \<times> int \<times> bool \<times> bool"

definition pool_view :: "tracked_pool \<Rightarrow> pool_view" where
  "pool_view p = (available p, leased p, provisioning p, quarantined p, psize p, declared p, exhausted p)"

lemma view_available: "pool_view p = pool_view q \<Longrightarrow> availableCount p = availableCount q"
  by (simp add: pool_view_def availableCount_def)

fun view_event :: "event \<Rightarrow> pool_view \<Rightarrow> pool_view" where
  "view_event e (a, l, p, q, n, d, x) =
     (fold count_perform (available_ops e) a, fold count_perform (leased_ops e) l,
      fold count_perform (provisioning_ops e) p, fold count_perform (quarantined_ops e) q,
      n, d, x \<and> \<not> clears_exhausted e)"

abbreviation tracker_view :: "tracker \<Rightarrow> pool_ref \<Rightarrow> pool_view option" where
  "tracker_view t ref \<equiv> map_option pool_view (mget (pools t) ref)"

lemma view_apply_pool: "vm_event e \<Longrightarrow> pool_view (fst (apply_pool f e p)) = view_event e (pool_view p)"
  by (simp add: pool_view_def apply_pool_counts apply_pool_frame)

lemma pools_apply_event:
  "mget (pools (apply_event e t)) ref =
     (if ref = ev_pool e then map_option (\<lambda>p. fst (apply_pool (next_chan t) e p)) (mget (pools t) ref)
      else mget (pools t) ref)"
  by (auto simp: apply_event_def put_pool_def put_woken_def requestPoll_def Let_def split: option.split prod.split)

lemma view_apply_event:
  "vm_event e \<Longrightarrow> tracker_view (apply_event e t) ref =
     (if ev_pool e = ref then map_option (view_event e) (tracker_view t ref) else tracker_view t ref)"
  by (auto simp: pools_apply_event view_apply_pool option.map_comp comp_def)

lemma view_apply_events:
  "\<forall>e \<in> set es. vm_event e \<Longrightarrow> tracker_view (fold apply_event es t) ref =
     map_option (fold view_event (filter (\<lambda>e. ev_pool e = ref) es)) (tracker_view t ref)"
  by (induction es arbitrary: t)
    (auto simp: pools_apply_event view_apply_pool option.map_comp comp_def)

lemma fold_view_event:
  "fold view_event es (a, l, p, q, n, d, x) =
     (fold count_perform (concat (map available_ops es)) a, fold count_perform (concat (map leased_ops es)) l,
      fold count_perform (concat (map provisioning_ops es)) p, fold count_perform (concat (map quarantined_ops es)) q,
      n, d, x \<and> \<not> list_ex clears_exhausted es)"
  by (induction es arbitrary: a l p q n d x) auto

lemma view_replay:
  "pool_ok p \<Longrightarrow> fold view_event es (fold view_event es (pool_view p)) = fold view_event es (pool_view p)"
  by (auto simp: pool_view_def fold_view_event pool_ok_def uidc.replay)

text \<open>
  C30: replaying events is harmless. A new subscription is replayed the recent events of
  every Pool; when they are the last events applied, whatever they were, applying all of
  them again leaves every count of every Pool, and whether it reads as exhausted, as it
  was. (A \<open>POOL_SIZE_BELOW_TARGET\<close> that carries counts is a poll's answer and not such an
  event.)
\<close>

theorem replay_changes_no_count:
  assumes "\<forall>e \<in> set es. vm_event e"
    and "t = fold tracker_perform ops NewTracker"
  shows "map_option pool_view (mget (pools (fold apply_event es (fold apply_event es t))) ref)
       = map_option pool_view (mget (pools (fold apply_event es t)) ref)"
proof (cases "mget (pools t) ref")
  case (Some p)
  have "pool_ok p"
    using tracker_ok_pool [OF performs_ok [OF NewTracker_ok]] Some assms(2) by blast
  with Some assms(1) show ?thesis by (simp add: view_apply_events view_replay option.map_comp comp_def)
qed (simp add: view_apply_events assms(1))

definition lifecycle :: "string \<Rightarrow> event list" where
  "lifecycle u = [vm_of VM_PROVISIONED u, vm_of VM_AVAILABLE u, vm_of VM_CLAIMED u, vm_of VM_RELEASED u]"

theorem replay_changes_no_count_witness:
  "list_all vm_event (lifecycle ''u'')
   \<and> map_option pool_view (mget (pools (fold apply_event (lifecycle ''u'')
        (fold apply_event (lifecycle ''u'') (fold tracker_perform [OpTrack pool_a True] NewTracker)))) pool_a)
     = map_option pool_view (mget (pools (fold apply_event (lifecycle ''u'')
        (fold tracker_perform [OpTrack pool_a True] NewTracker))) pool_a)"
proof -
  have "\<forall>e \<in> set (lifecycle ''u''). vm_event e" by (simp add: lifecycle_def)
  with replay_changes_no_count [OF this refl, of "[OpTrack pool_a True]" pool_a] show ?thesis
    unfolding list_all_iff by blast
qed

section \<open>The poll a Pool owes\<close>

lemma needsPoll_apply_pool:
  "needsPoll (fst (apply_pool f e p)) \<longleftrightarrow>
     owes (availableCount p) (fst (apply_switch f e (bumped p)))"
  by (simp add: apply_pool_eq Let_def)

lemma needsPoll_kept:
  assumes "vm_event e" "needsPoll p"
  shows "needsPoll (fst (apply_pool f e p))"
  using assms by (simp add: needsPoll_apply_pool owes_def apply_switch_counts)

lemma availableCount_apply_pool:
  "availableCount (fst (apply_pool f e p)) = availableCount (fst (apply_switch f e (bumped p)))"
  by (simp add: apply_pool_eq Let_def)

text \<open>
  An event that counts a Pool down to nothing leaves it owing a poll and asks for one,
  and no event other than the Pool Manager's own counts pays that debt.
\<close>

theorem zero_owes_poll:
  assumes "mget (pools t) ref = Some p" "0 < availableCount p"
    and "t1 = apply_event e t" "mget (pools t1) ref = Some p1" "availableCount p1 = 0"
    and "\<forall>x \<in> set es. vm_event x"
  shows "needsPoll p1 \<and> kick t1 \<and> pollOwed (fold apply_event es t1)"
proof -
  have e: "ev_pool e = ref" using assms by (auto simp: pools_apply_event split: if_splits)
  have p1: "p1 = fst (apply_pool (next_chan t) e p)"
    using assms(1,3,4) e by (simp add: pools_apply_event)
  have owed: "needsPoll p1"
    using assms(2,5) unfolding p1 by (simp add: needsPoll_apply_pool availableCount_apply_pool owes_def)
  then have kicked: "kick t1"
    using assms(1,3) e p1 by (auto simp: apply_event_def Let_def requestPoll_def split: prod.split)
  have "\<exists>q. mget (pools (fold apply_event es s)) ref = Some q \<and> needsPoll q"
    if "mget (pools s) ref = Some q" "needsPoll q" for s q
    using that assms(6)
  proof (induction es arbitrary: s q)
    case (Cons x xs)
    then have "\<exists>q. mget (pools (apply_event x s)) ref = Some q \<and> needsPoll q"
      by (auto simp: pools_apply_event needsPoll_kept)
    with Cons show ?case by auto
  qed auto
  from this [OF assms(4) owed] have "pollOwed (fold apply_event es t1)"
    by (auto simp: pollOwed_def list_ex_iff dest!: map_of_SomeD)
  with owed kicked show ?thesis by simp
qed

theorem zero_owes_poll_witness:
  "let t = apply_event (vm_of VM_AVAILABLE ''u'') (Track pool_a True NewTracker);
       t1 = apply_event (vm_of VM_CLAIMED ''u'') t
   in Available None pool_a t = 1 \<and> Available None pool_a t1 = 0 \<and> kick t1
     \<and> pollOwed (fold apply_event [vm_of VM_RELEASED ''u''] t1)"
proof -
  let ?t = "apply_event (vm_of VM_AVAILABLE ''u'') (Track pool_a True NewTracker)"
  let ?t1 = "apply_event (vm_of VM_CLAIMED ''u'') ?t"
  let ?c = "\<lparr>named = {''u''}, unnamed = 0, accounted = {}\<rparr>"
  let ?p = "(new_pool 1)\<lparr>declared := True, available := ?c, generation := 1\<rparr>"
  let ?p1 = "(new_pool 1)\<lparr>declared := True, leased := ?c, generation := 2, needsPoll := True\<rparr>"
  note defs = apply_event_def Track_def poolLocked_def NewTracker_def put_pool_def put_woken_def
    requestPoll_def new_pool_def Let_def apply_pool_def apply_switch_def add_def leaves_def remove_def
    take_unnamed_def newUIDCount_def availableCount_def closeWaiters_def total_def i32_def
  have p: "mget (pools ?t) pool_a = Some ?p" by (simp add: defs)
  have p1: "mget (pools ?t1) pool_a = Some ?p1" by (simp add: defs)
  have a: "availableCount ?p = 1" "availableCount ?p1 = 0" by (simp_all add: defs)
  have "needsPoll ?p1 \<and> kick ?t1 \<and> pollOwed (fold apply_event [vm_of VM_RELEASED ''u''] ?t1)"
    by (rule zero_owes_poll [OF p _ refl p1]) (use a in simp_all)
  then show ?thesis using p p1 a by (simp add: Let_def Available_def unhealthy_def)
qed

section \<open>Polls\<close>

lemma generation_events:
  "mget (pools t) ref = Some p \<Longrightarrow> \<exists>q. mget (pools (fold apply_event es t)) ref = Some q
     \<and> generation q = generation p + of_nat (length (filter (\<lambda>e. ev_pool e = ref) es))"
proof (induction es arbitrary: t p)
  case (Cons e es)
  from Cons.prems have "\<exists>q. mget (pools (apply_event e t)) ref = Some q
      \<and> generation q = generation p + of_nat (if ev_pool e = ref then 1 else 0)"
    by (auto simp: pools_apply_event apply_pool_frame)
  with Cons.IH show ?case by fastforce
qed simp

lemma of_nat_word_nonzero: "0 < n \<Longrightarrow> n < 2 ^ 64 \<Longrightarrow> (of_nat n :: 64 word) \<noteq> 0"
  by (auto simp: word_of_nat_eq_0_iff dest: dvd_imp_le)

lemma fold_OpApply: "fold tracker_perform (map OpApply es) t = fold apply_event es t"
  by (induction es arbitrary: t) auto

text \<open>
  A poll that raced events is discarded. When at least one event of a Pool, and fewer
  than \<open>2 ^ 64\<close>, is applied between the question and the answer, the answer changes no
  count of any Pool and wakes nobody, the Pool is left owing a poll, and another one is
  asked for at once.
\<close>

theorem raced_poll_discarded:
  assumes "mget (pools t) ref = Some p"
    and "turn_during turn = map OpApply es" "turn_answer turn = Inr (sz, st)"
    and "0 < length (filter (\<lambda>e. ev_pool e = ref) es)" "length (filter (\<lambda>e. ev_pool e = ref) es) < 2 ^ 64"
  shows "let t1 = fold apply_event es t; t2 = poll_one turn ref t
    in (\<forall>r. map_option pool_view (mget (pools t2) r) = map_option pool_view (mget (pools t1) r))
     \<and> closed t2 = closed t1 \<and> kick t2 \<and> pollOwed t2"
proof -
  define t1 where "t1 = fold apply_event es t"
  obtain q where q: "mget (pools t1) ref = Some q"
    "generation q = generation p + of_nat (length (filter (\<lambda>e. ev_pool e = ref) es))"
    using generation_events [OF assms(1)] by (auto simp: t1_def)
  then have "generation q \<noteq> generation p"
    using of_nat_word_nonzero [OF assms(4,5)] by simp
  then have t2: "poll_one turn ref t = requestPoll (put_pool ref (q\<lparr>needsPoll := True\<rparr>) t1)"
    using q(1) assms(1-3)
    by (simp add: poll_one_def Let_def fold_OpApply t1_def [symmetric] applyPoll_def pool_generation_def)
  have "pollOwed (poll_one turn ref t)"
    using map_of_SomeD [of "mput ref (q\<lparr>needsPoll := True\<rparr>) (pools t1)" ref]
    by (force simp: t2 pollOwed_def requestPoll_def put_pool_def list_ex_iff)
  then show ?thesis
    unfolding t1_def [symmetric] Let_def
    by (auto simp: t2 requestPoll_def put_pool_def q(1) pool_view_def)
qed

definition answers :: "int \<Rightarrow> int \<Rightarrow> tracker_op list \<Rightarrow> poll_turn" where
  "answers sz n ops = \<lparr>turn_before = [], turn_cancelled = False, turn_during = ops,
     turn_answer = Inr (sz, \<lparr>st_available = n, st_leased = 0, st_provisioning = 0, st_quarantined = 0\<rparr>)\<rparr>"

theorem raced_poll_discarded_witness:
  "let t = Track pool_a True NewTracker; es = [vm_of VM_AVAILABLE ''u'', vm_of VM_CLAIMED ''u''];
       t2 = poll_one (answers 3 2 (map OpApply es)) pool_a t
   in Available None pool_a (fold apply_event es t) = 0 \<and> Available None pool_a t2 = 0 \<and> pollOwed t2"
proof -
  let ?t = "Track pool_a True NewTracker"
  let ?es = "[vm_of VM_AVAILABLE ''u'', vm_of VM_CLAIMED ''u'']"
  let ?t2 = "poll_one (answers 3 2 (map OpApply ?es)) pool_a ?t"
  note defs = apply_event_def Track_def poolLocked_def NewTracker_def put_pool_def put_woken_def
    requestPoll_def new_pool_def Let_def apply_pool_def apply_switch_def add_def leaves_def remove_def
    take_unnamed_def newUIDCount_def availableCount_def closeWaiters_def total_def i32_def
  have p: "mget (pools ?t) pool_a = Some ((new_pool 0)\<lparr>declared := True\<rparr>)" by (simp add: defs)
  have r: "map_option pool_view (mget (pools ?t2) pool_a)
      = map_option pool_view (mget (pools (fold apply_event ?es ?t)) pool_a) \<and> pollOwed ?t2"
    using raced_poll_discarded [OF p, of "answers 3 2 (map OpApply ?es)" ?es] by (simp add: answers_def Let_def)
  obtain q where q: "mget (pools (fold apply_event ?es ?t)) pool_a = Some q" "availableCount q = 0"
    by (simp add: defs)
  with r obtain q2 where "mget (pools ?t2) pool_a = Some q2" "pool_view q2 = pool_view q" by auto
  with q r show ?thesis by (simp add: Let_def Available_def unhealthy_def view_available [of q2 q])
qed

subsection \<open>A round of polls\<close>

definition polled :: "int \<Rightarrow> pool_status \<Rightarrow> tracked_pool \<Rightarrow> tracked_pool \<Rightarrow> bool" where
  "polled sz st p q \<longleftrightarrow> available q = rebaseline (st_available st) (available p) \<and> psize q = sz
     \<and> leased q = rebaseline (st_leased st) (leased p) \<and> declared q = declared p
     \<and> \<not> exhausted q \<and> \<not> needsPoll q \<and> \<not> unsettled q"

lemma applyPoll_quiet:
  assumes "mget (pools t) ref = Some p"
  shows "\<exists>q. mget (pools (applyPoll ref (pool_generation ref t) sz st t)) ref = Some q \<and> polled sz st p q"
  using assms by (auto simp: applyPoll_def pool_generation_def polled_def Let_def put_pool_def put_woken_def)

lemma applyPoll_other:
  "r \<noteq> ref \<Longrightarrow> mget (pools (applyPoll ref g sz st t)) r = mget (pools t) r"
  by (auto simp: applyPoll_def Let_def put_pool_def put_woken_def requestPoll_def split: option.split)

definition quiet_answer :: "int \<Rightarrow> pool_status \<Rightarrow> poll_turn \<Rightarrow> bool" where
  "quiet_answer sz st turn \<longleftrightarrow> turn_before turn = [] \<and> \<not> turn_cancelled turn \<and> turn_during turn = []
     \<and> turn_answer turn = Inr (sz, st)"

lemma poll_refs_quiet:
  assumes "distinct rs" "\<forall>r \<in> set rs. quiet_answer (sz r) (st r) (turn r)" "mget (pools t) ref = Some p"
  shows "\<exists>q. mget (pools (poll_refs turn rs t)) ref = Some q
    \<and> (if ref \<in> set rs then polled (sz ref) (st ref) p q else q = p)"
  using assms
proof (induction rs arbitrary: t p)
  case (Cons r rs)
  let ?t1 = "applyPoll r (pool_generation r t) (sz r) (st r) t"
  have step: "poll_refs turn (r # rs) t = poll_refs turn rs ?t1"
    using Cons.prems(2) by (simp add: quiet_answer_def poll_one_def)
  show ?case
  proof (cases "ref = r")
    case True
    obtain q where q: "mget (pools ?t1) ref = Some q" "polled (sz r) (st r) p q"
      using applyPoll_quiet Cons.prems(3) True by metis
    with Cons.IH [OF _ _ q(1)] Cons.prems True show ?thesis unfolding step by auto
  next
    case False
    then have "mget (pools ?t1) ref = Some p" using Cons.prems(3) by (simp add: applyPoll_other)
    with Cons.IH Cons.prems False show ?thesis unfolding step by auto
  qed
qed simp

lemma poll_refs_keys:
  assumes "\<forall>r \<in> set rs. quiet_answer (sz r) (st r) (turn r)" "mget (pools t) ref = None"
  shows "mget (pools (poll_refs turn rs t)) ref = None"
  using assms
proof (induction rs arbitrary: t)
  case (Cons r rs)
  have "mget (pools (applyPoll r g a b t)) ref = None" for g a b
    using Cons.prems(2) applyPoll_other [of ref r g a b t]
    by (cases "ref = r") (auto simp: applyPoll_def)
  with Cons show ?case by (simp add: quiet_answer_def poll_one_def)
qed simp

lemma set_refs: "set (refs t) = set (mkeys (pools t))"
  by (simp add: refs_def)

lemma distinct_refs: "tracker_ok t \<Longrightarrow> distinct (refs t)"
  by (simp add: refs_def tracker_ok_def gomap_ok_def)

text \<open>
  C34: a round of polls settles every Pool. While the stream is down or some Pool owes a
  poll, a tick asks for every tracked Pool, and when the Pool Manager answers for each and
  no event races the answers, no Pool owes a poll afterwards and each declared one reads
  the answer, or the MicroVMs events have named if they are more.
\<close>

theorem tick_settles:
  assumes "t = fold tracker_perform ops NewTracker" "\<not> streamIsUp t \<or> pollOwed t"
    and "\<forall>r. quiet_answer (sz r) (st r) (turn r) \<and> 0 \<le> st_available (st r) \<and> st_available (st r) < 2 ^ 31"
    and "t1 = pollLoop [LoopTick turn] t"
  shows "\<not> pollOwed t1 \<and> (\<forall>ref p. mget (pools t) ref = Some p \<and> declared p \<and> card (named (available p)) < 2 ^ 31
    \<longrightarrow> Available None ref t1 = max (st_available (st ref)) (int (card (named (available p)))))"
proof -
  have ok: "tracker_ok t" using assms(1) by (simp add: performs_ok)
  have t1: "t1 = poll_refs turn (refs t) t" using assms(2,4) by (auto simp: pollAll_def)
  have q: "\<exists>q. mget (pools t1) ref = Some q \<and> polled (sz ref) (st ref) p q" if "mget (pools t) ref = Some p" for ref p
    using poll_refs_quiet [OF distinct_refs [OF ok] _ that, of sz st turn] assms(3) mget_in_mkeys [OF that]
    by (auto simp: t1 set_refs)
  have "\<not> needsPoll q" if m: "mget (pools t1) ref = Some q" for ref q
  proof (cases "mget (pools t) ref")
    case None
    then have "mget (pools t1) ref = None"
      using poll_refs_keys [of "refs t" sz st turn t ref] assms(3) by (simp add: t1)
    with m show ?thesis by simp
  next
    case (Some p)
    with q [OF Some] m show ?thesis by (auto simp: polled_def)
  qed
  moreover have "tracker_ok t1" using ok by (simp add: t1 poll_refs_ok)
  ultimately have "\<not> pollOwed t1"
    by (auto simp: pollOwed_def list_ex_iff tracker_ok_def mget_in_set)
  moreover have "Available None ref t1 = max (st_available (st ref)) (int (card (named (available p))))"
    if m: "mget (pools t) ref = Some p" and "declared p" "card (named (available p)) < 2 ^ 31" for ref p
  proof -
    obtain r where r: "mget (pools t1) ref = Some r" "polled (sz ref) (st ref) p r" using q [OF m] by auto
    have "count_ok (available p)" using tracker_ok_pool [OF ok m] by (simp add: pool_ok_def)
    then have "total (rebaseline (st_available (st ref)) (available p))
        = max (st_available (st ref)) (int (card (named (available p))))"
      using assms(3) that(3) by (intro rebaseline_total) auto
    with r that(2) show ?thesis by (simp add: Available_def unhealthy_def availableCount_def polled_def)
  qed
  ultimately show ?thesis by blast
qed

theorem tick_settles_witness:
  "let t = fold tracker_perform [OpTrack pool_a True] NewTracker;
       t1 = pollLoop [LoopTick (\<lambda>_. answers 3 2 [])] t
   in \<not> streamIsUp t \<and> \<not> pollOwed t1 \<and> Available None pool_a t1 = 2"
proof -
  let ?t = "fold tracker_perform [OpTrack pool_a True] NewTracker"
  let ?st = "\<lparr>st_available = 2, st_leased = 0, st_provisioning = 0, st_quarantined = 0\<rparr>"
  have down: "\<not> streamIsUp ?t"
    by (simp add: Track_def poolLocked_def NewTracker_def put_pool_def requestPoll_def streamIsUp_def Let_def)
  have p: "mget (pools ?t) pool_a = Some ((new_pool 0)\<lparr>declared := True\<rparr>)"
    by (simp add: Track_def poolLocked_def NewTracker_def put_pool_def requestPoll_def Let_def)
  have quiet: "\<forall>r. quiet_answer 3 ?st (answers 3 2 []) \<and> 0 \<le> st_available ?st \<and> st_available ?st < 2 ^ 31"
    by (simp add: quiet_answer_def answers_def)
  let ?t1 = "pollLoop [LoopTick (\<lambda>_. answers 3 2 [])] ?t"
  have r: "\<not> pollOwed ?t1 \<and> (\<forall>ref p. mget (pools ?t) ref = Some p \<and> declared p \<and> card (named (available p)) < 2 ^ 31
    \<longrightarrow> Available None ref ?t1 = max (st_available ?st) (int (card (named (available p)))))"
    by (rule tick_settles [OF refl disjI1 [OF down] quiet refl])
  then have "Available None pool_a ?t1 = max (st_available ?st) (int (card (named (available ((new_pool 0)\<lparr>declared := True\<rparr>)))))"
    using p by (elim conjE allE [of _ pool_a] allE [of _ "(new_pool 0)\<lparr>declared := True\<rparr>"]) (simp add: new_pool_def)
  then have "Available None pool_a ?t1 = 2" by (simp add: new_pool_def)
  with r down show ?thesis by (simp add: Let_def del: fold_simps pollLoop.simps)
qed

end
