(* ===== verification/Tracker_Truth.thy ===== *)
theory Tracker_Truth
  imports Tracker_Props
begin

text \<open>
  The Tracker against the Pool it tracks. The available MicroVMs of the Pool are a set of
  uids that the Pool Manager changes; the Tracker sees events and answers about it. The
  count is shown never to exceed the truth and to fall short of it only while the Pool is
  marked unsettled, and the situations in which it can go wrong are stated exactly.
\<close>

section \<open>A count and the set it counts\<close>

definition agrees :: "string set \<Rightarrow> uid_count \<Rightarrow> bool \<Rightarrow> bool" where
  "agrees S c exact \<longleftrightarrow> named c \<subseteq> S \<and> (S - named c) \<inter> accounted c = {}
     \<and> unnamed c \<le> int (card (S - named c)) \<and> (exact \<longrightarrow> unnamed c = int (card (S - named c)))"

lemma agrees_weaken: "agrees S c exact \<Longrightarrow> (exact' \<Longrightarrow> exact) \<Longrightarrow> agrees S c exact'"
  by (auto simp: agrees_def)

lemma agrees_created:
  assumes "count_ok c" "agrees S c exact" "u \<notin> S" "u \<noteq> []"
  shows "agrees (insert u S) (fst (add u c)) (exact \<and> \<not> snd (snd (add u c)))"
proof -
  have u: "u \<notin> named c" using assms by (auto simp: agrees_def)
  have "insert u S - insert u (named c) = S - named c" using assms(3) by auto
  then show ?thesis
    using assms u count_ok_unnamed [of c]
    by (auto simp: agrees_def add_eq take_unnamed_def Let_def count_ok_def)
qed

lemma card_minus_one:
  assumes "finite S" "u \<in> S - N"
  shows "int (card (S - insert u N)) = int (card (S - N)) - 1" "0 < card (S - N)"
proof -
  have "S - insert u N = S - N - {u}" by auto
  moreover have "0 < card (S - N)" using assms by (auto simp: card_gt_0_iff)
  ultimately show "int (card (S - insert u N)) = int (card (S - N)) - 1" "0 < card (S - N)"
    using assms by (simp_all add: card_Diff_singleton)
qed

lemma take_one:
  assumes "count_ok c" "u \<noteq> []" "u \<notin> accounted c" "0 < unnamed c"
  shows "unnamed (fst (take_unnamed u c)) = unnamed c - 1"
    "accounted (fst (take_unnamed u c)) \<subseteq> insert u (accounted c)"
  using assms count_ok_unnamed [OF assms(1,4)] by (auto simp: take_unnamed_def Let_def)

text \<open>Taking one MicroVM out of the unnamed part while the set loses one as well.\<close>

lemma agrees_take:
  assumes "count_ok c" "agrees S c exact" "u \<in> S - named c" "finite S" "u \<noteq> []"
  shows "unnamed (fst (take_unnamed u c)) \<le> int (card (S - insert u (named c)))"
    "exact \<Longrightarrow> unnamed (fst (take_unnamed u c)) = int (card (S - insert u (named c)))"
    "(S - insert u (named c)) \<inter> accounted (fst (take_unnamed u c)) = {}"
proof -
  have u: "u \<notin> accounted c" using assms(2,3) by (auto simp: agrees_def)
  note c = card_minus_one [OF assms(4,3)]
  have zero: "take_unnamed u c = (c, False) \<and> \<not> exact" if "unnamed c = 0"
    using that c assms(2) by (auto simp: take_unnamed_def agrees_def)
  have pos: "0 < unnamed c" if "unnamed c \<noteq> 0" using that assms(1) by (simp add: count_ok_def)
  show "unnamed (fst (take_unnamed u c)) \<le> int (card (S - insert u (named c)))"
    using zero take_one(1) [OF assms(1,5) u pos] assms(2) c by (cases "unnamed c = 0") (auto simp: agrees_def)
  show "exact \<Longrightarrow> unnamed (fst (take_unnamed u c)) = int (card (S - insert u (named c)))"
    using zero take_one(1) [OF assms(1,5) u pos] assms(2) c by (cases "unnamed c = 0") (auto simp: agrees_def)
  show "(S - insert u (named c)) \<inter> accounted (fst (take_unnamed u c)) = {}"
  proof (cases "unnamed c = 0")
    case True
    with zero assms(2) show ?thesis by (auto simp: agrees_def)
  next
    case False
    with take_one(2) [OF assms(1,5) u pos] assms(2) show ?thesis by (auto simp: agrees_def)
  qed
qed

lemma agrees_again:
  assumes "count_ok c" "agrees S c exact" "u \<in> S" "finite S" "u \<noteq> []"
  shows "agrees S (fst (add u c)) exact"
proof (cases "u \<in> named c")
  case False
  have "named c \<subseteq> S" using assms(2) by (simp add: agrees_def)
  with False assms(3,5) agrees_take [OF assms(1,2) _ assms(4,5)] show ?thesis
    by (simp add: agrees_def add_eq)
qed (use assms in \<open>simp add: add_eq\<close>)

lemma agrees_claimed:
  assumes "count_ok c" "agrees S c exact" "u \<in> S" "finite S" "u \<noteq> []"
  shows "agrees (S - {u}) (leaves c u) exact"
proof (cases "u \<in> named c")
  case True
  then have "S - {u} - (named c - {u}) = S - named c" by auto
  with True assms show ?thesis by (auto simp: agrees_def leaves_eq)
next
  case False
  have "S - {u} - named c = S - insert u (named c)" by auto
  moreover have "named c \<subseteq> S - {u}" using assms(2) False by (auto simp: agrees_def)
  ultimately show ?thesis
    using False assms(3,5) agrees_take [OF assms(1,2) _ assms(4,5)] by (simp add: agrees_def leaves_eq)
qed

lemma agrees_elsewhere: "agrees S c exact \<Longrightarrow> u \<notin> S \<Longrightarrow> fst (remove u c) = c"
  by (auto simp: agrees_def remove_def)

lemma agrees_total:
  assumes "count_ok c" "agrees S c exact" "finite S" "card S < 2 ^ 31"
  shows "0 \<le> Uid_Count.total c" "Uid_Count.total c \<le> int (card S)" "exact \<Longrightarrow> Uid_Count.total c = int (card S)"
proof -
  have "card S = card (named c) + card (S - named c)"
    using assms by (metis agrees_def card_Diff_subset card_mono finite_subset le_add_diff_inverse)
  moreover from this have "Uid_Count.total c = int (card (named c)) + unnamed c"
    using assms by (intro total_exact) (auto simp: agrees_def)
  ultimately show "0 \<le> Uid_Count.total c" "Uid_Count.total c \<le> int (card S)"
    "exact \<Longrightarrow> Uid_Count.total c = int (card S)"
    using assms by (auto simp: agrees_def count_ok_def)
qed

lemma agrees_rebaseline:
  assumes "count_ok c" "named c \<subseteq> S" "finite S" "card S < 2 ^ 31"
  shows "agrees S (rebaseline (int (card S)) c) True"
proof -
  let ?n = "int (card (named c))"
  have n: "card S = card (named c) + card (S - named c)"
    using assms by (metis card_Diff_subset card_mono finite_subset le_add_diff_inverse)
  have "i32 ?n = ?n" using n assms by (intro i32_id) auto
  moreover have "i32 (int (card S) - ?n) = int (card S) - ?n" using n assms by (intro i32_id) auto
  ultimately show ?thesis using assms n by (auto simp: agrees_def rebaseline_def Let_def)
qed

section \<open>The Pool Manager and the Tracker together\<close>

text \<open>
  The steps of a Pool in sync with its Tracker: a MicroVM becomes available, is announced
  again by a replay, or is claimed, and the event is applied; an event names a MicroVM that
  is not available, or another Pool; a poll is answered with the number of available
  MicroVMs, or its answer raced an event; a claim found the Pool empty; a caller waits.
\<close>

inductive pm_step :: "pool_ref \<Rightarrow> string set \<times> tracker \<Rightarrow> string set \<times> tracker \<Rightarrow> bool"
  for ref :: pool_ref where
  vm_created: "\<lbrakk>ev_pool e = ref; ev_type e = VM_AVAILABLE; ev_vm e \<notin> S; ev_vm e \<noteq> []; card S < 2 ^ 31 - 1\<rbrakk>
    \<Longrightarrow> pm_step ref (S, t) (insert (ev_vm e) S, apply_event e t)"
| vm_replayed: "\<lbrakk>ev_pool e = ref; ev_type e = VM_AVAILABLE; ev_vm e \<in> S\<rbrakk>
    \<Longrightarrow> pm_step ref (S, t) (S, apply_event e t)"
| vm_claimed: "\<lbrakk>ev_pool e = ref; ev_type e = VM_CLAIMED; ev_vm e \<in> S\<rbrakk>
    \<Longrightarrow> pm_step ref (S, t) (S - {ev_vm e}, apply_event e t)"
| vm_elsewhere: "\<lbrakk>ev_pool e = ref; ev_type e \<in> {VM_PROVISIONED, VM_RELEASED, VM_DELETED_DUE_TO_EXPIRY,
      VM_DELETED_ON_RELEASE, VM_HOOK_FAILED}; ev_vm e \<notin> S\<rbrakk>
    \<Longrightarrow> pm_step ref (S, t) (S, apply_event e t)"
| other_pool: "ev_pool e \<noteq> ref \<Longrightarrow> pm_step ref (S, t) (S, apply_event e t)"
| answered: "st_available st = int (card S)
    \<Longrightarrow> pm_step ref (S, t) (S, applyPoll ref (pool_generation ref t) sz st t)"
| raced: "g \<noteq> pool_generation ref t \<Longrightarrow> pm_step ref (S, t) (S, applyPoll ref g sz st t)"
| came_up_empty: "S = {} \<Longrightarrow> pm_step ref (S, t) (S, MarkExhausted ref t)"
| waits: "pm_step ref (S, t) (S, snd (Wait r t))"

text \<open>A Pool starts to be tracked and the poll that asks for is answered.\<close>

definition pm_start :: "pool_ref \<Rightarrow> string set \<times> tracker \<Rightarrow> bool" where
  "pm_start ref s \<longleftrightarrow> finite (fst s) \<and> card (fst s) < 2 ^ 31 \<and> [] \<notin> fst s
     \<and> (\<exists>ops t sz st. t = fold tracker_perform ops NewTracker \<and> mget (pools t) ref = None
          \<and> st_available st = int (card (fst s)) \<and> snd s = applyPoll ref 0 sz st (Track ref True t))"

definition reads_short :: "tracked_pool \<Rightarrow> bool" where
  "reads_short p \<longleftrightarrow> unsettled p \<and> (psize p \<le> 0 \<or> availableCount p < psize p)"

definition in_sync :: "string set \<Rightarrow> tracked_pool \<Rightarrow> bool" where
  "in_sync S p \<longleftrightarrow> declared p \<and> agrees S (available p) (\<not> unsettled p)
     \<and> (exhausted p \<longrightarrow> S = {}) \<and> (reads_short p \<longrightarrow> needsPoll p)"

definition pm_inv :: "pool_ref \<Rightarrow> string set \<times> tracker \<Rightarrow> bool" where
  "pm_inv ref s \<longleftrightarrow> finite (fst s) \<and> card (fst s) < 2 ^ 31 \<and> [] \<notin> fst s \<and> tracker_ok (snd s)
     \<and> (\<exists>p. mget (pools (snd s)) ref = Some p \<and> in_sync (fst s) p)"

lemma unsettled_apply:
  assumes "vm_event e"
  shows "unsettled (fst (apply_pool f e p)) \<longleftrightarrow>
    unsettled p \<or> ev_type e = VM_AVAILABLE \<and> snd (snd (add (ev_vm e) (available p)))"
  using assms
  by (cases "ev_type e")
    (auto simp: apply_pool_eq apply_switch_def Let_def vm_event_def split: prod.split)

lemma owes_apply:
  assumes "reads_short (fst (apply_pool f e p))"
  shows "needsPoll (fst (apply_pool f e p))"
  using assms by (simp add: reads_short_def apply_pool_eq Let_def owes_def)

text \<open>An event that leaves the available count agreeing with the set keeps the Pool in sync.\<close>

lemma in_sync_apply:
  assumes "vm_event e" "in_sync S p"
    and "agrees S' (fold count_perform (available_ops e) (available p))
      (\<not> unsettled p \<and> \<not> (ev_type e = VM_AVAILABLE \<and> snd (snd (add (ev_vm e) (available p)))))"
    and "S' \<noteq> {} \<Longrightarrow> S = {} \<Longrightarrow> clears_exhausted e"
  shows "in_sync S' (fst (apply_pool f e p))"
  using assms owes_apply [of f e p]
  by (auto simp: in_sync_def apply_pool_counts apply_pool_frame unsettled_apply)

lemma Wait_pools:
  "mget (pools t) ref = Some p \<Longrightarrow> mget (pools (snd (Wait r t))) ref =
     Some (if r = ref then p\<lparr>waiting := waiting p + 1\<rparr> else p)"
  by (cases "mget (pools t) r") (auto simp: Wait_def poolLocked_def put_pool_def Let_def)

lemma pm_step_inv:
  assumes "pm_inv ref s" "pm_step ref s s'"
  shows "pm_inv ref s'"
  using assms(2,1)
proof cases
  fix S t e
  assume s: "s = (S, t)" and inv: "pm_inv ref s"
  then obtain p where p: "mget (pools t) ref = Some p" "in_sync S p" and ok: "tracker_ok t"
    and S: "finite S" "card S < 2 ^ 31" "[] \<notin> S" by (auto simp: pm_inv_def)
  have c: "count_ok (available p)" using tracker_ok_pool [OF ok p(1)] by (simp add: pool_ok_def)
  have a: "agrees S (available p) (\<not> unsettled p)" using p(2) by (simp add: in_sync_def)
  have next_inv: "pm_inv ref (S', apply_event e t)"
    if "finite S'" "card S' < 2 ^ 31" "[] \<notin> S'" "ev_pool e = ref"
      "in_sync S' (fst (apply_pool (next_chan t) e p))" for S'
    using that ok p(1) by (simp add: pm_inv_def apply_event_ok pools_apply_event)
  {
    assume e: "s' = (insert (ev_vm e) S, apply_event e t)" "ev_pool e = ref" "ev_type e = VM_AVAILABLE"
      "ev_vm e \<notin> S" "ev_vm e \<noteq> []" "card S < 2 ^ 31 - 1"
    show "pm_inv ref s'"
      unfolding e(1) using S e p(2) agrees_created [OF c a e(4,5)]
      by (intro next_inv in_sync_apply [of _ S])
        (simp_all add: vm_event_def available_ops_def clears_exhausted_def)
  }
  {
    assume e: "s' = (S, apply_event e t)" "ev_pool e = ref" "ev_type e = VM_AVAILABLE" "ev_vm e \<in> S"
    then have "ev_vm e \<noteq> []" using S by auto
    with e show "pm_inv ref s'"
      unfolding e(1) using S p(2) agrees_again [OF c a e(4)]
      by (intro next_inv in_sync_apply [of _ S])
        (auto simp: vm_event_def available_ops_def clears_exhausted_def intro: agrees_weaken)
  }
  {
    assume e: "s' = (S - {ev_vm e}, apply_event e t)" "ev_pool e = ref" "ev_type e = VM_CLAIMED" "ev_vm e \<in> S"
    then have "ev_vm e \<noteq> []" using S by auto
    with e show "pm_inv ref s'"
      unfolding e(1) using S p(2) agrees_claimed [OF c a e(4)]
      by (intro next_inv in_sync_apply [of _ S])
        (auto simp: vm_event_def available_ops_def clears_exhausted_def card_Diff_singleton)
  }
  {
    assume e: "s' = (S, apply_event e t)" "ev_pool e = ref" "ev_vm e \<notin> S"
      "ev_type e \<in> {VM_PROVISIONED, VM_RELEASED, VM_DELETED_DUE_TO_EXPIRY, VM_DELETED_ON_RELEASE, VM_HOOK_FAILED}"
    show "pm_inv ref s'"
      unfolding e(1) using S e p(2) a agrees_elsewhere [OF a e(3)]
      by (intro next_inv in_sync_apply [of _ S]) (auto simp: vm_event_def available_ops_def)
  }
  {
    assume e: "s' = (S, apply_event e t)" "ev_pool e \<noteq> ref"
    with S ok p show "pm_inv ref s'" by (simp add: pm_inv_def apply_event_ok pools_apply_event)
  }
next
  fix S t st sz
  assume s: "s = (S, t)" and s': "s' = (S, applyPoll ref (pool_generation ref t) sz st t)"
    and st: "st_available st = int (card S)" and inv: "pm_inv ref s"
  then obtain p where p: "mget (pools t) ref = Some p" "in_sync S p" and ok: "tracker_ok t"
    and S: "finite S" "card S < 2 ^ 31" "[] \<notin> S" by (auto simp: pm_inv_def)
  have "agrees S (rebaseline (int (card S)) (available p)) True"
    using tracker_ok_pool [OF ok p(1)] p(2) S by (intro agrees_rebaseline) (auto simp: pool_ok_def in_sync_def agrees_def)
  with applyPoll_quiet [OF p(1), of sz st] p(2) st ok S show "pm_inv ref s'"
    by (auto simp: s' pm_inv_def applyPoll_ok polled_def in_sync_def reads_short_def)
next
  fix S t g sz st
  assume s: "s = (S, t)" and s': "s' = (S, applyPoll ref g sz st t)" and g: "g \<noteq> pool_generation ref t"
    and inv: "pm_inv ref s"
  then show "pm_inv ref s'"
    by (auto simp: pm_inv_def applyPoll_ok)
      (auto simp: applyPoll_def pool_generation_def requestPoll_def put_pool_def in_sync_def)
next
  fix S t
  assume s: "s = (S, t)" and s': "s' = (S, MarkExhausted ref t)" and S: "S = {}" and inv: "pm_inv ref s"
  then obtain p where p: "mget (pools t) ref = Some p" "in_sync S p" and ok: "tracker_ok t"
    by (auto simp: pm_inv_def)
  have "Uid_Count.total (available p) = 0"
    using agrees_total [of "available p" S "\<not> unsettled p"] p(2) S tracker_ok_pool [OF ok p(1)]
    by (auto simp: in_sync_def pool_ok_def)
  then have "availableCount p = 0" by (simp add: availableCount_def)
  with p S ok show "pm_inv ref s'"
    by (auto simp: s' pm_inv_def MarkExhausted_ok)
      (auto simp: MarkExhausted_def poolLocked_def put_pool_def in_sync_def agrees_def reset_def
        reads_short_def availableCount_def)
next
  fix S t r
  assume s: "s = (S, t)" and s': "s' = (S, snd (Wait r t))" and inv: "pm_inv ref s"
  then show "pm_inv ref s'"
    by (cases "r = ref") (auto simp: pm_inv_def Wait_ok Wait_pools in_sync_def reads_short_def)
qed

lemma pm_start_inv:
  assumes "pm_start ref s"
  shows "pm_inv ref s"
proof -
  from assms obtain S u ops t sz st where s: "s = (S, u)" "finite S" "card S < 2 ^ 31" "[] \<notin> S"
    and t: "t = fold tracker_perform ops NewTracker" "mget (pools t) ref = None"
    and st: "st_available st = int (card S)" and u: "u = applyPoll ref 0 sz st (Track ref True t)"
    by (cases s) (auto simp: pm_start_def)
  let ?p = "(new_pool (next_chan t))\<lparr>declared := True\<rparr>"
  have p: "mget (pools (Track ref True t)) ref = Some ?p"
    using t(2) by (simp add: Track_def poolLocked_def put_pool_def requestPoll_def Let_def)
  have g: "pool_generation ref (Track ref True t) = 0"
    using p by (simp add: pool_generation_def new_pool_def)
  obtain q where q: "mget (pools u) ref = Some q" "polled sz st ?p q"
    using applyPoll_quiet [OF p, of sz st] by (auto simp: u g)
  have "agrees S (rebaseline (int (card S)) newUIDCount) True"
    using s by (intro agrees_rebaseline) auto
  with q st have "in_sync S q"
    by (auto simp: polled_def in_sync_def reads_short_def new_pool_def)
  moreover have "tracker_ok u" unfolding u t(1) by (simp add: applyPoll_ok Track_ok performs_ok)
  ultimately show ?thesis using s q(1) by (auto simp: pm_inv_def)
qed

interpretation pm: inductive_invariant "pm_start ref" "pm_step ref" "pm_inv ref" for ref
  by unfold_locales (auto intro: pm_start_inv pm_step_inv)



section \<open>Where the count can go wrong\<close>

text \<open>
  A replayed claim whose \<open>VM_AVAILABLE\<close> is no longer in the replay takes a MicroVM out
  of the count that is still there. The event is about a MicroVM that came and went before
  the last poll; the Pool reads one less, is not marked unsettled and owes no poll.
\<close>

theorem stale_claim_undercounts:
  assumes "count_ok (available p)" "declared p" "\<not> exhausted p" "\<not> needsPoll p" "\<not> unsettled p"
    and "ev_type e = VM_CLAIMED" "ev_vm e \<noteq> []" "ev_vm e \<notin> named (available p)" "ev_vm e \<notin> accounted (available p)"
    and "2 \<le> unnamed (available p)" "int (card (named (available p))) + unnamed (available p) < 2 ^ 31"
  shows "let q = fst (apply_pool f e p)
    in availableCount q = availableCount p - 1 \<and> \<not> needsPoll q \<and> \<not> unsettled q"
proof -
  let ?c = "leaves (available p) (ev_vm e)"
  have e: "vm_event e" using assms(6) by (simp add: vm_event_def)
  have q: "available (fst (apply_pool f e p)) = ?c"
    using assms(6) by (simp add: apply_pool_counts [OF e] available_ops_def)
  have c: "unnamed ?c = unnamed (available p) - 1" "named ?c = named (available p)"
    using assms(7-10) take_one [OF assms(1), of "ev_vm e"] by (simp_all add: leaves_eq)
  have tot: "Uid_Count.total (available p) = int (card (named (available p))) + unnamed (available p)"
    "Uid_Count.total ?c = int (card (named (available p))) + unnamed (available p) - 1"
    using assms(1,11) total_exact [of "available p"] total_exact [of ?c] by (simp_all add: c)
  have count: "availableCount (fst (apply_pool f e p)) = Uid_Count.total ?c"
    using assms(2,3) q by (simp add: availableCount_def apply_pool_frame apply_pool_counts [OF e])
  have quiet: "\<not> unsettled (fst (apply_pool f e p))" using assms(5,6) by (simp add: unsettled_apply [OF e])
  then have "\<not> needsPoll (fst (apply_pool f e p))"
    using assms(4,10) count tot
    by (simp add: needsPoll_apply_pool availableCount_apply_pool owes_def apply_switch_counts [OF e])
      (simp add: apply_pool_eq Let_def)
  with count quiet tot assms(2,3) show ?thesis by (simp add: availableCount_def Let_def)
qed

definition polled_pool :: tracked_pool where
  "polled_pool = (new_pool 0)\<lparr>declared := True, psize := 3,
     available := \<lparr>named = {}, unnamed = 3, accounted = {}\<rparr>\<rparr>"

theorem stale_claim_undercounts_witness:
  "let q = fst (apply_pool 1 (vm_of VM_CLAIMED ''old'') polled_pool)
   in availableCount polled_pool = 3 \<and> availableCount q = 2 \<and> \<not> needsPoll q \<and> \<not> unsettled q"
proof -
  have "availableCount polled_pool = 3"
    by (simp add: polled_pool_def availableCount_def new_pool_def Uid_Count.total_def i32_def)
  with stale_claim_undercounts [of polled_pool "vm_of VM_CLAIMED ''old''" 1] show ?thesis
    by (simp add: polled_pool_def new_pool_def count_ok_def Let_def)
qed

text \<open>
  An answer for a Pool that was untracked while the question was out does not bring the
  Pool back when it carries counts, but the answer that the Pool Manager does not know the
  Pool does: it is tracked again, undeclared.
\<close>

theorem not_found_revives_untracked:
  "let during = ops @ [OpUntrack ref];
       turn = \<lambda>ans. \<lparr>turn_before = [], turn_cancelled = False, turn_during = during, turn_answer = ans\<rparr>
   in mget (pools (poll_one (turn (Inr (sz, st))) ref t)) ref = None
    \<and> (\<exists>p. mget (pools (poll_one (turn (Inl ErrNotFound)) ref t)) ref = Some p \<and> \<not> declared p)"
proof -
  have "mget (pools (Untrack ref u)) ref = None" for u
    by (auto simp: Untrack_def split: option.split)
  then show ?thesis
    by (simp add: poll_one_def applyPoll_def setDeclared_def poolLocked_def put_pool_def Let_def)
qed

text \<open>
  A claim that came back exhausted sets the Pool to zero and owes no poll. Whatever the
  events had put in the count before, a \<open>VM_AVAILABLE\<close> that arrived while the claim was out
  included, reads zero afterwards; and while the stream is up no tick of the poll loop asks
  about it.
\<close>

theorem exhausted_zero_not_polled:
  assumes "streamIsUp t" "\<not> pollOwed t" "mget (pools t) ref = Some p" "gomap_ok (pools t)"
  shows "let t1 = MarkExhausted ref t
    in Available health ref t1 = 0 \<and> pollLoop (replicate n (LoopTick turn)) t1 = t1"
proof -
  let ?t = "MarkExhausted ref t"
  let ?p = "p\<lparr>exhausted := True, available := reset (available p)\<rparr>"
  have t: "?t = t\<lparr>pools := mput ref ?p (pools t)\<rparr>"
    using assms(3) by (simp add: MarkExhausted_def poolLocked_def put_pool_def Let_def)
  have "\<not> needsPoll q" if "mget (pools t) r = Some q" for r q
    using assms(2) map_of_SomeD [OF that] by (auto simp: pollOwed_def list_ex_iff)
  then have "\<not> needsPoll q" if "mget (pools ?t) r = Some q" for r q
    using that assms(3) by (auto simp: t split: if_splits)
  moreover have "gomap_ok (pools ?t)" using assms(4) by (simp add: t)
  ultimately have "\<not> pollOwed ?t"
    by (auto simp: pollOwed_def list_ex_iff mget_in_set)
  moreover have "streamIsUp ?t" using assms(1) by (simp add: t streamIsUp_def)
  ultimately have "pollLoop (replicate n (LoopTick turn)) ?t = ?t"
    by (induction n) auto
  moreover have "Available health ref ?t = 0" by (simp add: t Available_def availableCount_def)
  ultimately show ?thesis by (simp add: Let_def)
qed

definition quiet_pool :: tracker where
  "quiet_pool = setStreamUp True (put_pool pool_a polled_pool NewTracker)"

theorem exhausted_zero_not_polled_witness:
  "let t1 = MarkExhausted pool_a (apply_event (vm_of VM_AVAILABLE ''u'') quiet_pool)
   in Available None pool_a t1 = 0 \<and> pollLoop (replicate 5 (LoopTick (\<lambda>_. answers 3 4 []))) t1 = t1"
proof -
  let ?t = "apply_event (vm_of VM_AVAILABLE ''u'') quiet_pool"
  note defs = quiet_pool_def apply_event_def NewTracker_def put_pool_def put_woken_def setStreamUp_def
    requestPoll_def polled_pool_def new_pool_def Let_def apply_pool_def apply_switch_def add_def leaves_def
    remove_def take_unnamed_def newUIDCount_def availableCount_def closeWaiters_def Uid_Count.total_def i32_def
  have up: "streamIsUp ?t" by (simp add: defs streamIsUp_def)
  have owed: "\<not> pollOwed ?t" by (simp add: defs pollOwed_def)
  have ok: "gomap_ok (pools ?t)" by (simp add: defs gomap_ok_def)
  obtain p where "mget (pools ?t) pool_a = Some p" by (simp add: defs)
  from exhausted_zero_not_polled [OF up owed this ok, of None 5 "\<lambda>_. answers 3 4 []"] show ?thesis .
qed

end
