(* ===== verification/Registry.thy ===== *)
theory Registry
  imports Prelude
begin

text \<open>
  The Host registry of \<open>internal/flintlock/registry.go\<close>: one client per Host, leased to
  Jobs, replaced and retired by reloads, and closed when the last holder lets go. The
  entries Go reaches through pointers live in a heap, and the clients' \<open>Close\<close> calls are
  logged in the order they are made.
\<close>

section \<open>State\<close>

record tls_options =
  tls_ca_file :: string
  tls_cert_file :: string
  tls_key_file :: string
  tls_insecure :: bool

record endpoint =
  ep_name :: string
  ep_address :: string
  ep_token :: string
  ep_tls :: tls_options

record host_entry =
  he_ep :: endpoint
  he_leases :: int
  he_retired :: bool
  he_closed :: bool

text \<open>
  An entry is its address in the heap, and the client dialled for it goes by the same
  number. A lease is a token for the release function \<open>Lease\<close> returns, outstanding until
  the function is called: \<open>sync.Once\<close> makes further calls do nothing.
\<close>

record registry =
  heap :: "host_entry list"
  hosts :: "(string, nat) gomap"
  retired :: "nat list"
  reg_closed :: bool
  closes :: "nat list"
  tokens :: "(nat, nat) gomap"
  next_token :: nat

definition empty_registry :: registry where
  "empty_registry = \<lparr>heap = [], hosts = [], retired = [], reg_closed = False, closes = [], tokens = [], next_token = 0\<rparr>"

section \<open>Operations\<close>

text \<open>\<open>releasableLocked\<close>: whether an entry's client is to be closed now; if so it is marked closed.\<close>

definition releasableLocked :: "nat \<Rightarrow> registry \<Rightarrow> registry \<times> bool" where
  "releasableLocked i r =
     (let e = heap r ! i
      in if \<not> he_retired e \<or> he_closed e \<or> he_leases e > 0 then (r, False)
         else (r\<lparr>heap := (heap r)[i := e\<lparr>he_closed := True\<rparr>]\<rparr>, True))"

definition Get :: "string \<Rightarrow> registry \<Rightarrow> nat option" where
  "Get name r = mget (hosts r) name"

definition Lease :: "string \<Rightarrow> registry \<Rightarrow> registry \<times> (nat \<times> nat) option" where
  "Lease name r = (case mget (hosts r) name of
     None \<Rightarrow> (r, None)
   | Some i \<Rightarrow>
       (r\<lparr>heap := (heap r)[i := (heap r ! i)\<lparr>he_leases := he_leases (heap r ! i) + 1\<rparr>],
          tokens := mput (next_token r) i (tokens r), next_token := Suc (next_token r)\<rparr>,
        Some (i, next_token r)))"

definition forgetRetiredLocked :: "nat \<Rightarrow> registry \<Rightarrow> registry" where
  "forgetRetiredLocked i r = r\<lparr>retired := remove1 i (retired r)\<rparr>"

definition release :: "nat \<Rightarrow> registry \<Rightarrow> registry" where
  "release i r =
     (let r1 = r\<lparr>heap := (heap r)[i := (heap r ! i)\<lparr>he_leases := he_leases (heap r ! i) - 1\<rparr>]\<rparr>;
          (r2, client) = releasableLocked i r1
      in if client then (forgetRetiredLocked i r2)\<lparr>closes := closes r @ [i]\<rparr> else r2)"

definition call_release :: "nat \<Rightarrow> registry \<Rightarrow> registry" where
  "call_release token r = (case mget (tokens r) token of
     None \<Rightarrow> r
   | Some i \<Rightarrow> release i (r\<lparr>tokens := mdel token (tokens r)\<rparr>))"

definition Endpoint :: "string \<Rightarrow> registry \<Rightarrow> endpoint option" where
  "Endpoint name r = map_option (\<lambda>i. he_ep (heap r ! i)) (mget (hosts r) name)"

definition Names :: "registry \<Rightarrow> string list" where
  "Names r = sort (mkeys (hosts r))"

subsection \<open>Applying a new inventory\<close>

datatype apply_error = RegistryClosed | NoHostName string | ListedTwice string | DialFailed endpoint

record build =
  b_next :: "(string, nat) gomap"
  b_retired :: "nat list"
  b_dialled :: "nat list"
  b_heap :: "host_entry list"

text \<open>
  The loop over the endpoints. \<open>dial\<close> is whether the dialer accepts an endpoint. The
  result says which of the clients dialled so far are closed on the way out: all of them
  when a dial fails, none when an entry is refused for its name.
\<close>

fun apply_entries :: "(endpoint \<Rightarrow> bool) \<Rightarrow> (string, nat) gomap \<Rightarrow> endpoint list \<Rightarrow> build
    \<Rightarrow> build \<times> (apply_error \<times> nat list) option" where
  "apply_entries dial current [] b = (b, None)"
| "apply_entries dial current (ep # eps) b =
     (if ep_name ep = [] then (b, Some (NoHostName (ep_address ep), []))
      else if mhas (b_next b) (ep_name ep) then (b, Some (ListedTwice (ep_name ep), []))
      else case mget current (ep_name ep) of
        Some i \<Rightarrow>
          if he_ep (b_heap b ! i) = ep
          then apply_entries dial current eps (b\<lparr>b_next := mput (ep_name ep) i (b_next b)\<rparr>)
          else if \<not> dial ep then (b, Some (DialFailed ep, b_dialled b))
          else apply_entries dial current eps
            \<lparr>b_next = mput (ep_name ep) (length (b_heap b)) (b_next b),
             b_retired = b_retired b @ [i], b_dialled = b_dialled b @ [length (b_heap b)],
             b_heap = b_heap b @ [\<lparr>he_ep = ep, he_leases = 0, he_retired = False, he_closed = False\<rparr>]\<rparr>
      | None \<Rightarrow>
          if \<not> dial ep then (b, Some (DialFailed ep, b_dialled b))
          else apply_entries dial current eps
            \<lparr>b_next = mput (ep_name ep) (length (b_heap b)) (b_next b),
             b_retired = b_retired b, b_dialled = b_dialled b @ [length (b_heap b)],
             b_heap = b_heap b @ [\<lparr>he_ep = ep, he_leases = 0, he_retired = False, he_closed = False\<rparr>]\<rparr>)"

text \<open>Retiring the entries the new inventory dropped: idle ones are closed, leased ones kept.\<close>

definition retire :: "nat \<Rightarrow> registry \<Rightarrow> registry" where
  "retire i r =
     (let r1 = r\<lparr>heap := (heap r)[i := (heap r ! i)\<lparr>he_retired := True\<rparr>]\<rparr>;
          (r2, client) = releasableLocked i r1
      in if client then r2\<lparr>closes := closes r2 @ [i]\<rparr> else r2\<lparr>retired := retired r2 @ [i]\<rparr>)"

definition Close :: "registry \<Rightarrow> registry" where
  "Close r =
     (if reg_closed r then r
      else let entries = map snd (hosts r) @ retired r;
               open_entries = filter (\<lambda>i. \<not> he_closed (heap r ! i)) entries
           in r\<lparr>reg_closed := True, hosts := [], retired := [],
                heap := fold (\<lambda>i h. h[i := (h ! i)\<lparr>he_closed := True\<rparr>]) open_entries (heap r),
                closes := closes r @ open_entries\<rparr>)"

text \<open>What other goroutines do while \<open>Apply\<close> dials outside the lock.\<close>

datatype registry_op = RLease string | RRelease nat | RClose

fun registry_perform :: "registry_op \<Rightarrow> registry \<Rightarrow> registry" where
  "registry_perform (RLease name) r = fst (Lease name r)"
| "registry_perform (RRelease token) r = call_release token r"
| "registry_perform RClose r = Close r"

definition publish :: "build \<Rightarrow> nat list \<Rightarrow> registry \<Rightarrow> registry \<times> apply_error option" where
  "publish b dropped r =
     (if reg_closed r then (r\<lparr>closes := closes r @ b_dialled b\<rparr>, Some RegistryClosed)
      else (fold retire dropped (r\<lparr>hosts := b_next b\<rparr>), None))"

definition Apply :: "(endpoint \<Rightarrow> bool) \<Rightarrow> registry_op list \<Rightarrow> endpoint list \<Rightarrow> registry \<Rightarrow> registry \<times> apply_error option" where
  "Apply dial during endpoints r =
     (if reg_closed r then (r, Some RegistryClosed)
      else let current = hosts r;
               (b, err) = apply_entries dial current endpoints
                 \<lparr>b_next = [], b_retired = [], b_dialled = [], b_heap = heap r\<rparr>;
               r1 = fold registry_perform during (r\<lparr>heap := b_heap b\<rparr>)
           in case err of
                Some (e, closing) \<Rightarrow> (r1\<lparr>closes := closes r1 @ closing\<rparr>, Some e)
              | None \<Rightarrow>
                  let removed = map snd (filter (\<lambda>(name, _). \<not> mhas (b_next b) name) current)
                  in publish b (b_retired b @ removed) r1)"

definition NewRegistry :: "(endpoint \<Rightarrow> bool) \<Rightarrow> endpoint list \<Rightarrow> registry \<times> apply_error option" where
  "NewRegistry dial endpoints =
     (case Apply dial [] endpoints empty_registry of
        (r, None) \<Rightarrow> (r, None)
      | (r, Some e) \<Rightarrow> (Close r, Some e))"

end
