(* ===== verification/Registry_Props.thy ===== *)
theory Registry_Props
  imports Registry
begin

text \<open>
  What holds of the Host registry: under every interleaving of leases, releases, reloads
  and the final close, no client is closed twice or under a Job that holds it, and no
  connection is leaked, except by an inventory that is refused for a name.
\<close>

section \<open>The invariant\<close>

abbreviation live :: "registry \<Rightarrow> nat set" where
  "live r \<equiv> snd ` set (hosts r)"

abbreviation held :: "registry \<Rightarrow> nat \<Rightarrow> nat" where
  "held r i \<equiv> mcount ((=) i) (tokens r)"

text \<open>
  Every entry of the heap is in exactly one place: a live Host, retired and still leased,
  closed, a stray (\<open>P\<close>: dialled and not published), or on its way out (\<open>Q\<close>: dropped by the
  inventory being published).
\<close>

definition entry_ok :: "nat set \<Rightarrow> nat set \<Rightarrow> registry \<Rightarrow> nat \<Rightarrow> bool" where
  "entry_ok P Q r i \<longleftrightarrow> he_leases (heap r ! i) = int (held r i)
     \<and> (i \<in> live r \<union> Q \<longrightarrow> \<not> he_retired (heap r ! i) \<and> \<not> he_closed (heap r ! i))
     \<and> (i \<in> set (retired r) \<longrightarrow> he_retired (heap r ! i) \<and> \<not> he_closed (heap r ! i) \<and> 0 < held r i)
     \<and> (i \<in> set (closes r) \<longrightarrow> he_closed (heap r ! i) \<and> reg_closed r \<or> held r i = 0)
     \<and> (i \<in> P \<longrightarrow> held r i = 0 \<and> \<not> he_retired (heap r ! i) \<and> \<not> he_closed (heap r ! i))"

definition places_ok :: "nat set \<Rightarrow> nat set \<Rightarrow> registry \<Rightarrow> bool" where
  "places_ok P Q r \<longleftrightarrow> gomap_ok (hosts r) \<and> distinct (map snd (hosts r) @ retired r @ closes r)
     \<and> (live r \<union> set (retired r) \<union> set (closes r)) \<inter> (P \<union> Q) = {} \<and> P \<inter> Q = {}
     \<and> live r \<union> set (retired r) \<union> set (closes r) \<union> P \<union> Q = {..<length (heap r)}
     \<and> (reg_closed r \<longrightarrow> hosts r = [] \<and> retired r = [])"

definition tokens_ok :: "registry \<Rightarrow> bool" where
  "tokens_ok r \<longleftrightarrow> gomap_ok (tokens r) \<and> (\<forall>(t, i) \<in> set (tokens r). t < next_token r \<and> i < length (heap r))"

definition reg_inv :: "nat set \<Rightarrow> nat set \<Rightarrow> registry \<Rightarrow> bool" where
  "reg_inv P Q r \<longleftrightarrow> places_ok P Q r \<and> tokens_ok r \<and> (\<forall>i < length (heap r). entry_ok P Q r i)"

lemma empty_inv: "reg_inv {} {} empty_registry"
  by (simp add: reg_inv_def places_ok_def tokens_ok_def empty_registry_def)

lemma inv_entry: "reg_inv P Q r \<Longrightarrow> i < length (heap r) \<Longrightarrow> entry_ok P Q r i"
  by (simp add: reg_inv_def)

lemma mget_snd: "mget m k = Some v \<Longrightarrow> v \<in> snd ` set m"
  by (force dest: map_of_SomeD)

lemma inv_live: "reg_inv P Q r \<Longrightarrow> mget (hosts r) name = Some i \<Longrightarrow> i \<in> live r \<and> i < length (heap r)"
  using mget_snd [of "hosts r" name i] by (auto simp: reg_inv_def places_ok_def)

lemma inv_token:
  assumes "reg_inv P Q r" "mget (tokens r) t = Some i"
  shows "i < length (heap r)" "0 < held r i" "i \<notin> P"
proof -
  show i: "i < length (heap r)"
    using assms map_of_SomeD [OF assms(2)] by (auto simp: reg_inv_def tokens_ok_def)
  show "0 < held r i"
    using assms by (intro mcount_pos [of _ t i]) (auto simp: reg_inv_def tokens_ok_def)
  with inv_entry [OF assms(1) i] show "i \<notin> P" by (auto simp: entry_ok_def)
qed

lemma set_mput: "set (mput k v m) \<subseteq> insert (k, v) (set m)"
  by (induction m) auto

lemma set_mdel: "set (mdel k m) \<subseteq> set m"
  by (induction m) auto

lemma places_cong:
  assumes "places_ok P Q r" "hosts r' = hosts r" "retired r' = retired r" "closes r' = closes r"
    "length (heap r') = length (heap r)" "reg_closed r' = reg_closed r"
  shows "places_ok P Q r'"
  using assms unfolding places_ok_def by simp

section \<open>Leases and releases\<close>

lemma Lease_inv:
  assumes inv: "reg_inv P Q r"
  shows "reg_inv P Q (fst (Lease name r))"
proof (cases "mget (hosts r) name")
  case (Some i)
  note i = inv_live [OF inv Some]
  let ?r = "fst (Lease name r)"
  have tok: "gomap_ok (tokens r)" "\<forall>(t, i) \<in> set (tokens r). t < next_token r \<and> i < length (heap r)"
    and places: "places_ok P Q r" using inv by (auto simp: reg_inv_def tokens_ok_def)
  have none: "mget (tokens r) (next_token r) = None" using tok by (force simp: map_of_eq_None_iff)
  have held: "held ?r j = held r j + (if j = i then 1 else 0)" for j
    using mcount_mput [OF tok(1), of "(=) j" "next_token r" i] none by (simp add: Lease_def Some)
  have out: "i \<notin> set (retired r)" "i \<notin> set (closes r)" "i \<notin> P"
    using places i by (auto simp: places_ok_def)
  have "entry_ok P Q ?r j" if "j < length (heap r)" for j
    using inv_entry [OF inv that] out held [of j] i
    by (cases "j = i") (simp_all add: entry_ok_def Lease_def Some)
  moreover have "tokens_ok ?r"
    using tok i set_mput [of "next_token r" i "tokens r"]
    by (auto simp: tokens_ok_def Lease_def Some less_Suc_eq)
  moreover have "places_ok P Q ?r" by (rule places_cong [OF places]) (simp_all add: Lease_def Some)
  ultimately show ?thesis by (simp add: reg_inv_def) (simp add: Lease_def Some)
qed (simp add: Lease_def inv)

lemma retired_to_closed:
  assumes "places_ok P Q r" "i \<in> set (retired r)" "retired r' = remove1 i (retired r)" "closes r' = closes r @ [i]"
    "hosts r' = hosts r" "length (heap r') = length (heap r)" "reg_closed r' = reg_closed r"
  shows "places_ok P Q r'"
proof -
  have d: "distinct (retired r)" using assms(1) by (simp add: places_ok_def)
  then have R: "set (remove1 i (retired r)) = set (retired r) - {i}" "distinct (remove1 i (retired r))" by auto
  have "i \<notin> live r" "i \<notin> set (closes r)" using assms(1,2) by (auto simp: places_ok_def)
  then have "distinct (map snd (hosts r) @ remove1 i (retired r) @ closes r @ [i])"
    using assms(1) R by (simp add: places_ok_def disjoint_iff)
  moreover have "live r \<union> set (remove1 i (retired r)) \<union> set (closes r @ [i]) = live r \<union> set (retired r) \<union> set (closes r)"
    using R(1) assms(2) by auto
  moreover have "reg_closed r \<longrightarrow> remove1 i (retired r) = []" using assms(1) by (auto simp: places_ok_def)
  ultimately show ?thesis using assms(1) unfolding places_ok_def assms(3-7) by simp
qed

lemma call_release_inv:
  assumes inv: "reg_inv P Q r"
  shows "reg_inv P Q (call_release token r)"
proof (cases "mget (tokens r) token")
  case (Some i)
  note i = inv_token [OF inv Some]
  note e = inv_entry [OF inv i(1)]
  have tok: "gomap_ok (tokens r)" "\<forall>(t, i) \<in> set (tokens r). t < next_token r \<and> i < length (heap r)"
    and places: "places_ok P Q r" using inv by (auto simp: reg_inv_def tokens_ok_def)
  let ?toks = "mdel token (tokens r)"
  let ?r1 = "r\<lparr>tokens := ?toks, heap := (heap r)[i := (heap r ! i)\<lparr>he_leases := he_leases (heap r ! i) - 1\<rparr>]\<rparr>"
  have held: "mcount ((=) j) ?toks = held r j - (if j = i then 1 else 0)" for j
    using mcount_mdel [OF tok(1), of "(=) j" token] Some by auto
  have toks: "gomap_ok ?toks" "\<forall>(t, i) \<in> set ?toks. t < next_token r \<and> i < length (heap r)"
    using tok set_mdel [of token "tokens r"] by auto
  let ?e = "heap r ! i"
  show ?thesis
  proof (cases "he_retired ?e \<and> \<not> he_closed ?e \<and> held r i = 1")
    case True
    then have out: "he_leases ?e = 1" using e by (simp add: entry_ok_def)
    have R: "i \<in> set (retired r)"
      using e True i places by (auto simp: entry_ok_def places_ok_def)
    let ?r2 = "?r1\<lparr>heap := (heap r)[i := ?e\<lparr>he_leases := 0, he_closed := True\<rparr>], retired := remove1 i (retired r), closes := closes r @ [i]\<rparr>"
    have r2: "call_release token r = ?r2"
      using out True i(1)
      by (simp add: call_release_def Some release_def releasableLocked_def forgetRetiredLocked_def Let_def)
    have places2: "places_ok P Q ?r2"
      by (rule retired_to_closed [OF places R]) simp_all
    have notR: "i \<notin> set (remove1 i (retired r))" using places by (simp add: places_ok_def)
    have notL: "i \<notin> live r" "i \<notin> Q" using R places by (auto simp: places_ok_def)
    have "entry_ok P Q ?r2 j" if "j < length (heap r)" for j
    proof (cases "j = i")
      case True
      with held [of i] \<open>he_retired ?e \<and> \<not> he_closed ?e \<and> held r i = 1\<close> i notR notL show ?thesis
        by (simp add: entry_ok_def)
    next
      case False
      with inv_entry [OF inv that] held [of j] show ?thesis by (auto simp: entry_ok_def)
    qed
    with places2 toks show ?thesis unfolding r2 by (simp add: reg_inv_def tokens_ok_def)
  next
    case False
    have "\<not> (he_retired ?e \<and> \<not> he_closed ?e \<and> \<not> 0 < he_leases ?e - 1)"
      using False e i(2) by (auto simp: entry_ok_def)
    then have r2: "call_release token r = ?r1"
      using i(1) by (auto simp: call_release_def Some release_def releasableLocked_def Let_def)
    have "entry_ok P Q ?r1 j" if "j < length (heap r)" for j
    proof (cases "j = i")
      case True
      with inv_entry [OF inv that] held [of i] False i show ?thesis by (auto simp: entry_ok_def)
    next
      case False
      with inv_entry [OF inv that] held [of j] show ?thesis by (auto simp: entry_ok_def)
    qed
    moreover have "places_ok P Q ?r1" by (rule places_cong [OF places]) simp_all
    ultimately show ?thesis unfolding r2 using toks by (simp add: reg_inv_def tokens_ok_def)
  qed
qed (simp add: call_release_def inv)

section \<open>Closing and retiring\<close>

lemma fold_update_nth:
  "distinct xs \<Longrightarrow> j < length h \<Longrightarrow>
     fold (\<lambda>i h. h[i := f (h ! i)]) xs h ! j = (if j \<in> set xs then f (h ! j) else h ! j)"
proof (induction xs arbitrary: h)
  case (Cons a xs)
  then show ?case by (cases "a = j") auto
qed simp

lemma fold_update_length [simp]: "length (fold (\<lambda>i h. h[i := f (h ! i)]) xs h) = length h"
  by (induction xs arbitrary: h) auto

lemma Close_inv:
  assumes inv: "reg_inv P Q r"
  shows "reg_inv P Q (Close r)"
proof (cases "reg_closed r")
  case False
  let ?es = "map snd (hosts r) @ retired r"
  have places: "places_ok P Q r" and tok: "tokens_ok r" using inv by (auto simp: reg_inv_def)
  then have d: "distinct ?es" and sub: "set ?es \<subseteq> {..<length (heap r)}" by (auto simp: places_ok_def)
  have "\<not> he_closed (heap r ! i)" if "i \<in> set ?es" for i
    using inv_entry [OF inv, of i] that sub by (auto simp: entry_ok_def)
  then have all: "filter (\<lambda>i. \<not> he_closed (heap r ! i)) ?es = ?es" by (simp only: filter_id_conv) auto
  let ?h = "fold (\<lambda>i h. h[i := (h ! i)\<lparr>he_closed := True\<rparr>]) ?es (heap r)"
  let ?r = "r\<lparr>reg_closed := True, hosts := [], retired := [], heap := ?h, closes := closes r @ ?es\<rparr>"
  have r: "Close r = ?r" using False all by (simp only: Close_def Let_def if_False)
  have "entry_ok P Q ?r j" if "j < length (heap r)" for j
    using inv_entry [OF inv that] fold_update_nth [OF d that, of "\<lambda>e. e\<lparr>he_closed := True\<rparr>"] False places
    by (auto simp: entry_ok_def places_ok_def)
  moreover have "places_ok P Q ?r" using places by (auto simp: places_ok_def)
  ultimately show ?thesis using tok unfolding r by (simp add: reg_inv_def tokens_ok_def)
qed (simp add: Close_def inv)

lemma retire_inv:
  assumes inv: "reg_inv P Q r" and i: "i \<in> Q" and opn: "\<not> reg_closed r"
  shows "reg_inv P (Q - {i}) (retire i r)" "reg_closed (retire i r) = reg_closed r"
proof -
  have places: "places_ok P Q r" and tok: "tokens_ok r" using inv by (auto simp: reg_inv_def)
  then have il: "i < length (heap r)" and out: "i \<notin> live r" "i \<notin> set (retired r)" "i \<notin> set (closes r)" "i \<notin> P"
    using i by (auto simp: places_ok_def)
  note e = inv_entry [OF inv il]
  let ?e = "heap r ! i"
  have fl: "\<not> he_closed ?e" "he_leases ?e = int (held r i)" using e i by (auto simp: entry_ok_def)
  let ?c = "r\<lparr>heap := (heap r)[i := ?e\<lparr>he_retired := True, he_closed := True\<rparr>], closes := closes r @ [i]\<rparr>"
  let ?k = "r\<lparr>heap := (heap r)[i := ?e\<lparr>he_retired := True\<rparr>], retired := retired r @ [i]\<rparr>"
  have r: "retire i r = (if held r i = 0 then ?c else ?k)"
    using il fl by (simp add: retire_def releasableLocked_def Let_def)
  have "places_ok P (Q - {i}) ?c" "places_ok P (Q - {i}) ?k"
    using places i out opn unfolding places_ok_def by auto
  moreover have "entry_ok P (Q - {i}) ?c j" if "j < length (heap r)" "held r i = 0" for j
    using inv_entry [OF inv that(1)] that(2) fl out il by (cases "j = i") (auto simp: entry_ok_def)
  moreover have "entry_ok P (Q - {i}) ?k j" if "j < length (heap r)" "held r i \<noteq> 0" for j
    using inv_entry [OF inv that(1)] that(2) fl out il by (cases "j = i") (auto simp: entry_ok_def)
  ultimately show "reg_inv P (Q - {i}) (retire i r)"
    using tok unfolding r by (simp add: reg_inv_def tokens_ok_def)
  show "reg_closed (retire i r) = reg_closed r" unfolding r by simp
qed

lemma retire_all_inv:
  assumes "reg_inv P Q r" "distinct dropped" "set dropped = Q" "\<not> reg_closed r"
  shows "reg_inv P {} (fold retire dropped r)"
  using assms
proof (induction dropped arbitrary: Q r)
  case (Cons i js)
  have i: "i \<in> Q" using Cons.prems by auto
  have "set js = Q - {i}" using Cons.prems by auto
  with Cons.IH [OF retire_inv(1) [OF Cons.prems(1) i Cons.prems(4)]] retire_inv(2) [OF Cons.prems(1) i Cons.prems(4)]
    Cons.prems(2,4) show ?case by simp
qed simp

lemma perform_inv: "reg_inv P Q r \<Longrightarrow> reg_inv P Q (registry_perform op r)"
  by (cases op) (auto intro: Lease_inv call_release_inv Close_inv)

lemma performs_inv: "reg_inv P Q r \<Longrightarrow> reg_inv P Q (fold registry_perform ops r)"
  by (induction ops arbitrary: r) (auto intro: perform_inv)

text \<open>What the other goroutines leave alone.\<close>

lemma perform_hosts: "reg_closed (registry_perform op r) \<or> hosts (registry_perform op r) = hosts r"
  by (cases op) (auto simp: Lease_def call_release_def release_def releasableLocked_def forgetRetiredLocked_def
      Close_def Let_def split: option.split)

lemma perform_closed: "reg_closed r \<Longrightarrow> reg_closed (registry_perform op r)"
  by (cases op) (auto simp: Lease_def call_release_def release_def releasableLocked_def forgetRetiredLocked_def
      Close_def Let_def split: option.split)

lemma performs_hosts: "reg_closed (fold registry_perform ops r) \<or> hosts (fold registry_perform ops r) = hosts r"
proof (induction ops arbitrary: r)
  case (Cons op ops)
  have "reg_closed (fold registry_perform ops r')" if "reg_closed r'" for r'
    using that by (induction ops arbitrary: r') (auto simp: perform_closed)
  with Cons [of "registry_perform op r"] perform_hosts [of op r] show ?case by auto
qed simp

section \<open>Reloads\<close>

text \<open>What the loop over the endpoints has built, relative to the registry it started from.\<close>

definition fresh_entry :: "host_entry \<Rightarrow> bool" where
  "fresh_entry e \<longleftrightarrow> he_leases e = 0 \<and> \<not> he_retired e \<and> \<not> he_closed e"

definition build_ok :: "registry \<Rightarrow> build \<Rightarrow> bool" where
  "build_ok r b \<longleftrightarrow> (\<exists>new. b_heap b = heap r @ new \<and> (\<forall>e \<in> set new. fresh_entry e))
     \<and> b_dialled b = [length (heap r)..<length (b_heap b)]
     \<and> gomap_ok (b_next b) \<and> distinct (map snd (b_next b))
     \<and> (\<forall>name i. mget (b_next b) name = Some i \<longrightarrow> mget (hosts r) name = Some i \<or> i \<in> set (b_dialled b))
     \<and> set (b_dialled b) \<subseteq> snd ` set (b_next b)
     \<and> distinct (b_retired b)
     \<and> set (b_retired b) = {i. \<exists>name j. mget (hosts r) name = Some i \<and> mget (b_next b) name = Some j \<and> j \<noteq> i}"

lemma snd_mput_fresh: "mget m k = None \<Longrightarrow> map snd (mput k v m) = map snd m @ [v]"
  by (induction m) (auto split: if_splits)

lemma snd_in_mget: "gomap_ok m \<Longrightarrow> v \<in> snd ` set m \<longleftrightarrow> (\<exists>k. mget m k = Some v)"
  by (force simp: mget_in_set [symmetric])

lemma mget_inj:
  "distinct (map snd m) \<Longrightarrow> mget m k = Some v \<Longrightarrow> mget m k' = Some v \<Longrightarrow> k = k'"
  by (induction m) (auto dest: mget_snd split: if_splits)

lemma build_ok_value:
  assumes "build_ok r b" "mget (b_next b) n = Some i"
  shows "mget (hosts r) n = Some i \<or> length (heap r) \<le> i \<and> i < length (b_heap b)"
proof -
  have "mget (hosts r) n = Some i \<or> i \<in> set (b_dialled b)" "b_dialled b = [length (heap r)..<length (b_heap b)]"
    using assms unfolding build_ok_def by blast+
  then show ?thesis by auto
qed

lemma build_ok_kept:
  assumes b: "build_ok r b" and r: "places_ok P {} r" and none: "mget (b_next b) name = None"
    and cur: "mget (hosts r) name = Some i"
  shows "build_ok r (b\<lparr>b_next := mput name i (b_next b)\<rparr>)"
proof -
  have inj: "distinct (map snd (hosts r))" and il: "i < length (heap r)"
    using r mget_snd [OF cur] by (auto simp: places_ok_def)
  have ok: "gomap_ok (b_next b)" using b by (simp add: build_ok_def)
  have "i \<notin> snd ` set (b_next b)"
  proof
    assume "i \<in> snd ` set (b_next b)"
    then obtain name' where n: "mget (b_next b) name' = Some i" using snd_in_mget [OF ok] by auto
    then have "mget (hosts r) name' = Some i" using build_ok_value [OF b n] il by auto
    with mget_inj [OF inj cur] have "name' = name" by simp
    with n none show False by simp
  qed
  then have "distinct (map snd (mput name i (b_next b)))"
    using b by (simp add: snd_mput_fresh [OF none] build_ok_def)
  moreover have "snd ` set (b_next b) \<subseteq> snd ` set (mput name i (b_next b))"
    using snd_mput_fresh [OF none, of i] by (metis Un_upper1 list.set_map set_append)
  moreover have "{x. \<exists>n j. mget (hosts r) n = Some x \<and> mget (mput name i (b_next b)) n = Some j \<and> j \<noteq> x}
      = {x. \<exists>n j. mget (hosts r) n = Some x \<and> mget (b_next b) n = Some j \<and> j \<noteq> x}"
    using cur none by (auto split: if_splits) (metis option.distinct(1))
  ultimately show ?thesis using b cur unfolding build_ok_def by (auto split: if_splits)
qed

lemma build_ok_dialled:
  assumes b: "build_ok r b" and r: "places_ok P {} r" and none: "mget (b_next b) name = None" and e: "fresh_entry e"
  shows "build_ok r \<lparr>b_next = mput name (length (b_heap b)) (b_next b),
    b_retired = (case mget (hosts r) name of Some i \<Rightarrow> b_retired b @ [i] | None \<Rightarrow> b_retired b),
    b_dialled = b_dialled b @ [length (b_heap b)], b_heap = b_heap b @ [e]\<rparr>"
proof -
  let ?d = "length (b_heap b)" and ?next = "mput name (length (b_heap b)) (b_next b)"
  obtain new where new: "b_heap b = heap r @ new" "\<forall>x \<in> set new. fresh_entry x"
    using b by (auto simp: build_ok_def)
  then have dl: "[length (heap r)..<?d] @ [?d] = [length (heap r)..<length (b_heap b @ [e])]" by simp
  have ok: "gomap_ok (b_next b)" and inj: "distinct (map snd (hosts r))"
    using b r by (auto simp: build_ok_def places_ok_def)
  have old: "i < length (heap r)" if "mget (hosts r) n = Some i" for n i
    using r mget_snd [OF that] by (auto simp: places_ok_def)
  have "?d \<notin> snd ` set (b_next b)"
  proof
    assume "?d \<in> snd ` set (b_next b)"
    then obtain n where n: "mget (b_next b) n = Some ?d" using snd_in_mget [OF ok] by auto
    from build_ok_value [OF b n] have "mget (hosts r) n = Some ?d" by simp
    from old [OF this] show False using new(1) by simp
  qed
  moreover have snds: "map snd ?next = map snd (b_next b) @ [?d]" by (rule snd_mput_fresh [OF none])
  moreover have "distinct (map snd (b_next b))" using b unfolding build_ok_def by blast
  ultimately have "distinct (map snd ?next)" by simp
  moreover have "set (map snd ?next) = insert ?d (set (map snd (b_next b)))" unfolding snds by simp
  then have "snd ` set ?next = insert ?d (snd ` set (b_next b))" by simp
  moreover
  let ?ret = "case mget (hosts r) name of Some i \<Rightarrow> b_retired b @ [i] | None \<Rightarrow> b_retired b"
  have old_ret: "distinct (b_retired b)"
    "set (b_retired b) = {i. \<exists>n j. mget (hosts r) n = Some i \<and> mget (b_next b) n = Some j \<and> j \<noteq> i}"
    using b unfolding build_ok_def by blast+
  have other: "mget ?next n = mget (b_next b) n" if "n \<noteq> name" for n using that by simp
  have "distinct ?ret \<and> set ?ret = {i. \<exists>n j. mget (hosts r) n = Some i \<and> mget ?next n = Some j \<and> j \<noteq> i}"
  proof (cases "mget (hosts r) name")
    case None
    then have "(mget (hosts r) n = Some i \<and> mget ?next n = Some j \<and> j \<noteq> i)
        = (mget (hosts r) n = Some i \<and> mget (b_next b) n = Some j \<and> j \<noteq> i)" for n i j
      by (cases "n = name") auto
    with None old_ret show ?thesis by simp
  next
    case (Some i)
    have i: "?d \<noteq> i" using old [OF Some] new by auto
    have "i \<notin> set (b_retired b)"
    proof
      assume "i \<in> set (b_retired b)"
      then obtain n j where "mget (hosts r) n = Some i" "mget (b_next b) n = Some j" unfolding old_ret(2) by blast
      with mget_inj [OF inj Some] none show False by auto
    qed
    moreover have "(\<exists>n j. mget (hosts r) n = Some x \<and> mget ?next n = Some j \<and> j \<noteq> x)
        \<longleftrightarrow> x = i \<or> (\<exists>n j. mget (hosts r) n = Some x \<and> mget (b_next b) n = Some j \<and> j \<noteq> x)" (is "?L \<longleftrightarrow> ?R") for x
    proof
      assume ?L
      then obtain n j where n: "mget (hosts r) n = Some x" "mget ?next n = Some j" "j \<noteq> x" by blast
      show ?R
      proof (cases "n = name")
        case True
        with n(1) Some show ?thesis by simp
      next
        case False
        with n other [OF False] show ?thesis by auto
      qed
    next
      assume ?R
      moreover have ?L if "x = i"
        using Some i that by (intro exI [of _ name] exI [of _ ?d]) simp
      moreover have ?L if "mget (hosts r) n = Some x" "mget (b_next b) n = Some j" "j \<noteq> x" for n j
      proof -
        have "n \<noteq> name" using that(2) none by auto
        with that other show ?thesis by (intro exI [of _ n] exI [of _ j]) simp
      qed
      ultimately show ?L by blast
    qed
    ultimately show ?thesis using Some old_ret by auto
  qed
  ultimately show ?thesis
    using b new e dl unfolding build_ok_def by (auto split: if_splits)
qed

lemma apply_entries_ok:
  "build_ok r b \<Longrightarrow> places_ok P {} r \<Longrightarrow> build_ok r (fst (apply_entries dial (hosts r) eps b))"
proof (induction eps arbitrary: b)
  case (Cons ep eps)
  have fr: "fresh_entry \<lparr>he_ep = ep, he_leases = 0, he_retired = False, he_closed = False\<rparr>"
    by (simp add: fresh_entry_def)
  show ?case
  proof (cases "mget (b_next b) (ep_name ep)")
    case None
    note dialled = build_ok_dialled [OF Cons.prems None fr]
    show ?thesis
      using Cons.prems Cons.IH None dialled build_ok_kept [OF Cons.prems None]
      by (cases "mget (hosts r) (ep_name ep)") auto
  qed (use Cons.prems in auto)
qed simp

lemma dropped_entries:
  assumes b: "build_ok r b" and r: "places_ok P {} r"
  shows "distinct (b_retired b @ map snd (filter (\<lambda>(n, _). \<not> mhas (b_next b) n) (hosts r)))"
    "set (b_retired b @ map snd (filter (\<lambda>(n, _). \<not> mhas (b_next b) n) (hosts r))) = live r - snd ` set (b_next b)"
proof -
  let ?rem = "map snd (filter (\<lambda>(n, _). \<not> mhas (b_next b) n) (hosts r))"
  have h: "gomap_ok (hosts r)" "distinct (map snd (hosts r))" and n: "gomap_ok (b_next b)"
    using r b by (auto simp: places_ok_def build_ok_def)
  note inj = mget_inj [OF h(2)]
  have lt: "i < length (heap r)" if "mget (hosts r) k = Some i" for k i
    using r mget_snd [OF that] by (auto simp: places_ok_def)
  have ret: "distinct (b_retired b)"
    "set (b_retired b) = {i. \<exists>n j. mget (hosts r) n = Some i \<and> mget (b_next b) n = Some j \<and> j \<noteq> i}"
    using b unfolding build_ok_def by blast+
  have rem: "set ?rem = {i. \<exists>n. mget (hosts r) n = Some i \<and> mget (b_next b) n = None}"
    using mget_in_set [OF h(1)] by force
  have "distinct ?rem" using h(2) by (rule distinct_map_filter)
  moreover have "set (b_retired b) \<inter> set ?rem = {}"
    unfolding ret(2) rem using inj by (auto) (metis option.distinct(1))
  ultimately show "distinct (b_retired b @ ?rem)" using ret(1) by simp
  have "i \<in> set (b_retired b) \<union> set ?rem \<longleftrightarrow> (\<exists>n. mget (hosts r) n = Some i \<and> mget (b_next b) n \<noteq> Some i)" for i
    unfolding ret(2) rem by (auto simp: not_None_eq) (metis option.exhaust)
  moreover have "(\<exists>n. mget (hosts r) n = Some i \<and> mget (b_next b) n \<noteq> Some i) \<longleftrightarrow> i \<in> live r - snd ` set (b_next b)" for i
  proof
    assume "\<exists>n. mget (hosts r) n = Some i \<and> mget (b_next b) n \<noteq> Some i"
    then obtain k where k: "mget (hosts r) k = Some i" "mget (b_next b) k \<noteq> Some i" by blast
    have "mget (b_next b) k' \<noteq> Some i" for k'
      using build_ok_value [OF b, of k' i] lt [OF k(1)] inj [OF k(1), of k'] k(2) by auto
    with k(1) show "i \<in> live r - snd ` set (b_next b)" by (simp add: snd_in_mget [OF h(1)] snd_in_mget [OF n]) blast
  next
    assume "i \<in> live r - snd ` set (b_next b)"
    then show "\<exists>n. mget (hosts r) n = Some i \<and> mget (b_next b) n \<noteq> Some i"
      by (auto simp: snd_in_mget [OF h(1)] snd_in_mget [OF n])
  qed
  ultimately show "set (b_retired b @ ?rem) = live r - snd ` set (b_next b)"
    unfolding set_append by blast
qed

lemma dialled_inv:
  assumes inv: "reg_inv P {} r" and b: "build_ok r b"
  shows "reg_inv (P \<union> set (b_dialled b)) {} (r\<lparr>heap := b_heap b\<rparr>)" "P \<inter> set (b_dialled b) = {}"
proof -
  obtain new where new: "b_heap b = heap r @ new" "\<forall>e \<in> set new. fresh_entry e"
    and d: "b_dialled b = [length (heap r)..<length (b_heap b)]"
    using b unfolding build_ok_def by blast
  have D: "set (b_dialled b) = {length (heap r)..<length (heap r) + length new}" using d new(1) by simp
  have places: "places_ok P {} r" and tok: "tokens_ok r" using inv by (auto simp: reg_inv_def)
  then have sub: "live r \<union> set (retired r) \<union> set (closes r) \<union> P = {..<length (heap r)}" by (simp add: places_ok_def)
  let ?U = "live r \<union> set (retired r) \<union> set (closes r)"
  have below: "?U \<subseteq> {..<length (heap r)}" "P \<subseteq> {..<length (heap r)}" using sub by blast+
  have above: "{..<length (heap r)} \<inter> set (b_dialled b) = {}" unfolding D by auto
  show "P \<inter> set (b_dialled b) = {}" using below(2) above by blast
  let ?r = "r\<lparr>heap := b_heap b\<rparr>" and ?P = "P \<union> set (b_dialled b)"
  have "?U \<union> ?P = {..<length (heap r)} \<union> set (b_dialled b)" unfolding sub [symmetric] by (simp only: Un_assoc)
  also have "\<dots> = {..<length (b_heap b)}" unfolding D new(1) by auto
  finally have "?U \<union> ?P = {..<length (b_heap b)}" .
  moreover have "?U \<inter> ?P = {}" using places below(1) above unfolding places_ok_def by blast
  ultimately have "places_ok ?P {} ?r" using places by (simp add: places_ok_def)
  moreover have "entry_ok ?P {} ?r j" if "j < length (heap r @ new)" for j
  proof (cases "j < length (heap r)")
    case True
    then have "j \<notin> set (b_dialled b)" unfolding D by simp
    with inv_entry [OF inv True] True show ?thesis by (simp add: entry_ok_def new(1) nth_append)
  next
    case False
    then have e: "fresh_entry (b_heap b ! j)" using that new by (auto simp: nth_append)
    have "held r j = 0"
    proof (rule ccontr)
      assume "held r j \<noteq> 0"
      then have "filter (\<lambda>kv. j = snd kv) (tokens r) \<noteq> []" by (auto simp: mcount_def)
      then obtain t where "(t, j) \<in> set (tokens r)" by (force simp: filter_empty_conv)
      with tok False show False by (auto simp: tokens_ok_def)
    qed
    moreover have "j \<notin> live r \<union> set (retired r) \<union> set (closes r)" using sub False by auto
    ultimately show ?thesis using e by (auto simp: entry_ok_def fresh_entry_def)
  qed
  ultimately show "reg_inv ?P {} ?r" using tok new(1) by (auto simp: reg_inv_def tokens_ok_def)
qed

lemma close_strays_inv:
  assumes inv: "reg_inv (P \<union> D) {} r" and "distinct xs" "set xs = D" "P \<inter> D = {}"
  shows "reg_inv P {} (r\<lparr>closes := closes r @ xs\<rparr>)"
proof -
  let ?r = "r\<lparr>closes := closes r @ xs\<rparr>"
  have places: "places_ok (P \<union> D) {} r" and tok: "tokens_ok r" using inv by (auto simp: reg_inv_def)
  then have "places_ok P {} ?r" using assms(2-4) by (auto simp: places_ok_def)
  moreover have "entry_ok P {} ?r j" if "j < length (heap r)" for j
    using inv_entry [OF inv that] assms(3,4) by (auto simp: entry_ok_def)
  ultimately show ?thesis using tok by (simp add: reg_inv_def tokens_ok_def)
qed

lemma publish_sets:
  fixes L R C P D N :: "nat set"
  assumes "(L \<union> R \<union> C) \<inter> (P \<union> D) = {}" "L \<inter> (R \<union> C) = {}" "P \<inter> D = {}" "D \<subseteq> N" "N \<subseteq> L \<union> D"
  shows "N \<inter> (R \<union> C) = {}" "(N \<union> R \<union> C) \<inter> (P \<union> (L - N)) = {}" "P \<inter> (L - N) = {}"
    "N \<union> R \<union> C \<union> P \<union> (L - N) = L \<union> R \<union> C \<union> (P \<union> D)"
  using assms by blast+

lemma publish_inv:
  assumes inv: "reg_inv (P \<union> set (b_dialled b)) {} r1" and b: "build_ok r b" and h: "hosts r1 = hosts r"
    and r: "places_ok P' {} r" and opn: "\<not> reg_closed r1" and disj: "P \<inter> set (b_dialled b) = {}"
    and Q: "Q = live r - snd ` set (b_next b)"
  shows "reg_inv P Q (r1\<lparr>hosts := b_next b\<rparr>)"
proof -
  let ?D = "set (b_dialled b)" and ?r = "r1\<lparr>hosts := b_next b\<rparr>" and ?N = "snd ` set (b_next b)"
  have places: "places_ok (P \<union> ?D) {} r1" and tok: "tokens_ok r1" using inv by (auto simp: reg_inv_def)
  have n: "gomap_ok (b_next b)" "distinct (map snd (b_next b))" "?D \<subseteq> ?N" using b unfolding build_ok_def by blast+
  have NR: "?N \<subseteq> live r \<union> ?D"
  proof
    fix i assume "i \<in> ?N"
    then obtain k where "mget (b_next b) k = Some i" using snd_in_mget [OF n(1)] by auto
    then have "mget (hosts r) k = Some i \<or> i \<in> ?D" using b unfolding build_ok_def by blast
    with mget_snd [of "hosts r" k i] show "i \<in> live r \<union> ?D" by auto
  qed
  have p: "(live r \<union> set (retired r1) \<union> set (closes r1)) \<inter> (P \<union> ?D) = {}"
    "live r \<inter> (set (retired r1) \<union> set (closes r1)) = {}"
    "live r \<union> set (retired r1) \<union> set (closes r1) \<union> (P \<union> ?D) = {..<length (heap r1)}"
    "distinct (retired r1 @ closes r1)"
    using places unfolding places_ok_def h by (simp_all add: Un_assoc)
  note q = publish_sets [OF p(1,2) disj n(3) NR]
  have "places_ok P Q ?r"
    using n(1,2) p(4) opn q(1-3) q(4) [unfolded p(3)] unfolding places_ok_def Q by simp
  moreover have "entry_ok P Q ?r j" if "j < length (heap r1)" for j
    using inv_entry [OF inv that] NR disj n(3) h unfolding Q by (auto simp: entry_ok_def)
  ultimately show ?thesis using tok by (simp add: reg_inv_def tokens_ok_def)
qed


text \<open>Which clients \<open>Apply\<close> closes on its error exits, and when it has one.\<close>

lemma apply_entries_step:
  assumes "ep_name ep \<noteq> []" "mget (b_next b) (ep_name ep) = None"
  shows "apply_entries dial cur (ep # eps) b = (b, Some (DialFailed ep, b_dialled b))
    \<or> (\<exists>b' i. b_next b' = mput (ep_name ep) i (b_next b)
          \<and> apply_entries dial cur (ep # eps) b = apply_entries dial cur eps b')"
proof -
  have "\<exists>b' i. b_next b' = mput (ep_name ep) i (b_next b) \<and> apply_entries dial cur eps x = apply_entries dial cur eps b'"
    if "b_next x = mput (ep_name ep) i (b_next b)" for x i using that by blast
  then show ?thesis
    using assms by (cases "mget cur (ep_name ep)"; cases "dial ep") (simp_all split: if_split)
qed

lemma apply_entries_error:
  "snd (apply_entries dial cur eps b) = Some (e, closing) \<Longrightarrow>
     closing = b_dialled (fst (apply_entries dial cur eps b)) \<and> (\<exists>ep. e = DialFailed ep)
   \<or> closing = [] \<and> (\<forall>ep. e \<noteq> DialFailed ep)"
proof (induction eps arbitrary: b)
  case (Cons ep eps)
  show ?case
  proof (cases "ep_name ep = [] \<or> mhas (b_next b) (ep_name ep)")
    case True
    with Cons.prems show ?thesis by (cases "ep_name ep = []") auto
  next
    case False
    then have "ep_name ep \<noteq> []" "mget (b_next b) (ep_name ep) = None" by auto
    from apply_entries_step [OF this, of dial cur eps] show ?thesis
    proof
      assume "apply_entries dial cur (ep # eps) b = (b, Some (DialFailed ep, b_dialled b))"
      with Cons.prems show ?thesis by auto
    next
      assume "\<exists>b' i. b_next b' = mput (ep_name ep) i (b_next b)
          \<and> apply_entries dial cur (ep # eps) b = apply_entries dial cur eps b'"
      with Cons.prems Cons.IH show ?thesis by metis
    qed
  qed
qed simp

definition inventory_ok :: "endpoint list \<Rightarrow> bool" where
  "inventory_ok eps \<longleftrightarrow> distinct (map ep_name eps) \<and> [] \<notin> set (map ep_name eps)"

lemma apply_entries_named:
  "inventory_ok eps \<Longrightarrow> (\<forall>ep \<in> set eps. mget (b_next b) (ep_name ep) = None) \<Longrightarrow>
     snd (apply_entries dial cur eps b) = Some (e, closing) \<Longrightarrow> \<exists>ep. e = DialFailed ep"
proof (induction eps arbitrary: b)
  case (Cons ep eps)
  have ok: "inventory_ok eps" "ep_name ep \<notin> set (map ep_name eps)" "ep_name ep \<noteq> []"
    using Cons.prems(1) by (auto simp: inventory_ok_def)
  have "\<forall>x \<in> set eps. mget (mput (ep_name ep) i (b_next b)) (ep_name x) = None" for i
    using ok(2) Cons.prems(2) by (auto simp: image_iff)
  moreover have "mget (b_next b) (ep_name ep) = None" using Cons.prems(2) by simp
  from apply_entries_step [OF ok(3) this, of dial cur eps] show ?case
  proof
    assume "apply_entries dial cur (ep # eps) b = (b, Some (DialFailed ep, b_dialled b))"
    with Cons.prems(3) show ?thesis by auto
  next
    assume "\<exists>b' i. b_next b' = mput (ep_name ep) i (b_next b)
        \<and> apply_entries dial cur (ep # eps) b = apply_entries dial cur eps b'"
    with Cons.prems(3) Cons.IH [OF ok(1)] calculation show ?thesis by metis
  qed
qed simp

lemma Apply_inv:
  assumes inv: "reg_inv P {} r" and app: "Apply dial during eps r = (r', err)"
  shows "\<exists>D. reg_inv (P \<union> D) {} r' \<and> (inventory_ok eps \<longrightarrow> D = {})"
proof (cases "reg_closed r")
  case True
  with app inv show ?thesis by (intro exI [of _ "{}"]) (auto simp: Apply_def)
next
  case False
  define b0 where "b0 = \<lparr>b_next = [], b_retired = [], b_dialled = [], b_heap = heap r\<rparr>"
  obtain b err0 where be: "apply_entries dial (hosts r) eps b0 = (b, err0)" by fastforce
  have places: "places_ok P {} r" using inv by (simp add: reg_inv_def)
  have "build_ok r b0" by (simp add: build_ok_def b0_def)
  from apply_entries_ok [OF this places, of dial eps] be have b: "build_ok r b" by simp
  define r1 where "r1 = fold registry_perform during (r\<lparr>heap := b_heap b\<rparr>)"
  let ?D = "set (b_dialled b)"
  have inv1: "reg_inv (P \<union> ?D) {} r1" unfolding r1_def by (rule performs_inv [OF dialled_inv(1) [OF inv b]])
  note disj = dialled_inv(2) [OF inv b]
  have dd: "distinct (b_dialled b)" using b unfolding build_ok_def by (metis distinct_upt)
  note closed_all = close_strays_inv [OF inv1 dd refl disj]
  show ?thesis
  proof (cases err0)
    case (Some ec)
    obtain e closing where ec: "ec = (e, closing)" by (cases ec)
    have sp: "snd (apply_entries dial (hosts r) eps b0) = Some (e, closing)" using be Some ec by simp
    have r': "r' = r1\<lparr>closes := closes r1 @ closing\<rparr>"
      using app False be Some ec unfolding Apply_def b0_def r1_def by (auto simp: Let_def)
    from apply_entries_error [OF sp] be
    have "closing = b_dialled b \<or> closing = [] \<and> (\<forall>ep. e \<noteq> DialFailed ep)" by auto
    then show ?thesis
    proof
      assume "closing = b_dialled b"
      with closed_all r' show ?thesis by (intro exI [of _ "{}"]) simp
    next
      assume c: "closing = [] \<and> (\<forall>ep. e \<noteq> DialFailed ep)"
      then have "\<not> inventory_ok eps" using apply_entries_named [OF _ _ sp] by (auto simp: b0_def)
      with c inv1 r' show ?thesis by (intro exI [of _ ?D]) simp
    qed
  next
    case None
    let ?dropped = "b_retired b @ map snd (filter (\<lambda>(n, _). \<not> mhas (b_next b) n) (hosts r))"
    have pub: "publish b ?dropped r1 = (r', err)"
      using app False be None unfolding Apply_def b0_def r1_def by (simp add: Let_def)
    show ?thesis
    proof (cases "reg_closed r1")
      case True
      with pub closed_all show ?thesis by (intro exI [of _ "{}"]) (auto simp: publish_def)
    next
      case False
      have h: "hosts r1 = hosts r"
        using False performs_hosts [of during "r\<lparr>heap := b_heap b\<rparr>"] by (simp add: r1_def)
      have "reg_inv P (live r - snd ` set (b_next b)) (r1\<lparr>hosts := b_next b\<rparr>)"
        by (rule publish_inv [OF inv1 b h places False disj refl])
      then have "reg_inv P {} (fold retire ?dropped (r1\<lparr>hosts := b_next b\<rparr>))"
        using dropped_entries [OF b places] False by (intro retire_all_inv) auto
      with pub False show ?thesis by (intro exI [of _ "{}"]) (auto simp: publish_def)
    qed
  qed
qed

section \<open>Every run of a registry\<close>

text \<open>Reloads come one at a time; the other operations come between them and during them.\<close>

datatype reg_call =
    CallApply "endpoint \<Rightarrow> bool" "registry_op list" "endpoint list"
  | CallOp registry_op

fun do_call :: "reg_call \<Rightarrow> registry \<Rightarrow> registry" where
  "do_call (CallApply dial during eps) r = fst (Apply dial during eps r)"
| "do_call (CallOp op) r = registry_perform op r"

fun call_ok :: "reg_call \<Rightarrow> bool" where
  "call_ok (CallApply dial during eps) = inventory_ok eps"
| "call_ok (CallOp op) = True"

lemma calls_inv:
  "reg_inv P {} r \<Longrightarrow> \<exists>D. reg_inv (P \<union> D) {} (fold do_call cs r) \<and> (list_all call_ok cs \<longrightarrow> D = {})"
proof (induction cs arbitrary: P r)
  case (Cons c cs)
  have "\<exists>D. reg_inv (P \<union> D) {} (do_call c r) \<and> (call_ok c \<longrightarrow> D = {})"
  proof (cases c)
    case (CallApply dial during eps)
    with Apply_inv [OF Cons.prems, of dial during eps] show ?thesis by (cases "Apply dial during eps r") auto
  next
    case (CallOp op)
    with perform_inv [OF Cons.prems] show ?thesis by (intro exI [of _ "{}"]) auto
  qed
  then obtain D where D: "reg_inv (P \<union> D) {} (do_call c r)" "call_ok c \<longrightarrow> D = {}" by blast
  from Cons.IH [OF D(1)] obtain E where
    "reg_inv (P \<union> D \<union> E) {} (fold do_call cs (do_call c r))" "list_all call_ok cs \<longrightarrow> E = {}" by blast
  with D(2) show ?case by (intro exI [of _ "D \<union> E"]) (auto simp: Un_assoc)
qed (auto intro!: exI [of _ "{}"])

text \<open>
  C31: a Job keeps the Host it runs on. In every run of a registry, whatever reloads do while
  Jobs take and return leases, no client is closed twice, and a client under an outstanding
  lease is not closed as long as the registry itself is open.
\<close>

theorem leased_client_stays_open:
  assumes "r = fold do_call cs empty_registry"
  shows "distinct (closes r)
    \<and> (\<not> reg_closed r \<longrightarrow> (\<forall>t i. mget (tokens r) t = Some i \<longrightarrow> i \<notin> set (closes r)))"
proof -
  obtain P where inv: "reg_inv P {} r" using calls_inv [OF empty_inv, of cs] assms by auto
  have "i \<notin> set (closes r)" if "\<not> reg_closed r" "mget (tokens r) t = Some i" for t i
    using inv_token [OF inv that(2)] inv_entry [OF inv, of i] that(1) by (auto simp: entry_ok_def)
  with inv show ?thesis by (auto simp: reg_inv_def places_ok_def)
qed

definition host_ep :: "string \<Rightarrow> string \<Rightarrow> endpoint" where
  "host_ep name addr = \<lparr>ep_name = name, ep_address = addr, ep_token = [],
     ep_tls = \<lparr>tls_ca_file = [], tls_cert_file = [], tls_key_file = [], tls_insecure = True\<rparr>\<rparr>"

definition reload_run :: "reg_call list" where
  "reload_run = [CallApply (\<lambda>_. True) [] [host_ep ''h'' ''a:1''], CallOp (RLease ''h''),
     CallApply (\<lambda>_. True) [] [host_ep ''h'' ''b:1'']]"

lemmas registry_defs = Apply_def publish_def retire_def releasableLocked_def Lease_def call_release_def release_def
  forgetRetiredLocked_def Close_def empty_registry_def Let_def

theorem leased_client_stays_open_witness:
  "let r = fold do_call reload_run empty_registry
   in \<not> reg_closed r \<and> mget (tokens r) 0 = Some 0 \<and> 0 \<notin> set (closes r) \<and> retired r = [0]"
proof -
  let ?r = "fold do_call reload_run empty_registry"
  have "\<not> reg_closed ?r" "mget (tokens ?r) 0 = Some 0" "retired ?r = [0]"
    by (simp_all add: reload_run_def registry_defs host_ep_def)
  with leased_client_stays_open [of ?r reload_run] show ?thesis by (simp add: Let_def)
qed

text \<open>
  C32: reloads leak no connection. When every inventory applied names each Host once, every
  client ever dialled is the one of a live Host, or of a retired one with a lease still
  outstanding, or has been closed; and once the registry is closed all of them have been.
\<close>

theorem reload_leaks_nothing:
  assumes "r = fold do_call cs empty_registry" "list_all call_ok cs"
  shows "{..<length (heap r)} = live r \<union> set (retired r) \<union> set (closes r)
    \<and> (\<forall>i \<in> set (retired r). \<exists>t. mget (tokens r) t = Some i)
    \<and> (reg_closed r \<longrightarrow> set (closes r) = {..<length (heap r)})"
proof -
  have inv: "reg_inv {} {} r" using calls_inv [OF empty_inv, of cs] assms by auto
  then have all: "live r \<union> set (retired r) \<union> set (closes r) = {..<length (heap r)}"
    and cl: "reg_closed r \<longrightarrow> hosts r = [] \<and> retired r = []" by (auto simp: reg_inv_def places_ok_def)
  have "\<exists>t. mget (tokens r) t = Some i" if "i \<in> set (retired r)" for i
  proof -
    have "i < length (heap r)" using that all by blast
    then have "0 < held r i" using inv_entry [OF inv, of i] that by (simp add: entry_ok_def)
    then obtain t where "(t, i) \<in> set (tokens r)" by (auto simp: mcount_def filter_empty_conv)
    moreover have "gomap_ok (tokens r)" using inv by (simp add: reg_inv_def tokens_ok_def)
    ultimately show ?thesis using mget_in_set by metis
  qed
  moreover have "set (closes r) = {..<length (heap r)}" if "reg_closed r"
    using all cl that by simp
  ultimately show ?thesis unfolding all by blast
qed

theorem reload_leaks_nothing_witness:
  "let r = fold do_call (reload_run @ [CallOp (RRelease 0), CallOp RClose]) empty_registry
   in list_all call_ok (reload_run @ [CallOp (RRelease 0), CallOp RClose])
    \<and> reg_closed r \<and> set (closes r) = {..<length (heap r)} \<and> length (heap r) = 2"
proof -
  let ?cs = "reload_run @ [CallOp (RRelease 0), CallOp RClose]"
  let ?r = "fold do_call ?cs empty_registry"
  have ok: "list_all call_ok ?cs" by (simp add: reload_run_def inventory_ok_def host_ep_def)
  have "reg_closed ?r" "length (heap ?r) = 2"
    by (simp_all add: reload_run_def registry_defs host_ep_def)
  moreover from this(1) reload_leaks_nothing [OF refl ok] have "set (closes ?r) = {..<length (heap ?r)}" by blast
  ultimately show ?thesis using ok unfolding Let_def by blast
qed

lemma apply_entries_fresh:
  assumes "inventory_ok eps" "\<forall>ep \<in> set eps. dial ep"
  shows "\<forall>ep \<in> set eps. mget (b_next b) (ep_name ep) = None \<Longrightarrow>
    \<exists>b'. apply_entries dial [] (eps @ rest) b = apply_entries dial [] rest b'
      \<and> length (b_heap b') = length (b_heap b) + length eps
      \<and> (\<forall>n. mget (b_next b') n \<noteq> None \<longleftrightarrow> mget (b_next b) n \<noteq> None \<or> n \<in> ep_name ` set eps)"
  using assms
proof (induction eps arbitrary: b)
  case (Cons ep eps)
  let ?b = "\<lparr>b_next = mput (ep_name ep) (length (b_heap b)) (b_next b), b_retired = b_retired b,
    b_dialled = b_dialled b @ [length (b_heap b)],
    b_heap = b_heap b @ [\<lparr>he_ep = ep, he_leases = 0, he_retired = False, he_closed = False\<rparr>]\<rparr>"
  have step: "apply_entries dial [] ((ep # eps) @ rest) b = apply_entries dial [] (eps @ rest) ?b"
    using Cons.prems by (auto simp: inventory_ok_def)
  have "\<forall>x \<in> set eps. mget (b_next ?b) (ep_name x) = None" "inventory_ok eps"
    using Cons.prems by (auto simp: inventory_ok_def image_iff)
  with Cons.IH [of ?b] Cons.prems(3) obtain b' where
    "apply_entries dial [] (eps @ rest) ?b = apply_entries dial [] rest b'"
    "length (b_heap b') = Suc (length (b_heap b) + length eps)"
    "\<forall>n. mget (b_next b') n \<noteq> None \<longleftrightarrow> mget (b_next ?b) n \<noteq> None \<or> n \<in> ep_name ` set eps" by auto
  then show ?case unfolding step by (intro exI [of _ b']) auto
qed auto

text \<open>
  An inventory refused for a name leaks what was dialled for it. When a start-up
  inventory lists a Host it has already dialled a second time, \<open>NewRegistry\<close> fails, and none
  of the clients dialled before that entry is ever closed.
\<close>

theorem refused_inventory_leaks:
  assumes "inventory_ok eps" "\<forall>ep \<in> set eps. dial ep" "ep \<in> set eps"
    and "NewRegistry dial (eps @ [ep]) = (r, err)"
  shows "err = Some (ListedTwice (ep_name ep)) \<and> length (heap r) = length eps \<and> closes r = []"
proof -
  let ?b = "\<lparr>b_next = [], b_retired = [], b_dialled = [], b_heap = []\<rparr> :: build"
  obtain b' where b': "apply_entries dial [] (eps @ [ep]) ?b = apply_entries dial [] [ep] b'"
    "length (b_heap b') = length eps" "\<forall>n. mget (b_next b') n \<noteq> None \<longleftrightarrow> n \<in> ep_name ` set eps"
    using apply_entries_fresh [OF assms(1,2), of ?b "[ep]"] by auto
  have "ep_name ep \<in> ep_name ` set eps" using assms(3) by simp
  moreover have "[] \<notin> ep_name ` set eps" using assms(1) by (simp add: inventory_ok_def)
  ultimately have "ep_name ep \<noteq> []" "mget (b_next b') (ep_name ep) \<noteq> None" using b'(3) by metis+
  then have "apply_entries dial [] (eps @ [ep]) ?b = (b', Some (ListedTwice (ep_name ep), []))"
    unfolding b'(1) by simp
  then have "Apply dial [] (eps @ [ep]) empty_registry
      = (empty_registry\<lparr>heap := b_heap b'\<rparr>, Some (ListedTwice (ep_name ep)))"
    by (simp add: Apply_def empty_registry_def)
  with assms(4) b'(2) show ?thesis by (auto simp: NewRegistry_def Close_def empty_registry_def)
qed

theorem refused_inventory_leaks_witness:
  "\<exists>r. NewRegistry (\<lambda>_. True) [host_ep ''h'' ''a:1'', host_ep ''h'' ''a:1''] = (r, Some (ListedTwice ''h''))
     \<and> length (heap r) = 1 \<and> closes r = []"
proof -
  obtain r err where r: "NewRegistry (\<lambda>_. True) ([host_ep ''h'' ''a:1''] @ [host_ep ''h'' ''a:1'']) = (r, err)" by fastforce
  from refused_inventory_leaks [OF _ _ _ r] r show ?thesis by (auto simp: inventory_ok_def host_ep_def)
qed

end
