(* ===== verification/Config_Types.thy ===== *)
theory Config_Types
  imports Prelude
begin

text \<open>
  The schema of \<open>internal/config/types.go\<close>: one record per section of the configuration
  file, with its fields in the order the source declares them. Go's string-typed
  enumerations stay strings, because a file may hold any text there and validation is what
  narrows it; a pointer that may be nil is an option.
\<close>

section \<open>Client TLS and the GitLab section\<close>

record client_tls =
  ct_ca_file :: string
  ct_cert_file :: string
  ct_key_file :: string
  ct_insecure :: bool

record gitlab =
  gl_url :: string
  gl_token :: string
  gl_name :: string
  gl_concurrent :: int
  gl_check_interval :: duration
  gl_output_limit_kb :: int
  gl_shutdown_timeout :: duration
  gl_tls :: client_tls
  gl_allow_insecure :: bool

section \<open>Profiles\<close>

abbreviation ArchAMD64 :: string where "ArchAMD64 \<equiv> ''amd64''"
abbreviation ArchARM64 :: string where "ArchARM64 \<equiv> ''arm64''"

record kernel =
  k_image :: string
  k_filename :: string
  k_cmdline :: "(string, string) gomap"

record initrd =
  ird_image :: string
  ird_filename :: string

record volume =
  vol_id :: string
  vol_image :: string
  vol_mount_point :: string
  vol_read_only :: bool
  vol_size_mb :: int

abbreviation TransportExec :: string where "TransportExec \<equiv> ''exec''"
abbreviation TransportSSH :: string where "TransportSSH \<equiv> ''ssh''"

record ssh_transport =
  ssh_user :: string
  ssh_private_key_file :: string
  ssh_known_host_key :: string

record transport =
  tp_kind :: string
  tp_ssh :: ssh_transport

abbreviation ReplenishImmediateOnLease :: string where "ReplenishImmediateOnLease \<equiv> ''immediate_on_lease''"
abbreviation ReplenishMinSizeThreshold :: string where "ReplenishMinSizeThreshold \<equiv> ''min_size_threshold''"
abbreviation ReplenishReplaceOnDelete :: string where "ReplenishReplaceOnDelete \<equiv> ''replace_on_delete''"

abbreviation HookFailureDeleteAndReplace :: string where "HookFailureDeleteAndReplace \<equiv> ''delete_and_replace''"
abbreviation HookFailureQuarantine :: string where "HookFailureQuarantine \<equiv> ''quarantine''"

record pool_settings =
  ps_size :: int
  ps_name :: string
  ps_namespace :: string
  ps_strategy :: string
  ps_min_size :: "int option"
  ps_create_hooks :: "string list"
  ps_pre_lease_hooks :: "string list"
  ps_hook_failure_policy :: string
  ps_heartbeat_interval :: duration
  ps_heartbeat_expiry :: duration

record profile =
  pr_name :: string
  pr_arch :: string
  pr_vcpu :: int
  pr_memory_mb :: int
  pr_kernel :: kernel
  pr_initrd :: "initrd option"
  pr_rootfs :: string
  pr_volumes :: "volume list"
  pr_provider :: string
  pr_user_data :: string
  pr_shell :: string
  pr_builds_dir :: string
  pr_cache_dir :: string
  pr_helper_path :: string
  pr_images :: "string list"
  pr_image_globs :: "string list"
  pr_default :: bool
  pr_transport :: transport
  pr_user :: string
  pr_ready_timeout :: duration
  pr_host_selector :: "(string, string) gomap"
  pr_max_concurrency :: int
  pr_pool :: pool_settings

section \<open>The Inventory\<close>

record service_addresses =
  sa_buildkit :: string
  sa_go_proxy :: string
  sa_registry_mirror :: string
  sa_http_cache :: "(string, string) gomap"

record installed_versions =
  iv_flintlock :: string
  iv_firecracker :: string
  iv_cloud_hypervisor :: string
  iv_containerd :: string

record inventory_host =
  ih_name :: string
  ih_endpoint :: string
  ih_arch :: string
  ih_vcpu :: int
  ih_memory_mb :: int
  ih_labels :: "(string, string) gomap"
  ih_token :: string
  ih_tls :: client_tls
  ih_services :: service_addresses
  ih_versions :: installed_versions

record inventory =
  inv_file :: string
  inv_hosts :: "inventory_host list"

section \<open>Pool Manager, Scheduler and Executor sections\<close>

abbreviation PoolBackendBattery :: string where "PoolBackendBattery \<equiv> ''battery''"
abbreviation PoolBackendClaim :: string where "PoolBackendClaim \<equiv> ''claim''"

record serving_ca =
  ca_namespace :: string
  ca_name :: string
  ca_key :: string

record claim_pools =
  cp_kubeconfig :: string
  cp_context :: string
  cp_namespace :: string
  cp_holder :: string
  cp_serving_ca :: serving_ca

record pool_manager =
  pm_backend :: string
  pm_claim :: "claim_pools option"
  pm_endpoint :: string
  pm_tls :: client_tls
  pm_deadline :: duration
  pm_health_backoff :: duration
  pm_health_interval :: duration
  pm_health_threshold :: int
  pm_events_poll :: duration
  pm_declare_retry :: duration
  pm_release_retry :: int

definition IsClaim :: "pool_manager \<Rightarrow> bool" where
  "IsClaim pm \<longleftrightarrow> pm_backend pm = PoolBackendClaim"

record scheduler_section =
  ss_namespace :: string
  ss_allocation_timeout :: duration
  ss_host_health_interval :: duration
  ss_host_unhealthy_threshold :: int
  ss_host_call_deadline :: duration
  ss_keep_on_failure :: bool
  ss_keep_duration :: duration
  ss_allow_default :: bool

record executor_section =
  es_prepare_timeout :: duration
  es_graceful_kill_timeout :: duration
  es_transport_deadline :: duration

section \<open>Host services and the rest\<close>

record service =
  sv_enabled :: "bool option"
  sv_port :: int

definition IsEnabled :: "service \<Rightarrow> bool" where
  "IsEnabled s \<longleftrightarrow> sv_enabled s = None \<or> sv_enabled s = Some True"

record buildkit =
  bk_service :: service
  bk_storage_limit :: int
  bk_gc_policy :: string

record go_proxy =
  gp_service :: service
  gp_upstream :: string
  gp_private_patterns :: "string list"
  gp_private_vcs_host :: string
  gp_credential_parameter :: string
  gp_private_revalidate :: duration
  gp_storage_limit :: int
  gp_prewarm :: "string list"

record registry_upstream =
  ru_url :: string
  ru_credential_parameter :: string

record registry_mirror =
  rm_service :: service
  rm_upstreams :: "registry_upstream list"
  rm_storage_limit :: int
  rm_prewarm :: "string list"

record http_upstream =
  hu_name :: string
  hu_url :: string
  hu_size_limit :: int
  hu_ttl :: duration
  hu_env_var :: string

record http_cache =
  ht_service :: service
  ht_upstreams :: "http_upstream list"

record cache_volume =
  cv_device :: string
  cv_directory :: string
  cv_size_cap :: int

record host_services =
  hs_buildkit :: buildkit
  hs_go_proxy :: go_proxy
  hs_registry_mirror :: registry_mirror
  hs_http_cache :: http_cache
  hs_cache_volume :: cache_volume

record distributed_cache =
  dc_bucket :: string
  dc_region :: string
  dc_prefix :: string
  dc_endpoint :: string
  dc_insecure :: bool

record observability =
  ob_log_format :: string
  ob_log_level :: string
  ob_listen_address :: string

record config =
  cf_gitlab :: gitlab
  cf_profiles :: "profile list"
  cf_inventory :: inventory
  cf_pool_manager :: pool_manager
  cf_scheduler :: scheduler_section
  cf_executor :: executor_section
  cf_host_services :: host_services
  cf_distributed_cache :: "distributed_cache option"
  cf_observability :: observability
  cf_state_dir :: string

end
