(* ===== verification/Scheduler.thy ===== *)
theory Scheduler
  imports Tracker Health Registry Config_Types
begin

text \<open>
  The state of the Scheduler (\<open>internal/scheduler/scheduler.go\<close>, \<open>handle.go\<close>,
  \<open>interfaces.go\<close>) and its accounting (\<open>capacity.go\<close>): Slots, Reservations,
  Allocations, the concurrency units of Profiles and the callers waiting on a Pool. Every
  critical section under \<open>s.mu\<close> or \<open>h.mu\<close> is one function.
\<close>

section \<open>Data\<close>

text \<open>A configured Profile with the Pool it is bound to.\<close>

record resolved_profile =
  rp_profile :: profile
  rp_ref :: pool_ref

abbreviation rp_name :: "resolved_profile \<Rightarrow> string" where
  "rp_name p \<equiv> pr_name (rp_profile p)"

abbreviation rp_max :: "resolved_profile \<Rightarrow> int" where
  "rp_max p \<equiv> pr_max_concurrency (rp_profile p)"

datatype refusal_reason =
    RefusalNone
  | RefusalNoFreeSlot
  | RefusalNoWarmMicroVM
  | RefusalPoolManagerNotContacted
  | RefusalShuttingDown

record reservation =
  res_id :: nat
  res_granted_at :: time

record job_info =
  job_id :: int
  job_image :: string

datatype placement_source = PlacementFromClaim | PlacementFromLookup

record placement =
  pl_host :: string
  pl_source :: placement_source
  pl_resolved_at :: time

record lease =
  ls_id :: string
  ls_pool :: pool_ref
  ls_expires_at :: time
  ls_last_heartbeat :: time

record allocation =
  al_job :: int
  al_profile :: string
  al_vm :: string
  al_lease :: lease
  al_placement :: placement
  al_host :: host_ref
  al_reservation :: nat
  al_claimed_at :: time

text \<open>
  What \<open>Handle.Err\<close> holds: the sentinel with what the message names. An unreachable Exec
  Agent wraps the same sentinel as an unhealthy Host, and both ways of losing a Lease wrap
  \<open>ErrLeaseLost\<close>.
\<close>

datatype handle_error =
    HostUnhealthy string
  | AgentUnreachable string int
  | LeaseExpired string time
  | LeaseGone string pm_error
  | ShutdownElapsed

datatype sentinel = ErrHostUnhealthy | ErrLeaseLost | ErrShutdown

fun wraps :: "handle_error \<Rightarrow> sentinel" where
  "wraps (HostUnhealthy h) = ErrHostUnhealthy"
| "wraps (AgentUnreachable l n) = ErrHostUnhealthy"
| "wraps (LeaseExpired l t) = ErrLeaseLost"
| "wraps (LeaseGone l e) = ErrLeaseLost"
| "wraps ShutdownElapsed = ErrShutdown"

text \<open>
  A live Allocation. \<open>h_beating\<close> is whether the context of its keep-alive loop is there
  and not cancelled.
\<close>

record handle =
  h_id :: nat
  h_vm :: string
  h_profile :: string
  h_placement :: placement
  h_alloc :: allocation
  h_err :: "handle_error option"
  h_done :: bool
  h_gone :: bool
  h_beating :: bool

datatype run_state = StateNew | StateRunning | StateStopping | StateStopped

record host_info =
  hi_version_known :: bool
  hi_version :: string
  hi_exec_enabled :: bool
  hi_ssh_proxy_enabled :: bool

record host_state =
  hs_healthy :: bool
  hs_failures :: int
  hs_last_probe_at :: time
  hs_info :: "host_info option"
  hs_info_logged :: "host_info option"

record settings =
  set_runner_name :: string
  set_namespace :: string
  set_slots :: int
  set_shutdown_timeout :: duration
  set_scheduler :: scheduler_section
  set_pool_manager :: pool_manager
  set_profiles :: "profile list"
  set_inventory :: "inventory_host list"

text \<open>
  The Scheduler. Handles are reached through pointers, so they live in a store under their
  id and \<open>sc_allocations\<close> is the list of the keys of the Allocation map. The channel
  \<open>profileFree\<close> goes by the number of times it has been replaced: every smaller number is
  closed. \<open>sc_drain\<close> is the channel the shutdown waits on, and \<open>sc_drained\<close> lists the
  ones that were closed. \<open>nextID\<close> is a \<open>uint64\<close> that counts up from zero and is kept as a
  natural number.
\<close>

record sched =
  sc_set :: settings
  sc_ready :: bool
  sc_state :: run_state
  sc_profiles :: "resolved_profile list"
  sc_reservations :: "(nat, time) gomap"
  sc_handles :: "(nat, handle) gomap"
  sc_allocations :: "nat list"
  sc_placements :: "(string, placement) gomap"
  sc_profile_use :: "(string, int) gomap"
  sc_profile_free :: nat
  sc_waiting :: "(pool_ref, int) gomap"
  sc_hosts :: "(string, host_state) gomap"
  sc_drain :: "nat option"
  sc_drained :: "nat list"
  sc_next_drain :: nat
  sc_next_id :: nat
  sc_bg_closed :: bool
  sc_bg_done :: bool
  sc_throttle :: "(string, time) gomap"

section \<open>Construction\<close>

definition resolve_one :: "string \<Rightarrow> profile \<Rightarrow> resolved_profile" where
  "resolve_one namespace p = \<lparr>rp_profile = p, rp_ref =
     \<lparr>ref_name = (if ps_name (pr_pool p) = [] then pr_name p else ps_name (pr_pool p)),
      ref_namespace = (if ps_namespace (pr_pool p) = [] then namespace else ps_namespace (pr_pool p))\<rparr>\<rparr>"

definition resolveProfiles :: "profile list \<Rightarrow> string \<Rightarrow> resolved_profile list" where
  "resolveProfiles ps namespace = map (resolve_one namespace) ps"

definition fresh_host :: host_state where
  "fresh_host = \<lparr>hs_healthy = True, hs_failures = 0, hs_last_probe_at = 0, hs_info = None, hs_info_logged = None\<rparr>"

fun reset_hosts :: "(string, host_state) gomap \<Rightarrow> inventory_host list \<Rightarrow> (string, host_state) gomap
    \<Rightarrow> (string, host_state) gomap" where
  "reset_hosts old [] nxt = nxt"
| "reset_hosts old (h # hs) nxt = reset_hosts old hs (case mget old (ih_name h) of
     Some st \<Rightarrow> mput (ih_name h) st nxt
   | None \<Rightarrow> mput (ih_name h) fresh_host nxt)"

definition resetHostsLocked :: "inventory_host list \<Rightarrow> sched \<Rightarrow> sched" where
  "resetHostsLocked inventory s = s\<lparr>sc_hosts := reset_hosts (sc_hosts s) inventory []\<rparr>"

datatype new_error = DependencyMissing | SlotsNotPositive int

text \<open>\<open>deps_given\<close> is whether every required dependency is there.\<close>

definition new_sched :: "settings \<Rightarrow> sched" where
  "new_sched cfg = resetHostsLocked (set_inventory cfg)
     \<lparr>sc_set = cfg, sc_ready = False, sc_state = StateNew,
      sc_profiles = resolveProfiles (set_profiles cfg) (set_namespace cfg),
      sc_reservations = [], sc_handles = [], sc_allocations = [], sc_placements = [], sc_profile_use = [],
      sc_profile_free = 0, sc_waiting = [], sc_hosts = [], sc_drain = None, sc_drained = [],
      sc_next_drain = 0, sc_next_id = 0, sc_bg_closed = False, sc_bg_done = False, sc_throttle = []\<rparr>"

definition New :: "bool \<Rightarrow> settings \<Rightarrow> new_error + sched" where
  "New deps_given cfg =
     (if \<not> deps_given then Inl DependencyMissing
      else if set_slots cfg \<le> 0 then Inl (SlotsNotPositive (set_slots cfg))
      else Inr (new_sched cfg))"

section \<open>Handles\<close>

definition newHandle :: "nat \<Rightarrow> allocation \<Rightarrow> handle" where
  "newHandle i alloc = \<lparr>h_id = i, h_vm = al_vm alloc, h_profile = al_profile alloc,
     h_placement = al_placement alloc, h_alloc = alloc, h_err = None, h_done = False, h_gone = False,
     h_beating = False\<rparr>"

text \<open>\<open>sync.Once\<close> makes every call of \<open>fail\<close> after the first one do nothing.\<close>

definition fail :: "handle_error \<Rightarrow> handle \<Rightarrow> handle" where
  "fail e h = (if h_done h then h else h\<lparr>h_err := Some e, h_done := True\<rparr>)"

definition setLease :: "lease \<Rightarrow> handle \<Rightarrow> handle" where
  "setLease l h = h\<lparr>h_alloc := (h_alloc h)\<lparr>al_lease := l\<rparr>\<rparr>"

abbreviation h_lease :: "handle \<Rightarrow> lease" where
  "h_lease h \<equiv> al_lease (h_alloc h)"

definition markLeaseGone :: "handle \<Rightarrow> handle" where
  "markLeaseGone h = h\<lparr>h_gone := True\<rparr>"

definition placementHost :: "handle \<Rightarrow> string" where
  "placementHost h = pl_host (h_placement h)"

text \<open>Reads and updates the handle behind a pointer; an address no handle has changes nothing.\<close>

definition on_handle :: "nat \<Rightarrow> (handle \<Rightarrow> handle) \<Rightarrow> sched \<Rightarrow> sched" where
  "on_handle i f s = (case mget (sc_handles s) i of
     None \<Rightarrow> s
   | Some h \<Rightarrow> s\<lparr>sc_handles := mput i (f h) (sc_handles s)\<rparr>)"

definition stopHeartbeat :: "nat \<Rightarrow> sched \<Rightarrow> sched" where
  "stopHeartbeat i s = on_handle i (\<lambda>h. h\<lparr>h_beating := False\<rparr>) s"

definition holds :: "nat \<Rightarrow> sched \<Rightarrow> bool" where
  "holds i s \<longleftrightarrow> i \<in> set (sc_allocations s)"

definition leaseIsGone :: "nat \<Rightarrow> sched \<Rightarrow> bool" where
  "leaseIsGone i s = (case mget (sc_handles s) i of None \<Rightarrow> False | Some h \<Rightarrow> h_gone h)"

section \<open>Capacity\<close>

definition slotsInUseLocked :: "sched \<Rightarrow> int" where
  "slotsInUseLocked s = int (length (sc_reservations s)) + int (length (sc_allocations s))"

fun warm_total :: "pool_availability list \<Rightarrow> int" where
  "warm_total [] = 0"
| "warm_total (pa # pas) =
     (if pa_declared pa \<and> st_available (pa_status pa) > 0 then st_available (pa_status pa) else 0) + warm_total pas"

text \<open>
  \<open>healthy\<close> is what the Health dependency answers. The Tracker asks the same dependency,
  so \<open>Pools\<close> is given the same answer.
\<close>

definition warmAvailable :: "bool \<Rightarrow> tracker \<Rightarrow> int" where
  "warmAvailable is_healthy t = (if \<not> is_healthy then 0 else warm_total (Pools (Some is_healthy) t))"

definition availableCapacityLocked :: "int \<Rightarrow> sched \<Rightarrow> int \<times> refusal_reason" where
  "availableCapacityLocked warm s =
     (let free = set_slots (sc_set s) - slotsInUseLocked s
      in if free \<le> 0 then (0, RefusalNoFreeSlot)
         else if warm \<le> 0 then (0, RefusalNoWarmMicroVM)
         else if warm < free then (warm, RefusalNone) else (free, RefusalNone))"

definition grant :: "time \<Rightarrow> int \<Rightarrow> sched \<Rightarrow> (refusal_reason + reservation) \<times> sched" where
  "grant now warm s = (case availableCapacityLocked warm s of (n, reason) \<Rightarrow>
     if n \<le> 0 then (Inl reason, s)
     else let i = Suc (sc_next_id s)
          in (Inr \<lparr>res_id = i, res_granted_at = now\<rparr>,
              s\<lparr>sc_next_id := i, sc_reservations := mput i now (sc_reservations s)\<rparr>))"

definition throttleWindow :: duration where
  "throttleWindow = 60 * second"

definition throttled :: "time \<Rightarrow> string \<Rightarrow> sched \<Rightarrow> bool \<times> sched" where
  "throttled now key s = (case mget (sc_throttle s) key of
     Some at \<Rightarrow> if time_sub now at < throttleWindow then (True, s)
                else (False, s\<lparr>sc_throttle := mput key now (sc_throttle s)\<rparr>)
   | None \<Rightarrow> (False, s\<lparr>sc_throttle := mput key now (sc_throttle s)\<rparr>))"

definition unthrottle :: "string \<Rightarrow> sched \<Rightarrow> sched" where
  "unthrottle key s = s\<lparr>sc_throttle := mdel key (sc_throttle s)\<rparr>"

fun reason_text :: "refusal_reason \<Rightarrow> string" where
  "reason_text RefusalNone = ''''"
| "reason_text RefusalNoFreeSlot = ''no_free_slot''"
| "reason_text RefusalNoWarmMicroVM = ''no_warm_microvm''"
| "reason_text RefusalPoolManagerNotContacted = ''pool_manager_not_contacted''"
| "reason_text RefusalShuttingDown = ''shutting_down''"

datatype reserve_error = ReserveContext ctx_error | Refused refusal_reason | ReserveNotRunning

definition refuse :: "time \<Rightarrow> refusal_reason \<Rightarrow> sched \<Rightarrow> reserve_error \<times> sched" where
  "refuse now reason s =
     (let r = (if reason = RefusalNone then RefusalNoWarmMicroVM else reason)
      in (Refused r, snd (throttled now (''refusal:'' @ reason_text r) s)))"

text \<open>\<open>contacted\<close> asks the Health dependency when \<open>ready\<close> is not closed yet, and closes it.\<close>

definition contacted_now :: "health \<Rightarrow> sched \<Rightarrow> bool \<times> sched" where
  "contacted_now h s =
     (if sc_ready s then (True, s)
      else if contacted h then (True, s\<lparr>sc_ready := True\<rparr>) else (False, s))"

definition Reserve :: "ctx_error option \<Rightarrow> time \<Rightarrow> health \<Rightarrow> tracker \<Rightarrow> sched
    \<Rightarrow> (reserve_error + reservation) \<times> sched" where
  "Reserve ctx now hm t s = (case ctx of
     Some e \<Rightarrow> (Inl (ReserveContext e), s)
   | None \<Rightarrow> (case sc_state s of
       StateStopping \<Rightarrow> (let (e, s1) = refuse now RefusalShuttingDown s in (Inl e, s1))
     | StateNew \<Rightarrow> (Inl ReserveNotRunning, s)
     | StateStopped \<Rightarrow> (Inl ReserveNotRunning, s)
     | StateRunning \<Rightarrow>
         (case contacted_now hm s of (ok, s1) \<Rightarrow>
            if \<not> ok then (let (e, s2) = refuse now RefusalPoolManagerNotContacted s1 in (Inl e, s2))
            else (case grant now (warmAvailable (Healthy now hm) t) s1 of
                    (Inr r, s2) \<Rightarrow> (Inr r, s2)
                  | (Inl reason, s2) \<Rightarrow> (let (e, s3) = refuse now reason s2 in (Inl e, s3))))))"

definition ReleaseReservation :: "reservation option \<Rightarrow> sched \<Rightarrow> sched" where
  "ReleaseReservation r s = (case r of
     None \<Rightarrow> s
   | Some r \<Rightarrow> s\<lparr>sc_reservations := mdel (res_id r) (sc_reservations s)\<rparr>)"

text \<open>\<open>convert\<close> is given the handle \<open>allocated\<close> built, which it also places in the store.\<close>

definition convert :: "nat \<Rightarrow> handle \<Rightarrow> sched \<Rightarrow> bool \<times> sched" where
  "convert r h s =
     (if \<not> mhas (sc_reservations s) r then (False, s)
      else (True, s\<lparr>sc_reservations := mdel r (sc_reservations s),
                    sc_handles := mput (h_id h) h (sc_handles s),
                    sc_allocations := sc_allocations s @ [h_id h],
                    sc_placements := mput (h_vm h) (h_placement h) (sc_placements s)\<rparr>))"

definition profile_use :: "string \<Rightarrow> sched \<Rightarrow> int" where
  "profile_use name s = (case mget (sc_profile_use s) name of None \<Rightarrow> 0 | Some n \<Rightarrow> n)"

definition releaseProfileLocked :: "string \<Rightarrow> sched \<Rightarrow> sched" where
  "releaseProfileLocked name s =
     (let n = profile_use name s
      in s\<lparr>sc_profile_use := (if n > 1 then mput name (n - 1) (sc_profile_use s) else mdel name (sc_profile_use s)),
           sc_profile_free := Suc (sc_profile_free s)\<rparr>)"

definition enterProfile :: "resolved_profile \<Rightarrow> sched \<Rightarrow> (bool \<times> nat) \<times> sched" where
  "enterProfile p s =
     (if rp_max p > 0 \<and> profile_use (rp_name p) s \<ge> rp_max p then ((False, sc_profile_free s), s)
      else ((True, sc_profile_free s),
            s\<lparr>sc_profile_use := mput (rp_name p) (profile_use (rp_name p) s + 1) (sc_profile_use s)\<rparr>))"

definition leaveProfile :: "resolved_profile \<Rightarrow> sched \<Rightarrow> sched" where
  "leaveProfile p s = releaseProfileLocked (rp_name p) s"

definition finish :: "nat \<Rightarrow> sched \<Rightarrow> bool \<times> sched" where
  "finish i s =
     (case mget (sc_handles s) i of
        None \<Rightarrow> (False, s)
      | Some h \<Rightarrow>
          if \<not> holds i s then (False, s)
          else let s1 = s\<lparr>sc_allocations := remove1 i (sc_allocations s),
                          sc_placements := mdel (h_vm h) (sc_placements s)\<rparr>;
                   s2 = releaseProfileLocked (h_profile h) s1
               in (True, case (sc_allocations s2, sc_drain s2) of
                           ([], Some c) \<Rightarrow> s2\<lparr>sc_drain := None, sc_drained := c # sc_drained s2\<rparr>
                         | _ \<Rightarrow> s2))"

text \<open>The channel \<open>drained\<close> returns; \<open>None\<close> is a fresh one that is closed already.\<close>

definition drained :: "sched \<Rightarrow> nat option \<times> sched" where
  "drained s =
     (if sc_allocations s = [] then (None, s)
      else case sc_drain s of
        Some c \<Rightarrow> (Some c, s)
      | None \<Rightarrow> (Some (sc_next_drain s),
                 s\<lparr>sc_drain := Some (sc_next_drain s), sc_next_drain := Suc (sc_next_drain s)\<rparr>))"

definition waiting_on :: "pool_ref \<Rightarrow> sched \<Rightarrow> int" where
  "waiting_on ref s = (case mget (sc_waiting s) ref of None \<Rightarrow> 0 | Some n \<Rightarrow> n)"

definition waitOnPool :: "pool_ref \<Rightarrow> int \<Rightarrow> sched \<Rightarrow> int \<times> sched" where
  "waitOnPool ref delta s =
     (let n = waiting_on ref s + delta
      in if n \<le> 0 then (0, s\<lparr>sc_waiting := mdel ref (sc_waiting s)\<rparr>)
         else (n, s\<lparr>sc_waiting := mput ref n (sc_waiting s)\<rparr>))"

end
