(* ===== verification/Scheduler_Alloc.thy ===== *)
theory Scheduler_Alloc
  imports Scheduler
begin

text \<open>
  How a Job gets its MicroVM (\<open>internal/scheduler/allocate.go\<close>, \<open>placement.go\<close>): the
  wait for a concurrency unit, the claim with its retries, the Placement of the claimed
  MicroVM and the conversion of the Reservation. A call of \<open>Allocate\<close> is a worker whose
  program counter names the point it has reached, and one step of it runs up to the next
  point where another goroutine may intervene.
\<close>

section \<open>Errors\<close>

datatype alloc_cause =
    CauseShutdown
  | CauseContext ctx_error
  | CauseProfileLimit
  | CauseTimeout
  | CausePoolManager pm_error
  | CausePlacementUnresolved
  | CauseHostNotInInventory string
  | CauseReservationReleased nat

record allocation_error =
  ae_profile :: string
  ae_pool :: pool_ref
  ae_host :: string
  ae_cause :: alloc_cause

datatype alloc_error =
    ReservationRequired
  | ProfileMissing string
  | AllocNotRunning
  | AllocationFailed allocation_error

definition alloc_failed :: "resolved_profile \<Rightarrow> string \<Rightarrow> alloc_cause \<Rightarrow> alloc_error" where
  "alloc_failed p host c =
     AllocationFailed \<lparr>ae_profile = rp_name p, ae_pool = rp_ref p, ae_host = host, ae_cause = c\<rparr>"

section \<open>Placement\<close>

definition cachedPlacement :: "string \<Rightarrow> sched \<Rightarrow> placement option" where
  "cachedPlacement uid s = (if uid = [] then None else mget (sc_placements s) uid)"

definition placementFromClaimStatus :: "time \<Rightarrow> claim \<Rightarrow> placement" where
  "placementFromClaimStatus now c =
     \<lparr>pl_host = host_name (claim_host c), pl_source = PlacementFromClaim, pl_resolved_at = now\<rparr>"

text \<open>The result says too whether an address mismatch was counted.\<close>

definition placementFromClaim :: "registry \<Rightarrow> time \<Rightarrow> resolved_profile \<Rightarrow> claim
    \<Rightarrow> (alloc_error + placement) \<times> bool" where
  "placementFromClaim reg now p c =
     (let name = host_name (claim_host c)
      in case Endpoint name reg of
           None \<Rightarrow> (Inl (alloc_failed p name (CauseHostNotInInventory name)), False)
         | Some ep \<Rightarrow>
             (Inr \<lparr>pl_host = name, pl_source = PlacementFromClaim, pl_resolved_at = now\<rparr>,
              host_address (claim_host c) \<noteq> [] \<and> host_address (claim_host c) \<noteq> ep_address ep))"

text \<open>What a Host answers to \<open>GetMicroVM\<close>; an answer without an error may still carry no MicroVM.\<close>

datatype vm_answer = VmFound | VmNil | VmNotFound | VmError

definition poolHosts :: "pm_error + string list \<Rightarrow> registry \<Rightarrow> string list" where
  "poolHosts answer reg = (case answer of
     Inr hs \<Rightarrow> if hs \<noteq> [] then hs else Names reg
   | Inl e \<Rightarrow> Names reg)"

text \<open>
  The loop over the Pool's Hosts: what each Host answers, and whether the context has ended
  after it was asked.
\<close>

fun lookup_hosts :: "registry \<Rightarrow> (string \<Rightarrow> vm_answer) \<Rightarrow> (string \<Rightarrow> ctx_error option) \<Rightarrow> time
    \<Rightarrow> resolved_profile \<Rightarrow> string list \<Rightarrow> alloc_error + placement" where
  "lookup_hosts reg vm ctx now p [] = Inl (alloc_failed p [] CausePlacementUnresolved)"
| "lookup_hosts reg vm ctx now p (name # names) =
     (if Get name reg = None then lookup_hosts reg vm ctx now p names
      else if vm name = VmFound then Inr \<lparr>pl_host = name, pl_source = PlacementFromLookup, pl_resolved_at = now\<rparr>
      else case ctx name of
             Some e \<Rightarrow> Inl (alloc_failed p [] (CauseContext e))
           | None \<Rightarrow> lookup_hosts reg vm ctx now p names)"

text \<open>What the environment does while an allocation runs, step by step.\<close>

datatype selected = SelFree | SelBackoff | SelWake | SelDeadline | SelContext ctx_error

record alloc_env =
  en_now :: time
  en_select :: selected
  en_claim :: "pm_error + claim"
  en_ctx :: "ctx_error option"
  en_built :: bool
  en_declared :: bool
  en_pool :: "pm_error + string list"
  en_vm :: "string \<Rightarrow> vm_answer"
  en_vm_ctx :: "string \<Rightarrow> ctx_error option"

definition placementFromLookup :: "registry \<Rightarrow> alloc_env \<Rightarrow> resolved_profile \<Rightarrow> alloc_error + placement" where
  "placementFromLookup reg env p =
     lookup_hosts reg (en_vm env) (en_vm_ctx env) (en_now env) p (poolHosts (en_pool env) reg)"

definition ResolvePlacement :: "registry \<Rightarrow> alloc_env \<Rightarrow> resolved_profile \<Rightarrow> claim option \<Rightarrow> sched
    \<Rightarrow> alloc_error + placement" where
  "ResolvePlacement reg env p c s = (case c of
     None \<Rightarrow> Inl (alloc_failed p [] CausePlacementUnresolved)
   | Some c \<Rightarrow> (case cachedPlacement (claim_vm c) s of
       Some pl \<Rightarrow> Inr pl
     | None \<Rightarrow>
         if host_name (claim_host c) \<noteq> [] then
           (if IsClaim (set_pool_manager (sc_set s)) then Inr (placementFromClaimStatus (en_now env) c)
            else fst (placementFromClaim reg (en_now env) p c))
         else placementFromLookup reg env p))"

section \<open>Declaring a Pool\<close>

text \<open>
  \<open>declare\<close>, with whether the spec could be built and whether the Declarer succeeded. The
  comparison of the Pool's Hosts with the Inventory only logs.
\<close>

definition declare_pool :: "bool \<Rightarrow> bool \<Rightarrow> resolved_profile \<Rightarrow> tracker \<Rightarrow> tracker" where
  "declare_pool built ok p t =
     (if \<not> built then Track (rp_ref p) False t
      else if \<not> ok then Track (rp_ref p) False t
      else Track (rp_ref p) True t)"

section \<open>The worker\<close>

text \<open>
  The Scheduler with the components it calls, and the work it starts beside the caller:
  a Lease that is handed back, by \<open>releaseInBackground\<close>.
\<close>

record world =
  wd_sched :: sched
  wd_tracker :: tracker
  wd_health :: health
  wd_registry :: registry

definition on_sched :: "(sched \<Rightarrow> sched) \<Rightarrow> world \<Rightarrow> world" where
  "on_sched f w = w\<lparr>wd_sched := f (wd_sched w)\<rparr>"

definition on_tracker :: "(tracker \<Rightarrow> tracker) \<Rightarrow> world \<Rightarrow> world" where
  "on_tracker f w = w\<lparr>wd_tracker := f (wd_tracker w)\<rparr>"

definition on_health :: "(health \<Rightarrow> health) \<Rightarrow> world \<Rightarrow> world" where
  "on_health f w = w\<lparr>wd_health := f (wd_health w)\<rparr>"

text \<open>
  Where a worker is: at the head of the loop in \<open>awaitProfileLimit\<close>, in its \<open>select\<close> with
  the channel it took, at the head of the loop in \<open>claim\<close> with the attempt and the
  \<open>waiting\<close> flag, in the \<open>ClaimVM\<close> call with the wake-up channel, in \<open>waitToRetry\<close>, in
  \<open>allocated\<close> before and after the Placement is known, and on the way out with the
  deferred calls still to be made.
\<close>

datatype alloc_pc =
    AwaitProfile
  | ProfileFull nat
  | Claiming nat bool
  | Asked nat bool nat
  | Retrying nat bool nat
  | Claimed bool claim
  | Placed bool claim time placement
  | Started bool nat
  | Failing bool alloc_error
  | Leaving alloc_error
  | Returned "alloc_error + nat"

record worker =
  wk_res :: nat
  wk_job :: job_info
  wk_prof :: resolved_profile
  wk_request :: string
  wk_pc :: alloc_pc

definition leaseExpiry :: "resolved_profile \<Rightarrow> duration" where
  "leaseExpiry p = (let d = ps_heartbeat_expiry (pr_pool (rp_profile p)) in if d > 0 then d else 30 * second)"

definition claimed_lease :: "resolved_profile \<Rightarrow> claim \<Rightarrow> time \<Rightarrow> lease" where
  "claimed_lease p c at =
     \<lparr>ls_id = claim_lease c, ls_pool = rp_ref p, ls_expires_at = at + leaseExpiry p, ls_last_heartbeat = 0\<rparr>"

definition allocationTimeout :: "settings \<Rightarrow> duration" where
  "allocationTimeout cfg = (let d = ss_allocation_timeout (set_scheduler cfg) in if d > 0 then d else 300 * second)"

text \<open>The checks at the head of \<open>Allocate\<close>, and the worker it becomes.\<close>

definition Allocate_begin :: "nat option \<Rightarrow> job_info \<Rightarrow> resolved_profile option \<Rightarrow> string \<Rightarrow> sched
    \<Rightarrow> alloc_error + worker" where
  "Allocate_begin r job p request s = (case (r, p) of
     (None, _) \<Rightarrow> Inl ReservationRequired
   | (Some _, None) \<Rightarrow> Inl (ProfileMissing (job_image job))
   | (Some i, Some p) \<Rightarrow> (case sc_state s of
       StateNew \<Rightarrow> Inl AllocNotRunning
     | StateStopped \<Rightarrow> Inl AllocNotRunning
     | StateStopping \<Rightarrow> Inl (alloc_failed p [] CauseShutdown)
     | StateRunning \<Rightarrow> Inr \<lparr>wk_res = i, wk_job = job, wk_prof = p, wk_request = request, wk_pc = AwaitProfile\<rparr>))"

text \<open>One turn of \<open>awaitProfileLimit\<close>. A receive from a channel that is still open blocks.\<close>

definition await_step :: "alloc_env \<Rightarrow> resolved_profile \<Rightarrow> alloc_pc \<Rightarrow> sched \<Rightarrow> alloc_pc \<times> sched" where
  "await_step env p pc s = (case pc of
     AwaitProfile \<Rightarrow> (case enterProfile p s of
       ((True, free), s1) \<Rightarrow> (Claiming 0 False, s1)
     | ((False, free), s1) \<Rightarrow> (ProfileFull free, s1))
   | ProfileFull free \<Rightarrow> (case en_select env of
       SelFree \<Rightarrow> if free < sc_profile_free s then (AwaitProfile, s) else (pc, s)
     | SelContext e \<Rightarrow> (Returned (Inl (alloc_failed p [] (CauseContext e))), s)
     | SelDeadline \<Rightarrow> (Returned (Inl (alloc_failed p [] CauseProfileLimit)), s)
     | _ \<Rightarrow> (pc, s))
   | _ \<Rightarrow> (pc, s))"

text \<open>What \<open>claim\<close> does with an answer that is an error, before it waits to retry.\<close>

definition claim_refused :: "health_config \<Rightarrow> alloc_env \<Rightarrow> resolved_profile \<Rightarrow> nat \<Rightarrow> bool \<Rightarrow> nat \<Rightarrow> pm_error
    \<Rightarrow> world \<Rightarrow> alloc_pc \<times> world" where
  "claim_refused hc env p attempt waits wake err w = (case err of
     ErrExhausted \<Rightarrow>
       (let w1 = on_tracker (MarkExhausted (rp_ref p)) w
        in if waits then (Retrying attempt True wake, w1)
           else (Retrying attempt True wake,
                 on_sched (\<lambda>s. snd (throttled (en_now env) (''exhausted:'' @ PoolRef_String (rp_ref p))
                             (snd (waitOnPool (rp_ref p) 1 s)))) w1))
   | ErrNotFound \<Rightarrow>
       (Retrying attempt waits wake,
        on_tracker (\<lambda>t. declare_pool (en_built env) (en_declared env) p (MarkExhausted (rp_ref p) t)) w)
   | ErrUnavailable \<Rightarrow> (Retrying attempt waits wake, on_health (MarkUnavailable hc (en_now env)) w)
   | ErrAborted \<Rightarrow> (Retrying attempt waits wake, w)
   | _ \<Rightarrow> (case en_ctx env of
       Some e \<Rightarrow> (Failing waits (alloc_failed p [] (CauseContext e)), w)
     | None \<Rightarrow> (Failing waits (alloc_failed p [] (CausePoolManager err)), w)))"

definition claim_step :: "health_config \<Rightarrow> alloc_env \<Rightarrow> resolved_profile \<Rightarrow> alloc_pc \<Rightarrow> world \<Rightarrow> alloc_pc \<times> world" where
  "claim_step hc env p pc w = (case pc of
     Claiming attempt waits \<Rightarrow>
       (case Wait (rp_ref p) (wd_tracker w) of
          (wake, t) \<Rightarrow> (Asked attempt waits wake, w\<lparr>wd_tracker := t\<rparr>))
   | Asked attempt waits wake \<Rightarrow> (case en_claim env of
       Inr c \<Rightarrow> (Claimed waits c, w)
     | Inl err \<Rightarrow> claim_refused hc env p attempt waits wake err w)
   | _ \<Rightarrow> (pc, w))"

definition waitToRetry :: "alloc_env \<Rightarrow> resolved_profile \<Rightarrow> nat \<Rightarrow> bool \<Rightarrow> nat \<Rightarrow> tracker \<Rightarrow> alloc_pc" where
  "waitToRetry env p attempt waits wake t = (case en_select env of
     SelBackoff \<Rightarrow> Claiming (Suc attempt) waits
   | SelWake \<Rightarrow> if wake \<in> set (closed t) then Claiming (Suc attempt) waits else Retrying attempt waits wake
   | SelDeadline \<Rightarrow> Failing waits (alloc_failed p [] CauseTimeout)
   | SelContext e \<Rightarrow> Failing waits (alloc_failed p [] (CauseContext e))
   | SelFree \<Rightarrow> Retrying attempt waits wake)"

text \<open>
  \<open>allocated\<close> up to the Placement. Every way out of it other than success hands the Lease
  back: the list is the Leases \<open>abandon\<close> releases.
\<close>

definition allocated_placement :: "alloc_env \<Rightarrow> resolved_profile \<Rightarrow> bool \<Rightarrow> claim \<Rightarrow> world
    \<Rightarrow> alloc_pc \<times> lease list" where
  "allocated_placement env p waits c w =
     (let lease = claimed_lease p c (en_now env)
      in case en_ctx env of
           Some e \<Rightarrow> (Failing waits (alloc_failed p (host_name (claim_host c)) (CauseContext e)), [lease])
         | None \<Rightarrow> (case ResolvePlacement (wd_registry w) env p (Some c) (wd_sched w) of
             Inl err \<Rightarrow> (Failing waits err, [lease])
           | Inr pl \<Rightarrow> (Placed waits c (en_now env) pl, [])))"

definition build_allocation :: "worker \<Rightarrow> claim \<Rightarrow> time \<Rightarrow> placement \<Rightarrow> allocation" where
  "build_allocation wk c at pl = \<lparr>al_job = job_id (wk_job wk), al_profile = rp_name (wk_prof wk),
     al_vm = claim_vm c, al_lease = claimed_lease (wk_prof wk) c at, al_placement = pl,
     al_host = claim_host c, al_reservation = wk_res wk, al_claimed_at = at\<rparr>"

text \<open>\<open>allocated\<close> from the Placement on: the handle is numbered and the Reservation converted.\<close>

definition allocated_convert :: "worker \<Rightarrow> bool \<Rightarrow> claim \<Rightarrow> time \<Rightarrow> placement \<Rightarrow> sched
    \<Rightarrow> (alloc_pc \<times> sched) \<times> lease list" where
  "allocated_convert wk waits c at pl s =
     (let s1 = s\<lparr>sc_next_id := Suc (sc_next_id s)\<rparr>;
          h = newHandle (sc_next_id s1) (build_allocation wk c at pl)
      in case convert (wk_res wk) h s1 of
           (True, s2) \<Rightarrow> ((Started waits (h_id h), s2), [])
         | (False, s2) \<Rightarrow> ((Failing waits (alloc_failed (wk_prof wk) (pl_host pl)
               (CauseReservationReleased (wk_res wk))), s2), [claimed_lease (wk_prof wk) c at]))"

text \<open>\<open>startHeartbeat\<close>: the keep-alive loop runs unless background work is closed.\<close>

definition startHeartbeat :: "nat \<Rightarrow> sched \<Rightarrow> sched" where
  "startHeartbeat i s = on_handle i (\<lambda>h. h\<lparr>h_beating := \<not> sc_bg_closed s\<rparr>) s"

text \<open>The deferred \<open>waitOnPool\<close> of \<open>claim\<close>.\<close>

definition stop_waiting :: "resolved_profile \<Rightarrow> bool \<Rightarrow> sched \<Rightarrow> sched" where
  "stop_waiting p waits s = (if waits then snd (waitOnPool (rp_ref p) (- 1) s) else s)"

text \<open>One step of a worker, with the Leases it hands back.\<close>

definition worker_step :: "health_config \<Rightarrow> alloc_env \<Rightarrow> worker \<Rightarrow> world \<Rightarrow> (worker \<times> world) \<times> lease list" where
  "worker_step hc env wk w = (let p = wk_prof wk; at = (\<lambda>pc. wk\<lparr>wk_pc := pc\<rparr>) in case wk_pc wk of
     AwaitProfile \<Rightarrow> (let (pc, s) = await_step env p AwaitProfile (wd_sched w) in ((at pc, w\<lparr>wd_sched := s\<rparr>), []))
   | ProfileFull free \<Rightarrow> (let (pc, s) = await_step env p (ProfileFull free) (wd_sched w) in ((at pc, w\<lparr>wd_sched := s\<rparr>), []))
   | Claiming attempt waits \<Rightarrow> (let (pc, w1) = claim_step hc env p (Claiming attempt waits) w in ((at pc, w1), []))
   | Asked attempt waits wake \<Rightarrow> (let (pc, w1) = claim_step hc env p (Asked attempt waits wake) w in ((at pc, w1), []))
   | Retrying attempt waits wake \<Rightarrow> ((at (waitToRetry env p attempt waits wake (wd_tracker w)), w), [])
   | Claimed waits c \<Rightarrow> (let (pc, handed) = allocated_placement env p waits c w in ((at pc, w), handed))
   | Placed waits c t pl \<Rightarrow>
       (let ((pc, s), handed) = allocated_convert wk waits c t pl (wd_sched w) in ((at pc, w\<lparr>wd_sched := s\<rparr>), handed))
   | Started waits i \<Rightarrow> ((at (Returned (Inr i)), on_sched (\<lambda>s. stop_waiting p waits (startHeartbeat i s)) w), [])
   | Failing waits e \<Rightarrow> ((at (Leaving e), on_sched (stop_waiting p waits) w), [])
   | Leaving e \<Rightarrow> ((at (Returned (Inl e)), on_sched (leaveProfile p) w), [])
   | Returned res \<Rightarrow> ((wk, w), []))"

text \<open>A whole call of \<open>Allocate\<close> that nobody interrupts.\<close>

fun run_worker :: "health_config \<Rightarrow> alloc_env list \<Rightarrow> worker \<Rightarrow> world \<Rightarrow> (worker \<times> world) \<times> lease list" where
  "run_worker hc [] wk w = ((wk, w), [])"
| "run_worker hc (env # envs) wk w =
     (case worker_step hc env wk w of ((wk1, w1), handed) \<Rightarrow>
        (case run_worker hc envs wk1 w1 of (res, later) \<Rightarrow> (res, handed @ later)))"

end
