(* ===== verification/Scheduler_Tasks.thy ===== *)
theory Scheduler_Tasks
  imports Scheduler_Alloc
begin

text \<open>
  What the Scheduler does with an Allocation once it exists: handing its Lease back and
  retaining it (\<open>internal/scheduler/release.go\<close>), keeping it alive (\<open>heartbeat.go\<close>),
  watching its Host (\<open>health.go\<close>) and its Exec Agent (\<open>agentprobe.go\<close>), and ending all
  of them at shutdown. Each function is one critical section or the decision between two;
  the goroutines are composed of them in the theory of the whole system.
\<close>

section \<open>Release\<close>

definition releaseRetryLimit :: "settings \<Rightarrow> int" where
  "releaseRetryLimit cfg = (let n = pm_release_retry (set_pool_manager cfg) in if n > 0 then n else 5)"

text \<open>
  \<open>releaseLease\<close> over the answers of \<open>ReleaseVM\<close> and, after each failure, whether the
  backoff ran out (else the Scheduler finished shutting down). The result is the number of
  calls made, the waits, and how it ended; a script that runs out leaves it waiting.
\<close>

datatype release_end = ReleasedNow | AlreadyGone | LimitReached pm_error | AbandonedInShutdown pm_error | StillReleasing

record release_turn =
  rt_answer :: "pm_error option"
  rt_waited :: bool

fun releaseLease :: "(nat \<Rightarrow> duration) \<Rightarrow> int \<Rightarrow> nat \<Rightarrow> release_turn list \<Rightarrow> nat \<times> duration list \<times> release_end" where
  "releaseLease policy limit attempt [] = (0, [], StillReleasing)"
| "releaseLease policy limit attempt (turn # turns) = (case rt_answer turn of
     None \<Rightarrow> (1, [], ReleasedNow)
   | Some err \<Rightarrow>
       if err = ErrNotFound then (1, [], AlreadyGone)
       else if int attempt \<ge> limit then (1, [], LimitReached err)
       else if \<not> rt_waited turn then (1, [policy attempt], AbandonedInShutdown err)
       else (case releaseLease policy limit (Suc attempt) turns of
               (calls, waits, res) \<Rightarrow> (Suc calls, policy attempt # waits, res)))"

text \<open>
  The end of \<open>Release\<close> and of \<open>endAllocation\<close>, once \<open>finish\<close> has said that this call
  ended the Allocation: the keep-alive loop is stopped, and the Lease is handed back unless
  it is gone. The Lease list is what \<open>releaseInBackground\<close> is called with.
\<close>

definition hand_back :: "nat \<Rightarrow> sched \<Rightarrow> sched \<times> lease list" where
  "hand_back i s =
     (let s1 = stopHeartbeat i s
      in case mget (sc_handles s1) i of
           None \<Rightarrow> (s1, [])
         | Some h \<Rightarrow> if h_gone h then (s1, []) else (s1, [h_lease h]))"

text \<open>\<open>Release\<close> and \<open>endAllocation\<close> when nothing comes between.\<close>

definition Release :: "nat \<Rightarrow> sched \<Rightarrow> sched \<times> lease list" where
  "Release i s = (case finish i s of
     (False, s1) \<Rightarrow> (stopHeartbeat i s1, [])
   | (True, s1) \<Rightarrow> hand_back i s1)"

definition endAllocation :: "nat \<Rightarrow> sched \<Rightarrow> sched \<times> lease list" where
  "endAllocation i s = (case finish i s of
     (False, s1) \<Rightarrow> (s1, [])
   | (True, s1) \<Rightarrow> hand_back i s1)"

definition keepDuration :: "settings \<Rightarrow> duration" where
  "keepDuration cfg = (let d = ss_keep_duration (set_scheduler cfg) in if d > 0 then d else 3600 * second)"

text \<open>
  \<open>Retain\<close> after \<open>finish\<close>: whether a goroutine now waits out the keep duration, and the
  Lease released at once when background work is closed.
\<close>

definition retain_start :: "nat \<Rightarrow> sched \<Rightarrow> (bool \<times> sched) \<times> lease list" where
  "retain_start i s = (case mget (sc_handles s) i of
     None \<Rightarrow> ((False, s), [])
   | Some h \<Rightarrow>
       if h_gone h then ((False, stopHeartbeat i s), [])
       else if sc_bg_closed s then ((False, stopHeartbeat i s), [h_lease h])
       else ((True, s), []))"

text \<open>\<open>retainThenRelease\<close> wakes for its timer, for \<open>Done\<close> or for the end of the shutdown.\<close>

datatype retain_wake = KeepElapsed | HandleDone | BackgroundDone

definition retain_woken :: "retain_wake \<Rightarrow> nat \<Rightarrow> sched \<Rightarrow> bool" where
  "retain_woken wake i s = (case wake of
     KeepElapsed \<Rightarrow> True
   | HandleDone \<Rightarrow> (case mget (sc_handles s) i of None \<Rightarrow> False | Some h \<Rightarrow> h_done h)
   | BackgroundDone \<Rightarrow> sc_bg_done s)"

section \<open>Keep-alive\<close>

definition minHeartbeatDelay :: duration where
  "minHeartbeatDelay = millisecond"

definition heartbeatDelay :: "lease \<Rightarrow> time \<Rightarrow> duration \<Rightarrow> (nat \<Rightarrow> duration) \<Rightarrow> nat \<Rightarrow> duration" where
  "heartbeatDelay l now interval policy attempt =
     (let d0 = half (time_sub (ls_expires_at l) now);
          d1 = (if interval > 0 \<and> interval < d0 then interval else d0);
          d2 = (if attempt > 0 \<and> policy (attempt - 1) < d1 then policy (attempt - 1) else d1)
      in if d2 < minHeartbeatDelay then minHeartbeatDelay else d2)"

definition profileByName :: "string \<Rightarrow> sched \<Rightarrow> resolved_profile option" where
  "profileByName name s = List.find (\<lambda>p. rp_name p = name) (sc_profiles s)"

definition heartbeatInterval :: "string \<Rightarrow> sched \<Rightarrow> duration" where
  "heartbeatInterval name s = (case profileByName name s of
     None \<Rightarrow> 10 * second
   | Some p \<Rightarrow> let d = ps_heartbeat_interval (pr_pool (rp_profile p)) in if d > 0 then d else 10 * second)"

text \<open>The head of the loop: stop, give the Lease up, or wait before the next heartbeat.\<close>

datatype beat = BeatStop | BeatLost handle_error | BeatWait duration

definition heartbeat_head :: "(nat \<Rightarrow> duration) \<Rightarrow> duration \<Rightarrow> nat \<Rightarrow> time \<Rightarrow> bool \<Rightarrow> lease \<Rightarrow> beat" where
  "heartbeat_head policy interval attempt now cancelled l =
     (if cancelled then BeatStop
      else if \<not> now < ls_expires_at l then BeatLost (LeaseExpired (ls_id l) (ls_expires_at l))
      else BeatWait (heartbeatDelay l now interval policy attempt))"

text \<open>After the call: what the answer means, unless the loop was cancelled meanwhile.\<close>

datatype beat_result = ResultStop | ResultLost handle_error | ResultRenew lease | ResultRetry

definition leaseGone :: "string \<Rightarrow> pm_error \<Rightarrow> handle_error" where
  "leaseGone l answer = LeaseGone l answer"

definition heartbeat_answer :: "time \<Rightarrow> bool \<Rightarrow> lease \<Rightarrow> pm_error + time \<Rightarrow> beat_result" where
  "heartbeat_answer now cancelled l answer =
     (if cancelled then ResultStop
      else case answer of
        Inr expires \<Rightarrow> ResultRenew (l\<lparr>ls_expires_at := expires, ls_last_heartbeat := now\<rparr>)
      | Inl err \<Rightarrow> if err = ErrNotFound then ResultLost (leaseGone (ls_id l) err) else ResultRetry)"

text \<open>
  The loop on its own, over what happens in each round: the time, a Lease another caller
  has stored meanwhile, whether the context has ended, what the \<open>select\<close> received, the
  answer and whether the context had ended when it came. The result is the waits, the
  Lease it leaves and how it ended.
\<close>

datatype hb_selected = HbTimer | HbCancelled | HbDone

record hb_round =
  hr_now :: time
  hr_cancelled :: bool
  hr_stored :: "lease option"
  hr_select :: hb_selected
  hr_answer :: "pm_error + time"
  hr_answered_at :: time
  hr_cancelled_after :: bool

datatype hb_end = HbStopped | HbLost handle_error | HbRunning

fun heartbeatLoop :: "(nat \<Rightarrow> duration) \<Rightarrow> duration \<Rightarrow> hb_round list \<Rightarrow> nat \<Rightarrow> lease
    \<Rightarrow> duration list \<times> lease \<times> hb_end" where
  "heartbeatLoop policy interval [] attempt l = ([], l, HbRunning)"
| "heartbeatLoop policy interval (r # rs) attempt l0 =
     (let l = (case hr_stored r of None \<Rightarrow> l0 | Some l \<Rightarrow> l)
      in case heartbeat_head policy interval attempt (hr_now r) (hr_cancelled r) l of
           BeatStop \<Rightarrow> ([], l, HbStopped)
         | BeatLost e \<Rightarrow> ([], l, HbLost e)
         | BeatWait d \<Rightarrow>
             if hr_select r \<noteq> HbTimer then ([d], l, HbStopped)
             else (case heartbeat_answer (hr_answered_at r) (hr_cancelled_after r) l (hr_answer r) of
                     ResultStop \<Rightarrow> ([d], l, HbStopped)
                   | ResultLost e \<Rightarrow> ([d], l, HbLost e)
                   | ResultRenew l1 \<Rightarrow>
                       (case heartbeatLoop policy interval rs 0 l1 of (ds, l2, res) \<Rightarrow> (d # ds, l2, res))
                   | ResultRetry \<Rightarrow>
                       (case heartbeatLoop policy interval rs (Suc attempt) l of (ds, l2, res) \<Rightarrow> (d # ds, l2, res))))"

text \<open>\<open>leaseLost\<close>: the handle is failed with the Lease marked gone; \<open>finish\<close> comes after.\<close>

definition lose_lease :: "handle_error \<Rightarrow> nat \<Rightarrow> sched \<Rightarrow> sched" where
  "lose_lease e i s = on_handle i (\<lambda>h. fail e (markLeaseGone h)) s"

definition leaseLost :: "handle_error \<Rightarrow> nat \<Rightarrow> sched \<Rightarrow> sched" where
  "leaseLost e i s = snd (finish i (lose_lease e i s))"

subsection \<open>A check outside the loop\<close>

text \<open>
  \<open>CheckLease\<close> before its call: the answer when it makes none, else the Lease it asks
  about. Then what it does with the answer.
\<close>

datatype check_begin = CheckReturns "handle_error option" | CheckAsks lease

definition checkLease_begin :: "nat \<Rightarrow> sched \<Rightarrow> check_begin" where
  "checkLease_begin i s = (case mget (sc_handles s) i of
     None \<Rightarrow> CheckReturns None
   | Some h \<Rightarrow>
       if h_done h then CheckReturns (h_err h)
       else if \<not> holds i s then CheckReturns None
       else CheckAsks (h_lease h))"

datatype check_answer = AnswerReturns | AnswerRenews lease | AnswerLost handle_error

definition checkLease_answer :: "time \<Rightarrow> lease \<Rightarrow> pm_error + time \<Rightarrow> nat \<Rightarrow> sched \<Rightarrow> check_answer" where
  "checkLease_answer now l answer i s =
     (if \<not> holds i s then AnswerReturns
      else case answer of
        Inr expires \<Rightarrow> AnswerRenews (l\<lparr>ls_expires_at := expires, ls_last_heartbeat := now\<rparr>)
      | Inl err \<Rightarrow>
          (let cause = (if err = ErrNotFound then Some (leaseGone (ls_id l) err)
                        else if \<not> now < ls_expires_at l then Some (LeaseExpired (ls_id l) (ls_expires_at l))
                        else None)
           in case (cause, mget (sc_handles s) i) of
                (Some e, Some h) \<Rightarrow> if h_done h then AnswerReturns else AnswerLost e
              | _ \<Rightarrow> AnswerReturns))"

text \<open>The whole call when nothing comes between, with what it returns.\<close>

definition h_err_of :: "nat \<Rightarrow> sched \<Rightarrow> handle_error option" where
  "h_err_of i s = (case mget (sc_handles s) i of None \<Rightarrow> None | Some h \<Rightarrow> h_err h)"

definition CheckLease :: "time \<Rightarrow> pm_error + time \<Rightarrow> nat \<Rightarrow> sched \<Rightarrow> handle_error option \<times> sched" where
  "CheckLease now answer i s = (case checkLease_begin i s of
     CheckReturns r \<Rightarrow> (r, s)
   | CheckAsks l \<Rightarrow> (case checkLease_answer now l answer i s of
       AnswerReturns \<Rightarrow> (h_err_of i s, s)
     | AnswerRenews l1 \<Rightarrow> (None, on_handle i (setLease l1) s)
     | AnswerLost e \<Rightarrow> (let s1 = leaseLost e i s in (h_err_of i s1, s1))))"

section \<open>Host health\<close>

definition hostUnhealthyThreshold :: "settings \<Rightarrow> int" where
  "hostUnhealthyThreshold cfg = (let n = ss_host_unhealthy_threshold (set_scheduler cfg) in if n > 0 then n else 3)"

definition hostHealthInterval :: "settings \<Rightarrow> duration" where
  "hostHealthInterval cfg = (let d = ss_host_health_interval (set_scheduler cfg) in if d > 0 then d else 10 * second)"

definition hostCallDeadline :: "settings \<Rightarrow> duration" where
  "hostCallDeadline cfg = (let d = ss_host_call_deadline (set_scheduler cfg) in if d > 0 then d else 10 * second)"

text \<open>What \<open>ServerInfo\<close> and, where it is not implemented, \<open>ListMicroVMs\<close> answer.\<close>

datatype server_info = InfoGiven "host_info option" | InfoUnimplemented | InfoError

definition unknown_info :: host_info where
  "unknown_info = \<lparr>hi_version_known = False, hi_version = [], hi_exec_enabled = False, hi_ssh_proxy_enabled = False\<rparr>"

text \<open>\<open>probeHost\<close> up to \<open>recordProbe\<close>: the information and whether the probe failed.\<close>

definition probeHost :: "registry \<Rightarrow> server_info \<Rightarrow> bool \<Rightarrow> string \<Rightarrow> host_info option \<times> bool" where
  "probeHost reg answer listed name =
     (if Get name reg = None then (None, True)
      else case answer of
        InfoUnimplemented \<Rightarrow> if listed then (Some unknown_info, False) else (None, True)
      | InfoError \<Rightarrow> (None, True)
      | InfoGiven info \<Rightarrow> (info, False))"

text \<open>The critical section of \<open>recordProbe\<close> on one Host.\<close>

datatype host_change = BecameHealthy | BecameUnhealthy | NoChange

definition record_host :: "int \<Rightarrow> time \<Rightarrow> host_info option \<Rightarrow> bool \<Rightarrow> host_state \<Rightarrow> host_state \<times> host_change" where
  "record_host threshold now info failed st0 =
     (let st = st0\<lparr>hs_last_probe_at := now\<rparr>
      in if \<not> failed then
           (let st1 = st\<lparr>hs_failures := 0\<rparr>;
                st2 = (if info \<noteq> None then st1\<lparr>hs_info := info\<rparr> else st1)
            in if \<not> hs_healthy st2 then (st2\<lparr>hs_healthy := True\<rparr>, BecameHealthy) else (st2, NoChange))
         else
           (let st1 = st\<lparr>hs_failures := hs_failures st + 1\<rparr>
            in if hs_healthy st1 \<and> hs_failures st1 \<ge> threshold
               then (st1\<lparr>hs_healthy := False\<rparr>, BecameUnhealthy) else (st1, NoChange)))"

definition infoAlreadyLogged :: "string \<Rightarrow> host_info \<Rightarrow> sched \<Rightarrow> bool \<times> sched" where
  "infoAlreadyLogged name info s = (case mget (sc_hosts s) name of
     None \<Rightarrow> (False, s)
   | Some st \<Rightarrow>
       if hs_info_logged st = Some info then (True, s)
       else (False, s\<lparr>sc_hosts := mput name (st\<lparr>hs_info_logged := Some info\<rparr>) (sc_hosts s)\<rparr>))"

text \<open>\<open>recordProbe\<close>; the result says whether \<open>hostUnhealthy\<close> is called.\<close>

definition recordProbe :: "time \<Rightarrow> string \<Rightarrow> host_info option \<Rightarrow> bool \<Rightarrow> sched \<Rightarrow> bool \<times> sched" where
  "recordProbe now name info failed s = (case mget (sc_hosts s) name of
     None \<Rightarrow> (False, s)
   | Some st \<Rightarrow>
       (case record_host (hostUnhealthyThreshold (sc_set s)) now info failed st of (st1, change) \<Rightarrow>
          let s1 = s\<lparr>sc_hosts := mput name st1 (sc_hosts s)\<rparr>
          in case change of
               BecameHealthy \<Rightarrow> (False, unthrottle (''probefail:'' @ name) s1)
             | BecameUnhealthy \<Rightarrow> (True, s1)
             | NoChange \<Rightarrow>
                 if failed then (False, snd (throttled now (''probefail:'' @ name) s1))
                 else (case info of Some i \<Rightarrow> (False, snd (infoAlreadyLogged name i s1)) | None \<Rightarrow> (False, s1))))"

definition liveHandles :: "sched \<Rightarrow> nat list" where
  "liveHandles s = sc_allocations s"

definition placed_on :: "string \<Rightarrow> sched \<Rightarrow> nat \<Rightarrow> bool" where
  "placed_on name s i = (case mget (sc_handles s) i of None \<Rightarrow> False | Some h \<Rightarrow> placementHost h = name)"

text \<open>One turn of the loops that abort: the handle is failed and its Allocation ended.\<close>

definition abort_one :: "handle_error \<Rightarrow> nat \<Rightarrow> sched \<times> lease list \<Rightarrow> sched \<times> lease list" where
  "abort_one e i acc =
     (let (s, handed) = acc; (s1, more_handed) = endAllocation i (on_handle i (fail e) s)
      in (s1, handed @ more_handed))"

definition hostUnhealthy :: "string \<Rightarrow> sched \<Rightarrow> sched \<times> lease list" where
  "hostUnhealthy name s =
     fold (abort_one (HostUnhealthy name)) (filter (placed_on name s) (liveHandles s)) (s, [])"

definition leasedOnLocked :: "string \<Rightarrow> sched \<Rightarrow> int" where
  "leasedOnLocked host s = int (length (filter (placed_on host s) (sc_allocations s)))"

section \<open>The Exec Agent probe\<close>

text \<open>
  \<open>agentProbeLoop\<close> over its rounds: whether the loop was woken to stop, whether the
  Allocation was held before and after the probe, and whether the probe failed. It says
  whether the Job is aborted, with the number of failures, and how many probes were made.
\<close>

record agent_round =
  ar_stop :: bool
  ar_held :: bool
  ar_failed :: bool
  ar_ended :: bool

fun agentProbeLoop :: "int \<Rightarrow> int \<Rightarrow> agent_round list \<Rightarrow> int option \<times> nat" where
  "agentProbeLoop threshold fails [] = (None, 0)"
| "agentProbeLoop threshold fails (r # rs) =
     (if ar_stop r \<or> \<not> ar_held r then (None, 0)
      else if ar_ended r then (None, 1)
      else if \<not> ar_failed r then (case agentProbeLoop threshold 0 rs of (res, n) \<Rightarrow> (res, Suc n))
      else if fails + 1 \<ge> threshold then (Some (fails + 1), 1)
      else (case agentProbeLoop threshold (fails + 1) rs of (res, n) \<Rightarrow> (res, Suc n)))"

definition agentUnreachable :: "nat \<Rightarrow> int \<Rightarrow> sched \<Rightarrow> sched \<times> lease list" where
  "agentUnreachable i fails s = (case mget (sc_handles s) i of
     None \<Rightarrow> (s, [])
   | Some h \<Rightarrow> abort_one (AgentUnreachable (ls_id (h_lease h)) fails) i (s, []))"

section \<open>Lifecycle\<close>

definition start_run :: "sched \<Rightarrow> bool \<times> sched" where
  "start_run s = (if sc_state s \<noteq> StateNew then (False, s) else (True, s\<lparr>sc_state := StateRunning\<rparr>))"

definition setState :: "run_state \<Rightarrow> sched \<Rightarrow> sched" where
  "setState st s = s\<lparr>sc_state := st\<rparr>"

definition closeBackground :: "sched \<Rightarrow> sched" where
  "closeBackground s = s\<lparr>sc_bg_closed := True\<rparr>"

definition shutdown_begin :: "sched \<Rightarrow> sched" where
  "shutdown_begin s = s\<lparr>sc_reservations := []\<rparr>"

definition shutdownTimeout :: "settings \<Rightarrow> duration" where
  "shutdownTimeout cfg = (let d = set_shutdown_timeout cfg in if d > 0 then d else 30 * second)"

definition abortRunning :: "sched \<Rightarrow> sched \<times> lease list" where
  "abortRunning s = fold (abort_one ShutdownElapsed) (liveHandles s) (s, [])"

text \<open>
  \<open>shutdown\<close>: what other goroutines do while it waits, and whether the timer fired first.
  The receive from \<open>drained\<close> needs a closed channel.
\<close>

definition shutdown :: "(sched \<Rightarrow> sched) \<Rightarrow> bool \<Rightarrow> sched \<Rightarrow> (sched \<times> lease list) option" where
  "shutdown others timer s =
     (let (ch, s1) = drained (shutdown_begin s); s2 = others s1
      in if timer then (let (s3, handed) = abortRunning s2 in Some (closeBackground s3, handed))
         else (case ch of
             None \<Rightarrow> Some (closeBackground s2, [])
           | Some c \<Rightarrow> if c \<in> set (sc_drained s2) then Some (closeBackground s2, []) else None))"

subsection \<open>Reload\<close>

definition findProfileByPool :: "resolved_profile list \<Rightarrow> pool_ref \<Rightarrow> resolved_profile option" where
  "findProfileByPool ps ref = List.find (\<lambda>p. rp_ref p = ref) ps"

definition endpoints :: "inventory_host list \<Rightarrow> endpoint list" where
  "endpoints inventory = map (\<lambda>h. \<lparr>ep_name = ih_name h, ep_address = ih_endpoint h, ep_token = ih_token h,
     ep_tls = \<lparr>tls_ca_file = ct_ca_file (ih_tls h), tls_cert_file = ct_cert_file (ih_tls h),
       tls_key_file = ct_key_file (ih_tls h), tls_insecure = ct_insecure (ih_tls h)\<rparr>\<rparr>) inventory"

definition reload_tables :: "profile list \<Rightarrow> inventory_host list \<Rightarrow> sched \<Rightarrow> sched" where
  "reload_tables ps inventory s = resetHostsLocked inventory
     (s\<lparr>sc_profiles := resolveProfiles ps (set_namespace (sc_set s)),
        sc_set := (sc_set s)\<lparr>set_profiles := ps, set_inventory := inventory\<rparr>\<rparr>)"

definition untrack_removed :: "resolved_profile list \<Rightarrow> resolved_profile list \<Rightarrow> tracker \<Rightarrow> tracker" where
  "untrack_removed previous nxt t =
     fold (\<lambda>p t. if findProfileByPool nxt (rp_ref p) \<noteq> None then t else Untrack (rp_ref p) t) previous t"

text \<open>\<open>declared_ok\<close> is, for each Profile, whether its spec was built and its Pool declared.\<close>

definition declareAll :: "(resolved_profile \<Rightarrow> bool \<times> bool) \<Rightarrow> resolved_profile list \<Rightarrow> tracker \<Rightarrow> tracker" where
  "declareAll declared_ok ps t = fold (\<lambda>p t. declare_pool (fst (declared_ok p)) (snd (declared_ok p)) p t) ps t"

text \<open>\<open>poolDeclared\<close> and one round of \<open>declareLoop\<close>.\<close>

definition poolDeclared :: "bool option \<Rightarrow> pool_ref \<Rightarrow> tracker \<Rightarrow> bool" where
  "poolDeclared hm ref t = (case List.find (\<lambda>pa. pa_pool pa = ref) (Pools hm t) of
     None \<Rightarrow> False | Some pa \<Rightarrow> pa_declared pa)"

definition declare_round :: "bool option \<Rightarrow> (resolved_profile \<Rightarrow> bool \<times> bool) \<Rightarrow> resolved_profile list \<Rightarrow> tracker \<Rightarrow> tracker" where
  "declare_round hm declared_ok ps t = fold (\<lambda>p t.
     if poolDeclared hm (rp_ref p) t then t
     else declare_pool (fst (declared_ok p)) (snd (declared_ok p)) p t) ps t"

section \<open>Snapshot\<close>

record host_health =
  hh_name :: string
  hh_healthy :: bool
  hh_failures :: int
  hh_last_probe_at :: time
  hh_info :: "host_info option"
  hh_leased :: int

record snapshot =
  sn_contacted :: bool
  sn_healthy :: bool
  sn_slots :: int
  sn_slots_in_use :: int
  sn_pools :: "pool_availability list"
  sn_hosts :: "host_health list"

definition Snapshot :: "time \<Rightarrow> health \<Rightarrow> tracker \<Rightarrow> sched \<Rightarrow> snapshot \<times> sched" where
  "Snapshot now hm t s0 = (case contacted_now hm s0 of (ok, s) \<Rightarrow>
     (\<lparr>sn_contacted = ok, sn_healthy = Healthy now hm, sn_slots = set_slots (sc_set s),
       sn_slots_in_use = slotsInUseLocked s,
       sn_pools = map (\<lambda>pa. pa\<lparr>pa_waiting := waiting_on (pa_pool pa) s\<rparr>) (Pools (Some (Healthy now hm)) t),
       sn_hosts = sort_key hh_name (map (\<lambda>(name, st). \<lparr>hh_name = name, hh_healthy = hs_healthy st,
         hh_failures = hs_failures st, hh_last_probe_at = hs_last_probe_at st, hh_info = hs_info st,
         hh_leased = leasedOnLocked name s\<rparr>) (sc_hosts s))\<rparr>, s))"

definition Snapshot_Ready :: "snapshot \<Rightarrow> bool" where
  "Snapshot_Ready sn \<longleftrightarrow> sn_contacted sn \<and> list_ex hh_healthy (sn_hosts sn)"

end
