(* ===== verification/Scheduler_System.thy ===== *)
theory Scheduler_System
  imports Scheduler_Tasks
begin

text \<open>
  The Scheduler as a whole: the workers inside \<open>Allocate\<close>, the goroutines that keep,
  check, hand back and retain Leases and those that abort Jobs, and everything else the
  Runner calls, interleaved in any order. A state carries a log of the Leases the Pool
  Manager gave out, of those a release was started for and of those dropped as lost.
\<close>

section \<open>Goroutines\<close>

text \<open>
  Where a goroutine is. \<open>HandBack\<close> and \<open>RetainStart\<close> stand between \<open>finish\<close> and what
  follows it in \<open>Release\<close>, \<open>endAllocation\<close> and \<open>Retain\<close>; \<open>Beating\<close>, \<open>Pausing\<close> and
  \<open>Calling\<close> are the head of the keep-alive loop, its \<open>select\<close> and its call; \<open>Losing\<close>
  stands inside \<open>leaseLost\<close> before \<open>finish\<close>, from the loop or from \<open>CheckLease\<close>;
  \<open>Aborting\<close> and \<open>Ending\<close> are the two halves of an abort.
\<close>

datatype task =
    HandBack nat
  | RetainStart nat
  | Retaining nat
  | Beating nat nat
  | Pausing nat nat lease
  | Calling nat nat lease
  | Losing nat bool
  | CheckCalling nat lease
  | Aborting nat handle_error
  | Ending nat
  | Probing nat int
  | AgentAsked nat int
  | TaskOver

record params =
  pa_health :: health_config
  pa_policy :: "nat \<Rightarrow> duration"
  pa_agents :: bool

record task_env =
  te_now :: time
  te_select :: hb_selected
  te_answer :: "pm_error + time"
  te_wake :: retain_wake
  te_failed :: bool

record task_result =
  tr_task :: task
  tr_sched :: sched
  tr_handed :: "lease list"
  tr_lost :: "string list"

definition quiet :: "task \<Rightarrow> sched \<Rightarrow> task_result" where
  "quiet t s = \<lparr>tr_task = t, tr_sched = s, tr_handed = [], tr_lost = []\<rparr>"

text \<open>The context of the keep-alive loop is a child of the background context.\<close>

definition cancelled :: "nat \<Rightarrow> sched \<Rightarrow> bool" where
  "cancelled i s = (case mget (sc_handles s) i of None \<Rightarrow> True | Some h \<Rightarrow> \<not> h_beating h \<or> sc_bg_done s)"

definition handle_done :: "nat \<Rightarrow> sched \<Rightarrow> bool" where
  "handle_done i s = (case mget (sc_handles s) i of None \<Rightarrow> True | Some h \<Rightarrow> h_done h)"

text \<open>Whether a \<open>select\<close> on the loop's context, on \<open>Done\<close> and on a timer may go that way.\<close>

definition may_select :: "hb_selected \<Rightarrow> nat \<Rightarrow> sched \<Rightarrow> bool" where
  "may_select sel i s = (case sel of
     HbTimer \<Rightarrow> True | HbCancelled \<Rightarrow> cancelled i s | HbDone \<Rightarrow> handle_done i s)"

definition lease_id_of :: "nat \<Rightarrow> sched \<Rightarrow> string option" where
  "lease_id_of i s = map_option (\<lambda>h. ls_id (h_lease h)) (mget (sc_handles s) i)"

definition lost_ids :: "nat \<Rightarrow> sched \<Rightarrow> string list" where
  "lost_ids i s = (case lease_id_of i s of None \<Rightarrow> [] | Some l \<Rightarrow> [l])"

text \<open>A Lease that is handed back is in custody of the release; one that is not is lost.\<close>

definition settle :: "nat \<Rightarrow> sched \<Rightarrow> sched \<times> lease list \<Rightarrow> task_result" where
  "settle i s0 r = (case r of (s, handed) \<Rightarrow>
     \<lparr>tr_task = TaskOver, tr_sched = s, tr_handed = handed,
      tr_lost = (if handed = [] then lost_ids i s0 else [])\<rparr>)"

definition step_beating :: "params \<Rightarrow> task_env \<Rightarrow> nat \<Rightarrow> nat \<Rightarrow> sched \<Rightarrow> task_result" where
  "step_beating pa env i k s = (case mget (sc_handles s) i of
     None \<Rightarrow> quiet TaskOver s
   | Some h \<Rightarrow> (case heartbeat_head (pa_policy pa) (heartbeatInterval (h_profile h) s) k (te_now env)
                  (cancelled i s) (h_lease h) of
       BeatStop \<Rightarrow> quiet TaskOver (stopHeartbeat i s)
     | BeatLost e \<Rightarrow> quiet (Losing i True) (lose_lease e i s)
     | BeatWait d \<Rightarrow> quiet (Pausing i k (h_lease h)) s))"

definition step_pausing :: "task_env \<Rightarrow> nat \<Rightarrow> nat \<Rightarrow> lease \<Rightarrow> sched \<Rightarrow> task_result" where
  "step_pausing env i k l s =
     (if \<not> may_select (te_select env) i s then quiet (Pausing i k l) s
      else if te_select env = HbTimer then quiet (Calling i k l) s
      else quiet TaskOver (stopHeartbeat i s))"

definition step_calling :: "task_env \<Rightarrow> nat \<Rightarrow> nat \<Rightarrow> lease \<Rightarrow> sched \<Rightarrow> task_result" where
  "step_calling env i k l s = (case heartbeat_answer (te_now env) (cancelled i s) l (te_answer env) of
     ResultStop \<Rightarrow> quiet TaskOver (stopHeartbeat i s)
   | ResultLost e \<Rightarrow> quiet (Losing i True) (lose_lease e i s)
   | ResultRenew l1 \<Rightarrow> quiet (Beating i 0) (on_handle i (setLease l1) s)
   | ResultRetry \<Rightarrow> quiet (Beating i (Suc k)) s)"

definition step_losing :: "nat \<Rightarrow> bool \<Rightarrow> sched \<Rightarrow> task_result" where
  "step_losing i from_loop s = (case finish i s of (ended, s1) \<Rightarrow>
     \<lparr>tr_task = TaskOver, tr_sched = (if from_loop then stopHeartbeat i s1 else s1), tr_handed = [],
      tr_lost = (if ended then lost_ids i s else [])\<rparr>)"

definition step_check :: "task_env \<Rightarrow> nat \<Rightarrow> lease \<Rightarrow> sched \<Rightarrow> task_result" where
  "step_check env i l s = (case checkLease_answer (te_now env) l (te_answer env) i s of
     AnswerReturns \<Rightarrow> quiet TaskOver s
   | AnswerRenews l1 \<Rightarrow> quiet TaskOver (on_handle i (setLease l1) s)
   | AnswerLost e \<Rightarrow> quiet (Losing i False) (lose_lease e i s))"

definition step_probing :: "task_env \<Rightarrow> nat \<Rightarrow> int \<Rightarrow> sched \<Rightarrow> task_result" where
  "step_probing env i fails s =
     (if \<not> may_select (te_select env) i s then quiet (Probing i fails) s
      else if te_select env \<noteq> HbTimer \<or> \<not> holds i s then quiet TaskOver s
      else quiet (AgentAsked i fails) s)"

definition step_agent :: "task_env \<Rightarrow> nat \<Rightarrow> int \<Rightarrow> sched \<Rightarrow> task_result" where
  "step_agent env i fails s =
     (if cancelled i s \<or> \<not> holds i s then quiet TaskOver s
      else if \<not> te_failed env then quiet (Probing i 0) s
      else if fails + 1 \<ge> hostUnhealthyThreshold (sc_set s)
           then quiet (Aborting i (AgentUnreachable (case lease_id_of i s of None \<Rightarrow> [] | Some l \<Rightarrow> l) (fails + 1))) s
      else quiet (Probing i (fails + 1)) s)"

fun task_step :: "params \<Rightarrow> task_env \<Rightarrow> task \<Rightarrow> sched \<Rightarrow> task_result" where
  "task_step pa env (HandBack i) s = settle i s (hand_back i s)"
| "task_step pa env (RetainStart i) s = (case retain_start i s of ((kept, s1), handed) \<Rightarrow>
     if kept then quiet (Retaining i) s1 else settle i s (s1, handed))"
| "task_step pa env (Retaining i) s =
     (if retain_woken (te_wake env) i s then settle i s (hand_back i s) else quiet (Retaining i) s)"
| "task_step pa env (Beating i k) s = step_beating pa env i k s"
| "task_step pa env (Pausing i k l) s = step_pausing env i k l s"
| "task_step pa env (Calling i k l) s = step_calling env i k l s"
| "task_step pa env (Losing i from_loop) s = step_losing i from_loop s"
| "task_step pa env (CheckCalling i l) s = step_check env i l s"
| "task_step pa env (Aborting i e) s = quiet (Ending i) (on_handle i (fail e) s)"
| "task_step pa env (Ending i) s = (case finish i s of
     (True, s1) \<Rightarrow> quiet (HandBack i) s1
   | (False, s1) \<Rightarrow> quiet TaskOver s1)"
| "task_step pa env (Probing i fails) s = step_probing env i fails s"
| "task_step pa env (AgentAsked i fails) s = step_agent env i fails s"
| "task_step pa env TaskOver s = quiet TaskOver s"

section \<open>The system\<close>

record system =
  sy_world :: world
  sy_workers :: "worker list"
  sy_tasks :: "task list"
  sy_claimed :: "string list"
  sy_ladders :: "string list"
  sy_lost :: "string list"

abbreviation sy_sched :: "system \<Rightarrow> sched" where
  "sy_sched y \<equiv> wd_sched (sy_world y)"

definition put_sched :: "sched \<Rightarrow> system \<Rightarrow> system" where
  "put_sched s y = y\<lparr>sy_world := (sy_world y)\<lparr>wd_sched := s\<rparr>\<rparr>"

definition add_tasks :: "task list \<Rightarrow> system \<Rightarrow> system" where
  "add_tasks ts y = y\<lparr>sy_tasks := sy_tasks y @ ts\<rparr>"

text \<open>What a worker's step starts or learns beside its own state.\<close>

definition spawned :: "params \<Rightarrow> worker \<Rightarrow> sched \<Rightarrow> task list" where
  "spawned pa wk s = (case wk_pc wk of
     Started waits i \<Rightarrow>
       if sc_bg_closed s then [] else Beating i 0 # (if pa_agents pa then [Probing i 0] else [])
   | _ \<Rightarrow> [])"

definition claimed_ids :: "alloc_env \<Rightarrow> worker \<Rightarrow> string list" where
  "claimed_ids env wk = (case wk_pc wk of
     Asked attempt waits wake \<Rightarrow> (case en_claim env of Inr c \<Rightarrow> [claim_lease c] | Inl err \<Rightarrow> [])
   | _ \<Rightarrow> [])"

definition act_worker :: "params \<Rightarrow> nat \<Rightarrow> alloc_env \<Rightarrow> system \<Rightarrow> system" where
  "act_worker pa n env y =
     (if n \<ge> length (sy_workers y) then y
      else let wk = sy_workers y ! n in
        case worker_step (pa_health pa) env wk (sy_world y) of ((wk1, w1), handed) \<Rightarrow>
          y\<lparr>sy_world := w1, sy_workers := (sy_workers y)[n := wk1],
            sy_tasks := sy_tasks y @ spawned pa wk (sy_sched y),
            sy_claimed := sy_claimed y @ claimed_ids env wk,
            sy_ladders := sy_ladders y @ map ls_id handed\<rparr>)"

definition put_task :: "nat \<Rightarrow> task_result \<Rightarrow> system \<Rightarrow> system" where
  "put_task n r y = (put_sched (tr_sched r) y)\<lparr>sy_tasks := (sy_tasks y)[n := tr_task r],
     sy_ladders := sy_ladders y @ map ls_id (tr_handed r), sy_lost := sy_lost y @ tr_lost r\<rparr>"

definition act_task :: "params \<Rightarrow> nat \<Rightarrow> task_env \<Rightarrow> system \<Rightarrow> system" where
  "act_task pa n env y =
     (if n \<ge> length (sy_tasks y) then y else put_task n (task_step pa env (sy_tasks y ! n) (sy_sched y)) y)"

definition act_release :: "nat \<Rightarrow> system \<Rightarrow> system" where
  "act_release i y = (case finish i (sy_sched y) of
     (True, s) \<Rightarrow> add_tasks [HandBack i] (put_sched s y)
   | (False, s) \<Rightarrow> put_sched (stopHeartbeat i s) y)"

definition act_retain :: "nat \<Rightarrow> system \<Rightarrow> system" where
  "act_retain i y =
     (if \<not> ss_keep_on_failure (set_scheduler (sc_set (sy_sched y))) then act_release i y
      else case finish i (sy_sched y) of
        (True, s) \<Rightarrow> add_tasks [RetainStart i] (put_sched s y)
      | (False, s) \<Rightarrow> put_sched (stopHeartbeat i s) y)"

definition act_check :: "nat \<Rightarrow> system \<Rightarrow> system" where
  "act_check i y = (case checkLease_begin i (sy_sched y) of
     CheckReturns r \<Rightarrow> y
   | CheckAsks l \<Rightarrow> add_tasks [CheckCalling i l] y)"

text \<open>\<open>hostUnhealthy\<close> and \<open>abortRunning\<close> abort the handles they found, one after another.\<close>

definition act_probe :: "time \<Rightarrow> string \<Rightarrow> host_info option \<Rightarrow> bool \<Rightarrow> system \<Rightarrow> system" where
  "act_probe now name info failed y = (case recordProbe now name info failed (sy_sched y) of
     (True, s) \<Rightarrow> add_tasks (map (\<lambda>i. Aborting i (HostUnhealthy name)) (filter (placed_on name s) (liveHandles s))) (put_sched s y)
   | (False, s) \<Rightarrow> put_sched s y)"

definition act_abort_running :: "system \<Rightarrow> system" where
  "act_abort_running y = add_tasks (map (\<lambda>i. Aborting i ShutdownElapsed) (liveHandles (sy_sched y))) y"

definition act_allocate :: "nat \<Rightarrow> job_info \<Rightarrow> resolved_profile \<Rightarrow> string \<Rightarrow> system \<Rightarrow> system" where
  "act_allocate r job p request y = (case Allocate_begin (Some r) job (Some p) request (sy_sched y) of
     Inl e \<Rightarrow> y
   | Inr wk \<Rightarrow> y\<lparr>sy_workers := sy_workers y @ [wk]\<rparr>)"

text \<open>
  Everything the Runner and the components around the Scheduler may do. The Tracker, the
  health monitor and the Host registry also change on their own.
\<close>

datatype action =
    ActRun
  | ActStopping
  | ActShutdown
  | ActAbortRunning
  | ActCloseBackground
  | ActBackgroundDone
  | ActStopped
  | ActReserve "ctx_error option" time
  | ActReleaseReservation nat
  | ActAllocate nat job_info resolved_profile string
  | ActWorker nat alloc_env
  | ActTask nat task_env
  | ActRelease nat
  | ActRetain nat
  | ActCheckLease nat
  | ActProbe time string "host_info option" bool
  | ActReload "profile list" "inventory_host list"
  | ActTracker tracker_op
  | ActHealth health
  | ActRegistry registry

fun act :: "params \<Rightarrow> action \<Rightarrow> system \<Rightarrow> system" where
  "act pa ActRun y = put_sched (snd (start_run (sy_sched y))) y"
| "act pa ActStopping y = put_sched (setState StateStopping (sy_sched y)) y"
| "act pa ActShutdown y = put_sched (snd (drained (shutdown_begin (sy_sched y)))) y"
| "act pa ActAbortRunning y = act_abort_running y"
| "act pa ActCloseBackground y = put_sched (closeBackground (sy_sched y)) y"
| "act pa ActBackgroundDone y = put_sched ((sy_sched y)\<lparr>sc_bg_done := True\<rparr>) y"
| "act pa ActStopped y = put_sched (setState StateStopped (sy_sched y)) y"
| "act pa (ActReserve ctx now) y =
     put_sched (snd (Reserve ctx now (wd_health (sy_world y)) (wd_tracker (sy_world y)) (sy_sched y))) y"
| "act pa (ActReleaseReservation r) y =
     put_sched (ReleaseReservation (Some \<lparr>res_id = r, res_granted_at = 0\<rparr>) (sy_sched y)) y"
| "act pa (ActAllocate r job p request) y = act_allocate r job p request y"
| "act pa (ActWorker n env) y = act_worker pa n env y"
| "act pa (ActTask n env) y = act_task pa n env y"
| "act pa (ActRelease i) y = act_release i y"
| "act pa (ActRetain i) y = act_retain i y"
| "act pa (ActCheckLease i) y = act_check i y"
| "act pa (ActProbe now name info failed) y = act_probe now name info failed y"
| "act pa (ActReload ps inventory) y = put_sched (reload_tables ps inventory (sy_sched y)) y"
| "act pa (ActTracker op) y = y\<lparr>sy_world := on_tracker (tracker_perform op) (sy_world y)\<rparr>"
| "act pa (ActHealth h) y = y\<lparr>sy_world := (sy_world y)\<lparr>wd_health := h\<rparr>\<rparr>"
| "act pa (ActRegistry r) y = y\<lparr>sy_world := (sy_world y)\<lparr>wd_registry := r\<rparr>\<rparr>"

definition start_system :: "settings \<Rightarrow> system" where
  "start_system cfg = \<lparr>sy_world = \<lparr>wd_sched = new_sched cfg, wd_tracker = NewTracker, wd_health = NewHealth,
     wd_registry = empty_registry\<rparr>, sy_workers = [], sy_tasks = [], sy_claimed = [], sy_ladders = [], sy_lost = []\<rparr>"

definition run_system :: "params \<Rightarrow> settings \<Rightarrow> action list \<Rightarrow> system" where
  "run_system pa cfg acts = fold (act pa) acts (start_system cfg)"

end
