(* ===== verification/Scheduler_Inv.thy ===== *)
theory Scheduler_Inv
  imports Scheduler_System
begin

text \<open>
  The accounts of the Scheduler in every state the system can reach: Slots, concurrency
  units, waiting callers, and where each Lease is.
\<close>

section \<open>The accounts\<close>

definition known :: "nat \<Rightarrow> sched \<Rightarrow> bool" where
  "known i s \<longleftrightarrow> mget (sc_handles s) i \<noteq> None"

text \<open>What the accounts read of a state.\<close>

definition books :: "sched \<Rightarrow> (nat, time) gomap \<times> (nat, handle) gomap \<times> nat list \<times> (string, int) gomap
    \<times> (pool_ref, int) gomap \<times> nat \<times> int" where
  "books s = (sc_reservations s, sc_handles s, sc_allocations s, sc_profile_use s, sc_waiting s,
     sc_next_id s, set_slots (sc_set s))"

definition sched_ok :: "sched \<Rightarrow> bool" where
  "sched_ok s \<longleftrightarrow> gomap_ok (sc_reservations s) \<and> gomap_ok (sc_handles s) \<and> distinct (sc_allocations s)
   \<and> (\<forall>i \<in> set (sc_allocations s). known i s)
   \<and> (\<forall>i h. mget (sc_handles s) i = Some h \<longrightarrow> h_id h = i \<and> i \<le> sc_next_id s)
   \<and> (\<forall>r at. mget (sc_reservations s) r = Some at \<longrightarrow> r \<le> sc_next_id s)
   \<and> slotsInUseLocked s \<le> set_slots (sc_set s)"

definition profile_at :: "sched \<Rightarrow> string \<Rightarrow> nat \<Rightarrow> bool" where
  "profile_at s name i = (case mget (sc_handles s) i of None \<Rightarrow> False | Some h \<Rightarrow> h_profile h = name)"

fun in_flight :: "alloc_pc \<Rightarrow> bool" where
  "in_flight AwaitProfile = False"
| "in_flight (ProfileFull free) = False"
| "in_flight (Started waits i) = False"
| "in_flight (Returned res) = False"
| "in_flight (Claiming attempt waits) = True"
| "in_flight (Asked attempt waits wake) = True"
| "in_flight (Retrying attempt waits wake) = True"
| "in_flight (Claimed waits c) = True"
| "in_flight (Placed waits c t pl) = True"
| "in_flight (Failing waits e) = True"
| "in_flight (Leaving e) = True"

definition has_unit :: "string \<Rightarrow> worker \<Rightarrow> bool" where
  "has_unit name wk \<longleftrightarrow> in_flight (wk_pc wk) \<and> rp_name (wk_prof wk) = name"

fun pc_waits :: "alloc_pc \<Rightarrow> bool" where
  "pc_waits (Claiming attempt waits) = waits"
| "pc_waits (Asked attempt waits wake) = waits"
| "pc_waits (Retrying attempt waits wake) = waits"
| "pc_waits (Claimed waits c) = waits"
| "pc_waits (Placed waits c t pl) = waits"
| "pc_waits (Started waits i) = waits"
| "pc_waits (Failing waits e) = waits"
| "pc_waits AwaitProfile = False"
| "pc_waits (ProfileFull free) = False"
| "pc_waits (Leaving e) = False"
| "pc_waits (Returned res) = False"

definition waits_on :: "pool_ref \<Rightarrow> worker \<Rightarrow> bool" where
  "waits_on ref wk \<longleftrightarrow> pc_waits (wk_pc wk) \<and> rp_ref (wk_prof wk) = ref"

fun pc_lease :: "alloc_pc \<Rightarrow> string option" where
  "pc_lease (Claimed waits c) = Some (claim_lease c)"
| "pc_lease (Placed waits c t pl) = Some (claim_lease c)"
| "pc_lease pc = None"

fun task_owes :: "task \<Rightarrow> nat option" where
  "task_owes (HandBack i) = Some i"
| "task_owes (RetainStart i) = Some i"
| "task_owes (Retaining i) = Some i"
| "task_owes t = None"

definition owes :: "sched \<Rightarrow> string \<Rightarrow> task \<Rightarrow> bool" where
  "owes s l t = (case task_owes t of None \<Rightarrow> False | Some i \<Rightarrow> lease_id_of i s = Some l)"

text \<open>How many parts of the system answer for a Lease, or have settled it.\<close>

definition custody :: "string \<Rightarrow> system \<Rightarrow> nat" where
  "custody l y = count_if (\<lambda>wk. pc_lease (wk_pc wk) = Some l) (sy_workers y)
     + count_if (\<lambda>i. lease_id_of i (sy_sched y) = Some l) (sc_allocations (sy_sched y))
     + count_if (owes (sy_sched y) l) (sy_tasks y)
     + count_list (sy_ladders y) l + count_list (sy_lost y) l"

text \<open>What a goroutine refers to exists, and the Lease it remembers is the handle's.\<close>

fun task_ok :: "sched \<Rightarrow> task \<Rightarrow> bool" where
  "task_ok s (HandBack i) = known i s"
| "task_ok s (RetainStart i) = known i s"
| "task_ok s (Retaining i) = known i s"
| "task_ok s (Beating i k) = known i s"
| "task_ok s (Pausing i k l) = (lease_id_of i s = Some (ls_id l))"
| "task_ok s (Calling i k l) = (lease_id_of i s = Some (ls_id l))"
| "task_ok s (CheckCalling i l) = (lease_id_of i s = Some (ls_id l))"
| "task_ok s t = True"

definition worker_ok :: "sched \<Rightarrow> worker \<Rightarrow> bool" where
  "worker_ok s wk = (case wk_pc wk of Started waits i \<Rightarrow> known i s | _ \<Rightarrow> True)"

definition units_ok :: "sched \<Rightarrow> worker list \<Rightarrow> bool" where
  "units_ok s wks \<longleftrightarrow> (\<forall>name. profile_use name s
     = int (count_if (profile_at s name) (sc_allocations s)) + int (count_if (has_unit name) wks))"

definition waits_ok :: "sched \<Rightarrow> worker list \<Rightarrow> bool" where
  "waits_ok s wks \<longleftrightarrow> (\<forall>ref. waiting_on ref s = int (count_if (waits_on ref) wks))"

definition accounts :: "system \<Rightarrow> bool" where
  "accounts y \<longleftrightarrow> sched_ok (sy_sched y) \<and> units_ok (sy_sched y) (sy_workers y) \<and> waits_ok (sy_sched y) (sy_workers y)
   \<and> (\<forall>l. custody l y = count_list (sy_claimed y) l)
   \<and> list_all (task_ok (sy_sched y)) (sy_tasks y) \<and> list_all (worker_ok (sy_sched y)) (sy_workers y)"

section \<open>What the parts of a step do to the books\<close>

text \<open>A change that leaves the accounts alone: at most fields of handles they do not read.\<close>

definition calm :: "sched \<Rightarrow> sched \<Rightarrow> bool" where
  "calm s s' \<longleftrightarrow> sc_reservations s' = sc_reservations s \<and> sc_allocations s' = sc_allocations s
   \<and> sc_profile_use s' = sc_profile_use s \<and> sc_waiting s' = sc_waiting s \<and> sc_next_id s' = sc_next_id s
   \<and> set_slots (sc_set s') = set_slots (sc_set s) \<and> (gomap_ok (sc_handles s) \<longrightarrow> gomap_ok (sc_handles s'))
   \<and> (\<forall>i. map_option (\<lambda>h. (h_id h, h_profile h, ls_id (h_lease h))) (mget (sc_handles s') i)
        = map_option (\<lambda>h. (h_id h, h_profile h, ls_id (h_lease h))) (mget (sc_handles s) i))"

lemma calm_refl [simp]: "calm s s"
  by (simp add: calm_def)

lemma calm_trans: "calm s t \<Longrightarrow> calm t u \<Longrightarrow> calm s u"
  by (simp add: calm_def)

lemma calm_books: "books s' = books s \<Longrightarrow> calm s s'"
  by (simp add: books_def calm_def)

lemma calm_on_handle:
  assumes "\<And>h. h_id (f h) = h_id h" "\<And>h. h_profile (f h) = h_profile h"
    and "\<And>h. mget (sc_handles s) i = Some h \<Longrightarrow> ls_id (h_lease (f h)) = ls_id (h_lease h)"
  shows "calm s (on_handle i f s)"
  using assms by (auto simp: calm_def on_handle_def split: option.splits)

lemma calm_mapped:
  assumes "calm s s'"
  shows "map_option (\<lambda>h. (h_id h, h_profile h, ls_id (h_lease h))) (mget (sc_handles s') i)
    = map_option (\<lambda>h. (h_id h, h_profile h, ls_id (h_lease h))) (mget (sc_handles s) i)"
  using assms by (simp add: calm_def)

lemma calm_has: "calm s s' \<Longrightarrow> known i s' = known i s"
  using calm_mapped [of s s' i] unfolding known_def by (cases "mget (sc_handles s) i"; cases "mget (sc_handles s') i") simp_all

lemma calm_lease: "calm s s' \<Longrightarrow> lease_id_of i s' = lease_id_of i s"
  using calm_mapped [of s s' i] unfolding lease_id_of_def
  by (cases "mget (sc_handles s) i"; cases "mget (sc_handles s') i") simp_all

lemma calm_profile: "calm s s' \<Longrightarrow> profile_at s' name = profile_at s name"
proof
  fix i
  assume "calm s s'"
  then show "profile_at s' name i = profile_at s name i"
    using calm_mapped [of s s' i] unfolding profile_at_def
    by (cases "mget (sc_handles s) i"; cases "mget (sc_handles s') i") simp_all
qed

lemma calm_id: "calm s s' \<Longrightarrow> mget (sc_handles s') i = Some h' \<Longrightarrow> \<exists>h. mget (sc_handles s) i = Some h \<and> h_id h' = h_id h"
  using calm_mapped [of s s' i] by (cases "mget (sc_handles s) i") simp_all

lemma calm_same:
  "calm s s' \<Longrightarrow> sc_reservations s' = sc_reservations s \<and> sc_allocations s' = sc_allocations s
   \<and> sc_profile_use s' = sc_profile_use s \<and> sc_waiting s' = sc_waiting s \<and> sc_next_id s' = sc_next_id s
   \<and> set_slots (sc_set s') = set_slots (sc_set s) \<and> (gomap_ok (sc_handles s) \<longrightarrow> gomap_ok (sc_handles s'))"
  by (simp add: calm_def)

lemma calm_sched_ok: "calm s s' \<Longrightarrow> sched_ok s \<Longrightarrow> sched_ok s'"
  using calm_same [of s s'] calm_has [of s s'] calm_id [of s s']
  unfolding sched_ok_def slotsInUseLocked_def by metis

lemma calm_units: "calm s s' \<Longrightarrow> units_ok s' wks = units_ok s wks"
  using calm_same [of s s'] calm_profile [of s s']
  by (simp add: units_ok_def profile_use_def)

lemma calm_waits: "calm s s' \<Longrightarrow> waits_ok s' wks = waits_ok s wks"
  using calm_same [of s s'] by (simp add: waits_ok_def waiting_on_def)

lemma calm_task: "calm s s' \<Longrightarrow> task_ok s' = task_ok s"
  by (rule ext, case_tac x) (simp_all add: calm_has calm_lease)

lemma calm_worker: "calm s s' \<Longrightarrow> worker_ok s' = worker_ok s"
  by (rule ext) (simp add: worker_ok_def calm_has split: alloc_pc.splits)

lemma calm_owes: "calm s s' \<Longrightarrow> owes s' l = owes s l"
  by (rule ext) (simp add: owes_def calm_lease split: option.splits)

lemmas calm_simps = calm_units calm_waits calm_task calm_worker calm_owes calm_lease calm_has

lemma sy_sched_put [simp]: "sy_sched (put_sched s y) = s"
  by (simp add: put_sched_def)

lemma put_sched_simps [simp]:
  "sy_workers (put_sched s y) = sy_workers y" "sy_tasks (put_sched s y) = sy_tasks y"
  "sy_claimed (put_sched s y) = sy_claimed y" "sy_ladders (put_sched s y) = sy_ladders y"
  "sy_lost (put_sched s y) = sy_lost y"
  by (simp_all add: put_sched_def)

lemma add_tasks_simps [simp]:
  "sy_world (add_tasks ts y) = sy_world y" "sy_workers (add_tasks ts y) = sy_workers y"
  "sy_tasks (add_tasks ts y) = sy_tasks y @ ts" "sy_claimed (add_tasks ts y) = sy_claimed y"
  "sy_ladders (add_tasks ts y) = sy_ladders y" "sy_lost (add_tasks ts y) = sy_lost y"
  by (simp_all add: add_tasks_def)

text \<open>A calm change, with new goroutines that answer for no Lease.\<close>

lemma accounts_calm:
  assumes "accounts y" "calm (sy_sched y) (sy_sched y')" "sy_workers y' = sy_workers y"
    and "sy_tasks y' = sy_tasks y @ ts" "list_all (task_ok (sy_sched y)) ts" "list_all (\<lambda>t. task_owes t = None) ts"
    and "sy_claimed y' = sy_claimed y" "sy_ladders y' = sy_ladders y" "sy_lost y' = sy_lost y"
  shows "accounts y'"
proof -
  have none: "count_if (owes (sy_sched y) l) ts = 0" for l
    using assms(6) by (intro count_if_none) (auto simp: owes_def list_all_iff)
  have "custody l y' = custody l y" for l
    using assms calm_same [OF assms(2)] none
    by (simp add: custody_def calm_simps [OF assms(2)])
  then show ?thesis
    using assms calm_sched_ok [OF assms(2)] by (simp add: accounts_def calm_simps [OF assms(2)])
qed

subsection \<open>Ending an Allocation\<close>

lemma finish_False: "finish i s = (False, s') \<Longrightarrow> s' = s"
  by (auto simp: finish_def Let_def split: option.splits if_splits list.splits)

lemma profile_use_release:
  "profile_use name (releaseProfileLocked name' s) =
     (if name = name' then (if profile_use name s > 1 then profile_use name s - 1 else 0) else profile_use name s)"
  by (simp add: releaseProfileLocked_def profile_use_def Let_def)

lemma releaseProfileLocked_same [simp]:
  "sc_reservations (releaseProfileLocked name s) = sc_reservations s"
  "sc_handles (releaseProfileLocked name s) = sc_handles s"
  "sc_allocations (releaseProfileLocked name s) = sc_allocations s"
  "sc_waiting (releaseProfileLocked name s) = sc_waiting s"
  "sc_next_id (releaseProfileLocked name s) = sc_next_id s"
  "sc_set (releaseProfileLocked name s) = sc_set s"
  "sc_drain (releaseProfileLocked name s) = sc_drain s"
  by (simp_all add: releaseProfileLocked_def Let_def)

lemma profile_use_update [simp]:
  "profile_use name (s\<lparr>sc_drain := d, sc_drained := ds\<rparr>) = profile_use name s"
  "profile_use name (s\<lparr>sc_allocations := al, sc_placements := pls\<rparr>) = profile_use name s"
  "profile_use name (s\<lparr>sc_waiting := ws\<rparr>) = profile_use name s"
  by (simp_all add: profile_use_def)

lemma finish_True:
  assumes "finish i s = (True, s')"
  shows "\<exists>h. mget (sc_handles s) i = Some h \<and> i \<in> set (sc_allocations s)
    \<and> sc_reservations s' = sc_reservations s \<and> sc_handles s' = sc_handles s
    \<and> sc_allocations s' = remove1 i (sc_allocations s) \<and> sc_waiting s' = sc_waiting s
    \<and> sc_next_id s' = sc_next_id s \<and> sc_set s' = sc_set s
    \<and> (\<forall>name. profile_use name s' = (if name = h_profile h
          then (if profile_use name s > 1 then profile_use name s - 1 else 0) else profile_use name s))"
  using assms
  by (auto simp: finish_def Let_def holds_def profile_use_release split: option.splits if_splits list.splits)


lemma finish_accounts:
  assumes "accounts y" "finish i (sy_sched y) = (True, s')"
  shows "sched_ok s' \<and> units_ok s' (sy_workers y) \<and> waits_ok s' (sy_workers y)"
proof -
  from finish_True [OF assms(2)] obtain h where h: "mget (sc_handles (sy_sched y)) i = Some h"
    and i: "i \<in> set (sc_allocations (sy_sched y))" and same: "sc_reservations s' = sc_reservations (sy_sched y)"
      "sc_handles s' = sc_handles (sy_sched y)" "sc_allocations s' = remove1 i (sc_allocations (sy_sched y))"
      "sc_waiting s' = sc_waiting (sy_sched y)" "sc_next_id s' = sc_next_id (sy_sched y)" "sc_set s' = sc_set (sy_sched y)"
    and used: "\<And>name. profile_use name s' = (if name = h_profile h
          then (if profile_use name (sy_sched y) > 1 then profile_use name (sy_sched y) - 1 else 0)
          else profile_use name (sy_sched y))" by blast
  have at: "profile_at s' name = profile_at (sy_sched y) name" for name
    by (rule ext) (simp add: profile_at_def same)
  have one: "count_if (profile_at (sy_sched y) name) (remove1 i (sc_allocations (sy_sched y)))
      + (if name = h_profile h then 1 else 0) = count_if (profile_at (sy_sched y) name) (sc_allocations (sy_sched y))" for name
    using count_if_remove1 [OF i, of "profile_at (sy_sched y) name"] h by (auto simp: profile_at_def)
  have ok: "sched_ok (sy_sched y)" "units_ok (sy_sched y) (sy_workers y)" "waits_ok (sy_sched y) (sy_workers y)"
    using assms(1) by (simp_all add: accounts_def)
  have "sched_ok s'"
    using ok(1) i set_remove1_subset [of i "sc_allocations (sy_sched y)"]
    by (auto simp: sched_ok_def same known_def slotsInUseLocked_def length_remove1)
  moreover have "units_ok s' (sy_workers y)"
    unfolding units_ok_def
  proof
    fix name
    show "profile_use name s' = int (count_if (profile_at s' name) (sc_allocations s')) + int (count_if (has_unit name) (sy_workers y))"
      using ok(2) [unfolded units_ok_def, rule_format, of name] one [of name] by (simp add: used at same split: if_splits)
  qed
  moreover have "waits_ok s' (sy_workers y)"
    using ok(3) by (simp add: waits_ok_def waiting_on_def same)
  ultimately show ?thesis by simp
qed

lemma finish_lease: "finish i s = (True, s') \<Longrightarrow> lease_id_of j s' = lease_id_of j s"
  using finish_True by (fastforce simp: lease_id_of_def)

lemma finish_owes: "finish i s = (True, s') \<Longrightarrow> owes s' l = owes s l"
  by (rule ext) (simp add: owes_def finish_lease split: option.splits)

lemma finish_known: "finish i s = (True, s') \<Longrightarrow> known j s' = known j s"
  using finish_True by (fastforce simp: known_def)

lemma finish_task: "finish i s = (True, s') \<Longrightarrow> task_ok s' = task_ok s"
  by (rule ext, case_tac x) (simp_all add: finish_known finish_lease)

lemma finish_worker: "finish i s = (True, s') \<Longrightarrow> worker_ok s' = worker_ok s"
  by (rule ext) (simp add: worker_ok_def finish_known split: alloc_pc.splits)

lemma finish_count:
  assumes "finish i s = (True, s')"
  shows "count_if (\<lambda>j. lease_id_of j s = Some l) (sc_allocations s')
    + (if lease_id_of i s = Some l then 1 else 0) = count_if (\<lambda>j. lease_id_of j s = Some l) (sc_allocations s)"
  using finish_True [OF assms] count_if_remove1 [of i "sc_allocations s"] by fastforce

lemma finish_knows: "finish i s = (True, s') \<Longrightarrow> known i s"
  using finish_True by (fastforce simp: known_def)

text \<open>
  Ending an Allocation moves its Lease from the Allocations to the goroutines that still
  owe its release, or to the Leases that are lost.
\<close>

lemma accounts_finish:
  assumes "accounts y" "finish i (sy_sched y) = (True, s')" "sy_sched y' = s'" "sy_workers y' = sy_workers y"
    and "sy_claimed y' = sy_claimed y" "sy_ladders y' = sy_ladders y"
    and "\<And>l. count_if (owes (sy_sched y) l) (sy_tasks y') + count_list (sy_lost y') l
      = count_if (owes (sy_sched y) l) (sy_tasks y) + count_list (sy_lost y) l + (if lease_id_of i (sy_sched y) = Some l then 1 else 0)"
    and "list_all (task_ok (sy_sched y)) (sy_tasks y')"
  shows "accounts y'"
proof -
  note f = assms(2)
  have "custody l y' = custody l y" for l
    using finish_count [OF f, of l] assms(7) [of l] unfolding custody_def assms(3-6) finish_lease [OF f] finish_owes [OF f]
    by linarith
  moreover have "list_all (worker_ok (sy_sched y)) (sy_workers y)" "\<forall>l. custody l y = count_list (sy_claimed y) l"
    using assms(1) by (simp_all add: accounts_def)
  ultimately show ?thesis
    using finish_accounts [OF assms(1) f] assms(8)
    by (simp add: accounts_def assms(3-6) finish_task [OF f] finish_worker [OF f])
qed


subsection \<open>Goroutines\<close>

lemma put_task_simps [simp]:
  "sy_sched (put_task n r y) = tr_sched r" "sy_workers (put_task n r y) = sy_workers y"
  "sy_tasks (put_task n r y) = (sy_tasks y)[n := tr_task r]" "sy_claimed (put_task n r y) = sy_claimed y"
  "sy_ladders (put_task n r y) = sy_ladders y @ map ls_id (tr_handed r)" "sy_lost (put_task n r y) = sy_lost y @ tr_lost r"
  by (simp_all add: put_task_def put_sched_def)

lemma quiet_simps [simp]:
  "tr_task (quiet t s) = t" "tr_sched (quiet t s) = s" "tr_handed (quiet t s) = []" "tr_lost (quiet t s) = []"
  by (simp_all add: quiet_def)

text \<open>A goroutine that ends no Allocation passes on what it owed.\<close>

definition passes_on :: "sched \<Rightarrow> task \<Rightarrow> task_result \<Rightarrow> bool" where
  "passes_on s t r \<longleftrightarrow> calm s (tr_sched r) \<and> task_ok s (tr_task r)
   \<and> (\<forall>l. (if owes s l (tr_task r) then 1 else 0) + count_list (map ls_id (tr_handed r)) l + count_list (tr_lost r) l
        = (if owes s l t then 1 else 0))"

lemma accounts_passes_on:
  assumes "accounts y" "n < length (sy_tasks y)" "passes_on (sy_sched y) (sy_tasks y ! n) r"
  shows "accounts (put_task n r y)"
proof -
  have c: "calm (sy_sched y) (tr_sched r)" and ok: "task_ok (sy_sched y) (tr_task r)"
    using assms(3) by (simp_all add: passes_on_def)
  have "custody l (put_task n r y) = custody l y" for l
    using calm_same [OF c] count_if_update [OF assms(2), of "owes (sy_sched y) l" "tr_task r"]
      assms(3) [unfolded passes_on_def, THEN conjunct2, THEN conjunct2, rule_format, of l]
    by (simp add: custody_def calm_simps [OF c])
  moreover have "list_all (task_ok (sy_sched y)) ((sy_tasks y)[n := tr_task r])"
    using assms(1) ok by (simp add: accounts_def list_all_update)
  ultimately show ?thesis
    using assms(1) calm_sched_ok [OF c] by (simp add: accounts_def calm_simps [OF c])
qed

lemma passes_on_quiet: "calm s s' \<Longrightarrow> task_ok s t' \<Longrightarrow> task_owes t = None \<Longrightarrow> task_owes t' = None \<Longrightarrow> passes_on s t (quiet t' s')"
  by (simp add: passes_on_def owes_def)

lemma calm_stop [simp]: "calm s (stopHeartbeat i s)"
  unfolding stopHeartbeat_def by (rule calm_on_handle) simp_all

lemma calm_fail [simp]: "calm s (on_handle i (fail e) s)"
  by (rule calm_on_handle) (simp_all add: fail_def)

lemma calm_lose [simp]: "calm s (lose_lease e i s)"
  unfolding lose_lease_def by (rule calm_on_handle) (simp_all add: fail_def markLeaseGone_def)

lemma calm_setLease: "lease_id_of i s = Some (ls_id l) \<Longrightarrow> calm s (on_handle i (setLease l) s)"
  by (rule calm_on_handle) (auto simp: setLease_def lease_id_of_def)

lemma known_lease: "known i s \<Longrightarrow> \<exists>l. lease_id_of i s = Some l"
  by (auto simp: known_def lease_id_of_def)

lemma mget_stop: "mget (sc_handles (stopHeartbeat i s)) i = map_option (\<lambda>h. h\<lparr>h_beating := False\<rparr>) (mget (sc_handles s) i)"
  by (simp add: stopHeartbeat_def on_handle_def split: option.splits)

lemma passes_on_hand_back:
  "known i s \<Longrightarrow> task_owes t = Some i \<Longrightarrow> passes_on s t (settle i s (hand_back i s))"
  by (auto simp: passes_on_def settle_def hand_back_def Let_def mget_stop known_def owes_def lost_ids_def lease_id_of_def
      split: option.splits)

lemma passes_on_retain:
  "known i s \<Longrightarrow> passes_on s (RetainStart i) (task_step pa env (RetainStart i) s)"
  by (auto simp: passes_on_def settle_def retain_start_def Let_def known_def owes_def lost_ids_def lease_id_of_def
      split: option.splits)

lemma passes_on_beating: "known i s \<Longrightarrow> passes_on s (Beating i k) (task_step pa env (Beating i k) s)"
  by (auto simp: step_beating_def known_def lease_id_of_def intro!: passes_on_quiet split: beat.splits option.splits)

lemma passes_on_pausing: "task_ok s (Pausing i k l) \<Longrightarrow> passes_on s (Pausing i k l) (task_step pa env (Pausing i k l) s)"
  by (auto simp: step_pausing_def intro!: passes_on_quiet)

lemma passes_on_calling: "task_ok s (Calling i k l) \<Longrightarrow> passes_on s (Calling i k l) (task_step pa env (Calling i k l) s)"
  by (auto simp: step_calling_def heartbeat_answer_def known_def lease_id_of_def
      intro!: passes_on_quiet calm_setLease split: beat_result.splits sum.splits if_splits)

lemma passes_on_check: "task_ok s (CheckCalling i l) \<Longrightarrow> passes_on s (CheckCalling i l) (task_step pa env (CheckCalling i l) s)"
  by (auto simp: step_check_def checkLease_answer_def Let_def
      intro!: passes_on_quiet calm_setLease split: check_answer.splits sum.splits if_splits option.splits)

lemma passes_on_probing: "passes_on s (Probing i f) (task_step pa env (Probing i f) s)"
  by (auto simp: step_probing_def intro!: passes_on_quiet)

lemma passes_on_agent: "passes_on s (AgentAsked i f) (task_step pa env (AgentAsked i f) s)"
  by (auto simp: step_agent_def intro!: passes_on_quiet)


lemma passes_on_abort: "passes_on s (Aborting i e) (task_step pa env (Aborting i e) s)"
  by (simp add: passes_on_quiet)

lemma passes_on_over: "passes_on s TaskOver (task_step pa env TaskOver s)"
  by (simp add: passes_on_quiet)

lemma passes_on_retaining: "known i s \<Longrightarrow> passes_on s (Retaining i) (task_step pa env (Retaining i) s)"
  by (simp add: passes_on_hand_back) (simp add: passes_on_def)

lemma accounts_ending:
  assumes "accounts y" "n < length (sy_tasks y)" "sy_tasks y ! n = Ending i"
  shows "accounts (put_task n (task_step pa env (Ending i) (sy_sched y)) y)"
proof (cases "finish i (sy_sched y)")
  case (Pair ended s')
  show ?thesis
  proof (cases ended)
    case True
    with Pair have f: "finish i (sy_sched y) = (True, s')" by simp
    show ?thesis
    proof (rule accounts_finish [OF assms(1) f])
      show "list_all (task_ok (sy_sched y)) (sy_tasks (put_task n (task_step pa env (Ending i) (sy_sched y)) y))"
        using assms(1) finish_knows [OF f] by (simp add: f accounts_def list_all_update)
      show "count_if (owes (sy_sched y) l) (sy_tasks (put_task n (task_step pa env (Ending i) (sy_sched y)) y))
          + count_list (sy_lost (put_task n (task_step pa env (Ending i) (sy_sched y)) y)) l
        = count_if (owes (sy_sched y) l) (sy_tasks y) + count_list (sy_lost y) l
          + (if lease_id_of i (sy_sched y) = Some l then 1 else 0)" for l
        using count_if_update [OF assms(2), of "owes (sy_sched y) l" "HandBack i"] assms(3) by (simp add: f owes_def)
    qed (simp_all add: f)
  next
    case False
    with Pair have f: "finish i (sy_sched y) = (False, s')" by simp
    then have "s' = sy_sched y" by (rule finish_False)
    with f have "task_step pa env (Ending i) (sy_sched y) = quiet TaskOver (sy_sched y)" by simp
    then show ?thesis
      using accounts_passes_on [OF assms(1,2)] assms(3) by (simp add: passes_on_quiet)
  qed
qed

lemma count_list_lost: "known i s \<Longrightarrow> count_list (lost_ids i s) l = (if lease_id_of i s = Some l then 1 else 0)"
  by (auto simp: lost_ids_def known_def lease_id_of_def split: option.splits)

lemma accounts_losing:
  assumes "accounts y" "n < length (sy_tasks y)" "sy_tasks y ! n = Losing i from_loop"
  shows "accounts (put_task n (step_losing i from_loop (sy_sched y)) y)"
proof (cases "finish i (sy_sched y)")
  case (Pair ended s')
  show ?thesis
  proof (cases ended)
    case True
    with Pair have f: "finish i (sy_sched y) = (True, s')" by simp
    define mid where "mid = put_task n \<lparr>tr_task = TaskOver, tr_sched = s', tr_handed = [], tr_lost = lost_ids i (sy_sched y)\<rparr> y"
    have "accounts mid"
    proof (rule accounts_finish [OF assms(1) f])
      show "list_all (task_ok (sy_sched y)) (sy_tasks mid)"
        using assms(1) by (simp add: mid_def accounts_def list_all_update)
      show "count_if (owes (sy_sched y) l) (sy_tasks mid) + count_list (sy_lost mid) l
        = count_if (owes (sy_sched y) l) (sy_tasks y) + count_list (sy_lost y) l
          + (if lease_id_of i (sy_sched y) = Some l then 1 else 0)" for l
        using count_if_update [OF assms(2), of "owes (sy_sched y) l" TaskOver] assms(3) finish_knows [OF f]
        by (simp add: mid_def owes_def count_list_lost)
    qed (simp_all add: mid_def)
    then show ?thesis
      by (rule accounts_calm [where ts = "[]"]) (simp_all add: mid_def step_losing_def f)
  next
    case False
    with Pair have f: "finish i (sy_sched y) = (False, s')" by simp
    then have "s' = sy_sched y" by (rule finish_False)
    then have "passes_on (sy_sched y) (Losing i from_loop) (step_losing i from_loop (sy_sched y))"
      by (simp add: step_losing_def f passes_on_def owes_def)
    then show ?thesis
      using accounts_passes_on [OF assms(1,2)] assms(3) by simp
  qed
qed

lemma passes_on_task:
  assumes "\<nexists>i b. t = Ending i \<or> t = Losing i b" "task_ok s t"
  shows "passes_on s t (task_step pa env t s)"
  using assms passes_on_abort passes_on_over passes_on_agent passes_on_probing
  by (cases t) (auto intro!: passes_on_hand_back passes_on_retain passes_on_beating passes_on_pausing
      passes_on_calling passes_on_check passes_on_retaining simp del: task_step.simps(2-6,8-13))

theorem accounts_task: "accounts y \<Longrightarrow> accounts (act_task pa n env y)"
proof (cases "n < length (sy_tasks y)")
  case True
  assume a: "accounts y"
  then have ok: "task_ok (sy_sched y) (sy_tasks y ! n)"
    using True by (simp add: accounts_def list_all_length)
  show ?thesis
  proof (cases "\<exists>i b. sy_tasks y ! n = Ending i \<or> sy_tasks y ! n = Losing i b")
    case True
    with \<open>n < length (sy_tasks y)\<close> a show ?thesis
      by (auto simp: act_task_def accounts_losing simp del: task_step.simps(10) intro!: accounts_ending)
  next
    case False
    with \<open>n < length (sy_tasks y)\<close> a ok show ?thesis
      by (simp add: act_task_def accounts_passes_on passes_on_task)
  qed
qed (simp add: act_task_def)

subsection \<open>Workers\<close>

text \<open>What a worker may rely on, and what its step has to give.\<close>

definition units_left :: "string \<Rightarrow> sched \<Rightarrow> worker \<Rightarrow> int" where
  "units_left name s wk = profile_use name s - int (count_if (profile_at s name) (sc_allocations s))
     - (if has_unit name wk then 1 else 0)"

definition waits_left :: "pool_ref \<Rightarrow> sched \<Rightarrow> worker \<Rightarrow> int" where
  "waits_left ref s wk = waiting_on ref s - (if waits_on ref wk then 1 else 0)"

definition entitled :: "sched \<Rightarrow> worker \<Rightarrow> bool" where
  "entitled s wk \<longleftrightarrow> sched_ok s \<and> worker_ok s wk \<and> (\<forall>name. 0 \<le> units_left name s wk) \<and> (\<forall>ref. 0 \<le> waits_left ref s wk)"

lemma entitled_has:
  assumes "entitled s wk"
  shows "sched_ok s" "worker_ok s wk" "0 \<le> profile_use name s" "0 \<le> waiting_on ref s"
    "in_flight (wk_pc wk) \<Longrightarrow> 0 < profile_use (rp_name (wk_prof wk)) s"
    "pc_waits (wk_pc wk) \<Longrightarrow> 0 < waiting_on (rp_ref (wk_prof wk)) s"
proof -
  note e = assms [unfolded entitled_def]
  show "sched_ok s" "worker_ok s wk" using e by simp_all
  from e have u: "0 \<le> units_left n s wk" and w: "0 \<le> waits_left r s wk" for n r by blast+
  show "0 \<le> profile_use name s" using u [of name] by (simp add: units_left_def split: if_splits)
  show "0 \<le> waiting_on ref s" using w [of ref] by (simp add: waits_left_def split: if_splits)
  show "in_flight (wk_pc wk) \<Longrightarrow> 0 < profile_use (rp_name (wk_prof wk)) s"
    using u [of "rp_name (wk_prof wk)"] by (simp add: units_left_def has_unit_def)
  show "pc_waits (wk_pc wk) \<Longrightarrow> 0 < waiting_on (rp_ref (wk_prof wk)) s"
    using w [of "rp_ref (wk_prof wk)"] by (simp add: waits_left_def waits_on_def)
qed

definition leases_held :: "string \<Rightarrow> sched \<Rightarrow> worker \<Rightarrow> nat" where
  "leases_held l s wk = count_if (\<lambda>i. lease_id_of i s = Some l) (sc_allocations s)
     + (if pc_lease (wk_pc wk) = Some l then 1 else 0)"

definition balanced :: "sched \<Rightarrow> worker \<Rightarrow> sched \<Rightarrow> worker \<Rightarrow> string list \<Rightarrow> string list \<Rightarrow> bool" where
  "balanced s wk s' wk' got handed \<longleftrightarrow> sched_ok s' \<and> worker_ok s' wk' \<and> wk_prof wk' = wk_prof wk
   \<and> (\<forall>i. known i s \<longrightarrow> known i s' \<and> lease_id_of i s' = lease_id_of i s)
   \<and> (\<forall>name. units_left name s' wk' = units_left name s wk)
   \<and> (\<forall>ref. waits_left ref s' wk' = waits_left ref s wk)
   \<and> (\<forall>l. leases_held l s' wk' + count_list handed l = leases_held l s wk + count_list got l)"

lemma task_ok_mono: "task_ok s t \<Longrightarrow> (\<forall>i. known i s \<longrightarrow> known i s' \<and> lease_id_of i s' = lease_id_of i s) \<Longrightarrow> task_ok s' t"
  by (cases t) (auto simp: known_def lease_id_of_def)

lemma worker_ok_mono: "worker_ok s wk \<Longrightarrow> (\<forall>i. known i s \<longrightarrow> known i s' \<and> lease_id_of i s' = lease_id_of i s) \<Longrightarrow> worker_ok s' wk"
  by (simp add: worker_ok_def split: alloc_pc.splits)

lemma owes_mono:
  "task_ok s t \<Longrightarrow> (\<forall>i. known i s \<longrightarrow> known i s' \<and> lease_id_of i s' = lease_id_of i s) \<Longrightarrow> owes s' l t = owes s l t"
  by (cases t) (simp_all add: owes_def)

lemma accounts_entitled:
  assumes "accounts y" "n < length (sy_workers y)"
  shows "entitled (sy_sched y) (sy_workers y ! n)"
proof -
  let ?wk = "sy_workers y ! n"
  have mem: "?wk \<in> set (sy_workers y)" using assms(2) by simp
  have "profile_use name (sy_sched y) = int (count_if (profile_at (sy_sched y) name) (sc_allocations (sy_sched y)))
      + int (count_if (has_unit name) (sy_workers y))" for name
    using assms(1) by (simp add: accounts_def units_ok_def)
  then have "0 \<le> units_left name (sy_sched y) ?wk" for name
    using count_if_pos [OF mem, of "has_unit name"] by (auto simp: units_left_def Suc_le_eq)
  moreover have "waiting_on ref (sy_sched y) = int (count_if (waits_on ref) (sy_workers y))" for ref
    using assms(1) by (simp add: accounts_def waits_ok_def)
  then have "0 \<le> waits_left ref (sy_sched y) ?wk" for ref
    using count_if_pos [OF mem, of "waits_on ref"] by (auto simp: waits_left_def Suc_le_eq)
  ultimately show ?thesis
    using assms(1) mem by (simp add: entitled_def accounts_def list_all_iff)
qed

lemma entitled_balanced: "entitled s wk \<Longrightarrow> balanced s wk s' wk' got handed \<Longrightarrow> entitled s' wk'"
  by (simp add: entitled_def balanced_def)

lemma accounts_balanced:
  assumes "accounts y" "n < length (sy_workers y)" "balanced (sy_sched y) (sy_workers y ! n) (sy_sched y') wk' got handed"
    and "sy_workers y' = (sy_workers y)[n := wk']" "sy_tasks y' = sy_tasks y @ ts"
    and "list_all (task_ok (sy_sched y')) ts" "list_all (\<lambda>t. task_owes t = None) ts"
    and "sy_claimed y' = sy_claimed y @ got" "sy_ladders y' = sy_ladders y @ handed" "sy_lost y' = sy_lost y"
  shows "accounts y'"
proof -
  note b = assms(3) [unfolded balanced_def]
  from b have mono: "\<forall>i. known i (sy_sched y) \<longrightarrow> known i (sy_sched y') \<and> lease_id_of i (sy_sched y') = lease_id_of i (sy_sched y)"
    by blast
  have tasks: "list_all (task_ok (sy_sched y)) (sy_tasks y)" using assms(1) by (simp add: accounts_def)
  have "units_ok (sy_sched y') (sy_workers y')" unfolding units_ok_def
  proof
    fix name
    have "units_left name (sy_sched y') wk' = units_left name (sy_sched y) (sy_workers y ! n)" using b by blast
    then show "profile_use name (sy_sched y') = int (count_if (profile_at (sy_sched y') name) (sc_allocations (sy_sched y')))
        + int (count_if (has_unit name) (sy_workers y'))"
      using count_if_update [OF assms(2), of "has_unit name" wk'] assms(1) [unfolded accounts_def units_ok_def]
      by (simp add: units_left_def assms(4) split: if_splits)
  qed
  moreover have "waits_ok (sy_sched y') (sy_workers y')" unfolding waits_ok_def
  proof
    fix ref
    have "waits_left ref (sy_sched y') wk' = waits_left ref (sy_sched y) (sy_workers y ! n)" using b by blast
    then show "waiting_on ref (sy_sched y') = int (count_if (waits_on ref) (sy_workers y'))"
      using count_if_update [OF assms(2), of "waits_on ref" wk'] assms(1) [unfolded accounts_def waits_ok_def]
      by (simp add: waits_left_def assms(4) split: if_splits)
  qed
  moreover have "custody l y' = count_list (sy_claimed y') l" for l
  proof -
    have "count_if (owes (sy_sched y') l) (sy_tasks y') = count_if (owes (sy_sched y) l) (sy_tasks y)"
      using count_if_none [of ts "owes (sy_sched y') l"] assms(7) count_if_cong [OF refl, of "sy_tasks y" "owes (sy_sched y') l" "owes (sy_sched y) l"]
        owes_mono [OF _ mono] tasks by (auto simp: assms(5) owes_def list_all_iff)
    moreover have "leases_held l (sy_sched y') wk' + count_list handed l = leases_held l (sy_sched y) (sy_workers y ! n) + count_list got l"
      using b by blast
    moreover have "custody l y = count_list (sy_claimed y) l" using assms(1) by (simp add: accounts_def)
    ultimately show ?thesis
      using count_if_update [OF assms(2), of "\<lambda>wk. pc_lease (wk_pc wk) = Some l" wk']
      by (simp add: custody_def leases_held_def assms(4,8-10))
  qed
  moreover have "list_all (task_ok (sy_sched y')) (sy_tasks y')"
    using tasks assms(6) task_ok_mono [OF _ mono] by (auto simp: assms(5) list_all_iff)
  moreover have "list_all (worker_ok (sy_sched y')) (sy_workers y')"
    using assms(1) b worker_ok_mono [OF _ mono] unfolding assms(4)
    by (intro list_all_update) (auto simp: accounts_def list_all_iff)
  ultimately show ?thesis using b by (simp add: accounts_def)
qed


lemma balanced_calm:
  assumes "entitled s wk" "calm s s'" "wk' = wk\<lparr>wk_pc := pc\<rparr>" "in_flight pc = in_flight (wk_pc wk)" "pc_waits pc = pc_waits (wk_pc wk)"
    and "worker_ok s wk'"
    and "\<And>l. (if pc_lease pc = Some l then 1 else 0) + count_list handed l = (if pc_lease (wk_pc wk) = Some l then 1 else 0) + count_list got l"
  shows "balanced s wk s' wk' got handed"
proof -
  have "profile_use name s' = profile_use name s" "waiting_on ref s' = waiting_on ref s" for name ref
    using calm_same [OF assms(2)] by (simp_all add: profile_use_def waiting_on_def)
  then show ?thesis
    using assms calm_same [OF assms(2)] calm_sched_ok [OF assms(2)]
    by (simp add: balanced_def entitled_def units_left_def waits_left_def leases_held_def has_unit_def waits_on_def
        calm_simps [OF assms(2)] calm_profile [OF assms(2)])
qed

lemma profile_use_enter:
  "enterProfile p s = ((True, free), s') \<Longrightarrow> profile_use name s' = profile_use name s + (if name = rp_name p then 1 else 0)"
  by (auto simp: enterProfile_def profile_use_def split: if_splits)

lemma waiting_on_wait: "waiting_on ref (snd (waitOnPool ref' d s))
    = (if ref = ref' then max 0 (waiting_on ref s + d) else waiting_on ref s)"
  by (auto simp: waitOnPool_def waiting_on_def Let_def)

lemma waitOnPool_same [simp]:
  "sc_reservations (snd (waitOnPool ref d s)) = sc_reservations s" "sc_handles (snd (waitOnPool ref d s)) = sc_handles s"
  "sc_allocations (snd (waitOnPool ref d s)) = sc_allocations s" "sc_profile_use (snd (waitOnPool ref d s)) = sc_profile_use s"
  "sc_next_id (snd (waitOnPool ref d s)) = sc_next_id s" "sc_set (snd (waitOnPool ref d s)) = sc_set s"
  by (simp_all add: waitOnPool_def Let_def)

lemma throttled_same [simp]: "books (snd (throttled now key s)) = books s"
  by (simp add: throttled_def books_def split: option.splits)

lemma throttled_fields [simp]:
  "sc_reservations (snd (throttled now key s)) = sc_reservations s" "sc_handles (snd (throttled now key s)) = sc_handles s"
  "sc_allocations (snd (throttled now key s)) = sc_allocations s" "sc_profile_use (snd (throttled now key s)) = sc_profile_use s"
  "sc_waiting (snd (throttled now key s)) = sc_waiting s"
  "sc_next_id (snd (throttled now key s)) = sc_next_id s" "sc_set (snd (throttled now key s)) = sc_set s"
  by (simp_all add: throttled_def split: option.splits)

lemma throttled_reads [simp]:
  "waiting_on ref (snd (throttled now key s)) = waiting_on ref s"
  "profile_use name (snd (throttled now key s)) = profile_use name s"
  by (simp_all add: waiting_on_def profile_use_def)

lemma profile_use_wait [simp]: "profile_use name (snd (waitOnPool ref d s)) = profile_use name s"
  by (simp add: profile_use_def)

text \<open>A change of the use of Profiles and of the callers waiting, and of nothing else the accounts read.\<close>

lemma balanced_use:
  assumes "entitled s wk" "wk' = wk\<lparr>wk_pc := pc\<rparr>" "pc_lease pc = pc_lease (wk_pc wk)" "worker_ok s wk'"
    and same: "sc_reservations s' = sc_reservations s" "sc_handles s' = sc_handles s" "sc_allocations s' = sc_allocations s"
      "sc_next_id s' = sc_next_id s" "sc_set s' = sc_set s"
    and "\<And>name. profile_use name s' - (if in_flight pc \<and> rp_name (wk_prof wk) = name then 1 else 0)
      = profile_use name s - (if in_flight (wk_pc wk) \<and> rp_name (wk_prof wk) = name then 1 else 0)"
    and "\<And>ref. waiting_on ref s' - (if pc_waits pc \<and> rp_ref (wk_prof wk) = ref then 1 else 0)
      = waiting_on ref s - (if pc_waits (wk_pc wk) \<and> rp_ref (wk_prof wk) = ref then 1 else 0)"
  shows "balanced s wk s' wk' [] []"
proof -
  have "known i s' = known i s" "lease_id_of i s' = lease_id_of i s" "profile_at s' name = profile_at s name" for i name
    by (simp_all add: known_def lease_id_of_def profile_at_def fun_eq_iff same)
  moreover have "sched_ok s'" using assms(1) by (simp add: entitled_def sched_ok_def known_def slotsInUseLocked_def same)
  moreover have "worker_ok s' wk'" using assms(4) by (simp add: worker_ok_def known_def same split: alloc_pc.splits)
  ultimately show ?thesis
    using assms by (simp add: balanced_def units_left_def waits_left_def leases_held_def has_unit_def waits_on_def)
qed


text \<open>The step of a worker keeps the balance, point by point of its program.\<close>

definition fair_step :: "params \<Rightarrow> alloc_env \<Rightarrow> worker \<Rightarrow> world \<Rightarrow> bool" where
  "fair_step pa env wk w \<longleftrightarrow> (case worker_step (pa_health pa) env wk w of ((wk', w'), handed) \<Rightarrow>
     balanced (wd_sched w) wk (wd_sched w') wk' (claimed_ids env wk) (map ls_id handed))"

lemma fair_await:
  assumes "entitled (wd_sched w) wk" "wk_pc wk = AwaitProfile"
  shows "fair_step pa env wk w"
proof (cases "enterProfile (wk_prof wk) (wd_sched w)")
  case (Pair ef s')
  obtain entered free where ef: "ef = (entered, free)" by (cases ef)
  show ?thesis
  proof (cases entered)
    case True
    with Pair ef have e: "enterProfile (wk_prof wk) (wd_sched w) = ((True, free), s')" by simp
    then have same: "sc_reservations s' = sc_reservations (wd_sched w)" "sc_handles s' = sc_handles (wd_sched w)"
      "sc_allocations s' = sc_allocations (wd_sched w)" "sc_next_id s' = sc_next_id (wd_sched w)" "sc_set s' = sc_set (wd_sched w)"
      "sc_waiting s' = sc_waiting (wd_sched w)"
      by (auto simp: enterProfile_def split: if_splits)
    have "balanced (wd_sched w) wk s' (wk\<lparr>wk_pc := Claiming 0 False\<rparr>) [] []"
      by (rule balanced_use [OF assms(1) refl])
         (simp_all add: assms(2) same worker_ok_def profile_use_enter [OF e] waiting_on_def)
    with e assms(2) show ?thesis
      by (simp add: fair_step_def worker_step_def await_step_def claimed_ids_def)
  next
    case False
    with Pair ef have e: "enterProfile (wk_prof wk) (wd_sched w) = ((False, free), s')" by simp
    then have "s' = wd_sched w" by (auto simp: enterProfile_def split: if_splits)
    moreover have "balanced (wd_sched w) wk (wd_sched w) (wk\<lparr>wk_pc := ProfileFull free\<rparr>) [] []"
      by (rule balanced_calm [OF assms(1) calm_refl refl]) (simp_all add: assms(2) worker_ok_def)
    ultimately show ?thesis
      using e assms(2) by (simp add: fair_step_def worker_step_def await_step_def claimed_ids_def)
  qed
qed

text \<open>Steps that leave the Scheduler as it is.\<close>

lemma fair_still:
  assumes "entitled (wd_sched w) wk"
    and "worker_step (pa_health pa) env wk w = ((wk\<lparr>wk_pc := pc\<rparr>, w'), handed)" "calm (wd_sched w) (wd_sched w')"
    and "in_flight pc = in_flight (wk_pc wk)" "pc_waits pc = pc_waits (wk_pc wk)" "worker_ok (wd_sched w) (wk\<lparr>wk_pc := pc\<rparr>)"
    and "\<And>l. (if pc_lease pc = Some l then 1 else 0) + count_list (map ls_id handed) l
      = (if pc_lease (wk_pc wk) = Some l then 1 else 0) + count_list (claimed_ids env wk) l"
  shows "fair_step pa env wk w"
  using balanced_calm [OF assms(1,3) refl assms(4-6), where handed = "map ls_id handed" and got = "claimed_ids env wk"] assms(2,7)
  by (simp add: fair_step_def)

lemma fair_full:
  assumes "entitled (wd_sched w) wk" "wk_pc wk = ProfileFull free"
  shows "fair_step pa env wk w"
proof -
  obtain pc where pc: "await_step env (wk_prof wk) (ProfileFull free) (wd_sched w) = (pc, wd_sched w)"
    and kind: "\<not> in_flight pc" "\<not> pc_waits pc" "pc_lease pc = None" "worker_ok (wd_sched w) (wk\<lparr>wk_pc := pc\<rparr>)"
    by (cases "en_select env"; cases "free < sc_profile_free (wd_sched w)") (auto simp: await_step_def worker_ok_def)
  show ?thesis
    by (rule fair_still [OF assms(1), where pc = pc and w' = w and handed = "[]"])
       (simp_all add: worker_step_def assms(2) pc kind claimed_ids_def)
qed

lemma fair_claiming:
  assumes "entitled (wd_sched w) wk" "wk_pc wk = Claiming attempt waits"
  shows "fair_step pa env wk w"
proof (cases "Wait (rp_ref (wk_prof wk)) (wd_tracker w)")
  case (Pair wake t)
  show ?thesis
    by (rule fair_still [OF assms(1), where pc = "Asked attempt waits wake" and w' = "w\<lparr>wd_tracker := t\<rparr>" and handed = "[]"])
       (simp_all add: worker_step_def claim_step_def assms(2) Pair claimed_ids_def worker_ok_def)
qed

lemma fair_retrying:
  assumes "entitled (wd_sched w) wk" "wk_pc wk = Retrying attempt waits wake"
  shows "fair_step pa env wk w"
proof -
  obtain pc where pc: "waitToRetry env (wk_prof wk) attempt waits wake (wd_tracker w) = pc"
    and kind: "in_flight pc" "pc_waits pc = waits" "pc_lease pc = None" "worker_ok (wd_sched w) (wk\<lparr>wk_pc := pc\<rparr>)"
    by (cases "en_select env") (auto simp: waitToRetry_def worker_ok_def)
  show ?thesis
    by (rule fair_still [OF assms(1), where pc = pc and w' = w and handed = "[]"])
       (simp_all add: worker_step_def assms(2) pc kind claimed_ids_def)
qed

lemma fair_claimed:
  assumes "entitled (wd_sched w) wk" "wk_pc wk = Claimed waits c"
  shows "fair_step pa env wk w"
proof -
  obtain pc handed where pc: "allocated_placement env (wk_prof wk) waits c w = (pc, handed)"
    and kind: "in_flight pc" "pc_waits pc = waits" "worker_ok (wd_sched w) (wk\<lparr>wk_pc := pc\<rparr>)"
    and held: "\<And>l. (if pc_lease pc = Some l then 1 else 0) + count_list (map ls_id handed) l
      = (if claim_lease c = l then 1 else 0)"
    by (cases "en_ctx env"; cases "ResolvePlacement (wd_registry w) env (wk_prof wk) (Some c) (wd_sched w)")
       (auto simp: allocated_placement_def worker_ok_def claimed_lease_def)
  show ?thesis
    by (rule fair_still [OF assms(1), where pc = pc and w' = w and handed = handed])
       (simp_all add: worker_step_def assms(2) pc kind claimed_ids_def held)
qed


lemma fair_asked:
  assumes "entitled (wd_sched w) wk" "wk_pc wk = Asked attempt waits wake"
  shows "fair_step pa env wk w"
proof (cases "en_claim env")
  case (Inr c)
  show ?thesis
    by (rule fair_still [OF assms(1), where pc = "Claimed waits c" and w' = w and handed = "[]"])
       (simp_all add: worker_step_def claim_step_def assms(2) Inr claimed_ids_def worker_ok_def)
next
  case (Inl err)
  let ?p = "wk_prof wk"
  show ?thesis
  proof (cases "err = ErrExhausted \<and> \<not> waits")
    case True
    let ?s' = "snd (throttled (en_now env) (''exhausted:'' @ PoolRef_String (rp_ref ?p)) (snd (waitOnPool (rp_ref ?p) 1 (wd_sched w))))"
    have "0 \<le> waiting_on ref (wd_sched w)" for ref by (rule entitled_has [OF assms(1)])
    then have "balanced (wd_sched w) wk ?s' (wk\<lparr>wk_pc := Retrying attempt True wake\<rparr>) [] []"
      using True by (intro balanced_use [OF assms(1) refl]) (auto simp: assms(2) worker_ok_def waiting_on_wait)
    then show ?thesis
      using True Inl by (simp add: fair_step_def worker_step_def claim_step_def claim_refused_def assms(2) claimed_ids_def
          on_sched_def on_tracker_def Let_def)
  next
    case False
    obtain pc w' where pc: "claim_refused (pa_health pa) env ?p attempt waits wake err w = (pc, w')" by fastforce
    with False have "in_flight pc \<and> pc_waits pc = waits \<and> pc_lease pc = None \<and> worker_ok (wd_sched w) (wk\<lparr>wk_pc := pc\<rparr>)
        \<and> wd_sched w' = wd_sched w"
      by (cases err) (auto simp: claim_refused_def on_tracker_def on_health_def worker_ok_def Let_def split: option.splits)
    with pc show ?thesis
      by (intro fair_still [OF assms(1), where pc = pc and w' = w' and handed = "[]"])
         (simp_all add: worker_step_def claim_step_def assms(2) Inl claimed_ids_def)
  qed
qed

lemma stop_waiting_balanced:
  assumes "entitled s wk" "pc_waits (wk_pc wk) = waits" "\<not> pc_waits pc" "in_flight pc = in_flight (wk_pc wk)"
    and "pc_lease pc = pc_lease (wk_pc wk)" "worker_ok s (wk\<lparr>wk_pc := pc\<rparr>)"
  shows "balanced s wk (stop_waiting (wk_prof wk) waits s) (wk\<lparr>wk_pc := pc\<rparr>) [] []"
  using assms waiting_on_wait [of _ "rp_ref (wk_prof wk)" "- 1" s]
  by (intro balanced_use [OF assms(1) refl])
     (use entitled_has(6) [OF assms(1)] in \<open>auto simp: stop_waiting_def max_def\<close>)

lemma fair_failing:
  assumes "entitled (wd_sched w) wk" "wk_pc wk = Failing waits e"
  shows "fair_step pa env wk w"
  using stop_waiting_balanced [OF assms(1), of waits "Leaving e"] assms(2)
  by (simp add: fair_step_def worker_step_def on_sched_def claimed_ids_def worker_ok_def)

lemma fair_leaving:
  assumes "entitled (wd_sched w) wk" "wk_pc wk = Leaving e"
  shows "fair_step pa env wk w"
proof -
  have "balanced (wd_sched w) wk (leaveProfile (wk_prof wk) (wd_sched w)) (wk\<lparr>wk_pc := Returned (Inl e)\<rparr>) [] []"
    using assms(2) entitled_has(3,5) [OF assms(1)] by (intro balanced_use [OF assms(1) refl])
      (auto simp: leaveProfile_def profile_use_release worker_ok_def waiting_on_def)
  with assms(2) show ?thesis
    by (simp add: fair_step_def worker_step_def on_sched_def claimed_ids_def)
qed

lemma fair_returned:
  assumes "entitled (wd_sched w) wk" "wk_pc wk = Returned r"
  shows "fair_step pa env wk w"
  using balanced_calm [OF assms(1) calm_refl, of wk "Returned r" "[]" "[]"] assms
  by (simp add: fair_step_def worker_step_def claimed_ids_def worker_ok_def)

lemma balanced_trans:
  "balanced s wk t wk1 [] [] \<Longrightarrow> balanced t wk1 u wk2 [] [] \<Longrightarrow> balanced s wk u wk2 [] []"
  unfolding balanced_def by (metis add.right_neutral count_list.simps(1))

lemma fair_started:
  assumes "entitled (wd_sched w) wk" "wk_pc wk = Started waits i"
  shows "fair_step pa env wk w"
proof -
  let ?s = "startHeartbeat i (wd_sched w)"
  have c: "calm (wd_sched w) ?s" unfolding startHeartbeat_def by (rule calm_on_handle) simp_all
  have first: "balanced (wd_sched w) wk ?s wk [] []"
    using balanced_calm [OF assms(1) c, of wk "wk_pc wk" "[]" "[]"] assms(1) by (simp add: entitled_def)
  have "entitled ?s wk" by (rule entitled_balanced [OF assms(1) first])
  then have "balanced ?s wk (stop_waiting (wk_prof wk) waits ?s) (wk\<lparr>wk_pc := Returned (Inr i)\<rparr>) [] []"
    by (rule stop_waiting_balanced) (simp_all add: assms(2) worker_ok_def)
  from balanced_trans [OF first this] assms(2) show ?thesis
    by (simp add: fair_step_def worker_step_def on_sched_def claimed_ids_def)
qed


lemma sched_ok_next: "sched_ok s \<Longrightarrow> sched_ok (s\<lparr>sc_next_id := Suc (sc_next_id s)\<rparr>)"
  by (auto simp: sched_ok_def known_def slotsInUseLocked_def intro: le_SucI)

text \<open>The conversion: the Reservation's Slot and the worker's unit and Lease become the Allocation's.\<close>

lemma convert_sched_ok:
  assumes "sched_ok s" "h_id h = Suc (sc_next_id s)" "mhas (sc_reservations s) r"
    and "s' = s\<lparr>sc_next_id := Suc (sc_next_id s), sc_reservations := mdel r (sc_reservations s),
      sc_handles := mput (h_id h) h (sc_handles s), sc_allocations := sc_allocations s @ [h_id h],
      sc_placements := pls\<rparr>"
  shows "sched_ok s'"
proof -
  have "h_id h \<notin> set (sc_allocations s)"
    using assms(1,2) by (fastforce simp: sched_ok_def known_def)
  moreover obtain n where "length (sc_reservations s) = Suc n" using assms(3) by (cases "sc_reservations s") auto
  ultimately show ?thesis
    using assms by (auto simp: sched_ok_def known_def slotsInUseLocked_def length_mdel) fastforce+
qed

lemma balanced_convert:
  assumes e: "entitled s wk" and pc: "wk_pc wk = Placed waits c at pl"
    and h: "h = newHandle (Suc (sc_next_id s)) (build_allocation wk c at pl)" and r: "mhas (sc_reservations s) r"
    and s': "s' = s\<lparr>sc_next_id := Suc (sc_next_id s), sc_reservations := mdel r (sc_reservations s),
      sc_handles := mput (h_id h) h (sc_handles s), sc_allocations := sc_allocations s @ [h_id h],
      sc_placements := pls\<rparr>"
  shows "balanced s wk s' (wk\<lparr>wk_pc := Started waits (h_id h)\<rparr>) [] []"
proof -
  let ?i = "Suc (sc_next_id s)"
  have i: "h_id h = ?i" "h_profile h = rp_name (wk_prof wk)" "ls_id (h_lease h) = claim_lease c"
    by (simp_all add: h newHandle_def build_allocation_def claimed_lease_def)
  have ok: "sched_ok s" using e by (simp add: entitled_def)
  then have fresh: "\<not> known ?i s" by (fastforce simp: sched_ok_def known_def)
  have at: "profile_at s' name j = (if j = ?i then rp_name (wk_prof wk) = name else profile_at s name j)"
    and lid: "lease_id_of j s' = (if j = ?i then Some (claim_lease c) else lease_id_of j s)"
    and kn: "known j s' = (j = ?i \<or> known j s)" for j name
    by (simp_all add: s' i profile_at_def lease_id_of_def known_def)
  have old: "j \<noteq> ?i" if "j \<in> set (sc_allocations s)" for j
    using that fresh ok by (auto simp: sched_ok_def)
  have "count_if (profile_at s' name) (sc_allocations s) = count_if (profile_at s name) (sc_allocations s)"
    "count_if (\<lambda>j. lease_id_of j s' = Some l) (sc_allocations s) = count_if (\<lambda>j. lease_id_of j s = Some l) (sc_allocations s)" for name l
    using old by (auto simp: at lid intro!: count_if_cong)
  moreover have "sc_allocations s' = sc_allocations s @ [?i]" "profile_use name s' = profile_use name s" "waiting_on ref s' = waiting_on ref s" for name ref
    by (simp_all add: s' i profile_use_def waiting_on_def)
  moreover have "sched_ok s'" using convert_sched_ok [OF ok i(1) r s'] .
  ultimately show ?thesis
    using fresh by (simp add: balanced_def worker_ok_def i kn lid at units_left_def waits_left_def leases_held_def has_unit_def
        waits_on_def pc)
qed

lemma fair_placed:
  assumes "entitled (wd_sched w) wk" "wk_pc wk = Placed waits c at pl"
  shows "fair_step pa env wk w"
proof -
  let ?s = "wd_sched w" and ?h = "newHandle (Suc (sc_next_id (wd_sched w))) (build_allocation wk c at pl)"
  show ?thesis
  proof (cases "mhas (sc_reservations ?s) (wk_res wk)")
    case True
    then have "allocated_convert wk waits c at pl ?s = ((Started waits (h_id ?h), ?s\<lparr>sc_next_id := Suc (sc_next_id ?s),
        sc_reservations := mdel (wk_res wk) (sc_reservations ?s), sc_handles := mput (h_id ?h) ?h (sc_handles ?s),
        sc_allocations := sc_allocations ?s @ [h_id ?h], sc_placements := mput (h_vm ?h) (h_placement ?h) (sc_placements ?s)\<rparr>), [])"
      by (simp add: allocated_convert_def convert_def newHandle_def Let_def)
    with balanced_convert [OF assms refl True refl] show ?thesis
      by (simp add: fair_step_def worker_step_def assms(2) claimed_ids_def)
  next
    case False
    let ?e = "alloc_failed (wk_prof wk) (pl_host pl) (CauseReservationReleased (wk_res wk))"
    from False have "allocated_convert wk waits c at pl ?s
        = ((Failing waits ?e, ?s\<lparr>sc_next_id := Suc (sc_next_id ?s)\<rparr>), [claimed_lease (wk_prof wk) c at])"
      by (simp add: allocated_convert_def convert_def Let_def)
    moreover have "balanced ?s wk (?s\<lparr>sc_next_id := Suc (sc_next_id ?s)\<rparr>) (wk\<lparr>wk_pc := Failing waits ?e\<rparr>) [] [claim_lease c]"
    proof -
      have "known i (?s\<lparr>sc_next_id := Suc (sc_next_id ?s)\<rparr>) = known i ?s"
        "lease_id_of i (?s\<lparr>sc_next_id := Suc (sc_next_id ?s)\<rparr>) = lease_id_of i ?s"
        "profile_at (?s\<lparr>sc_next_id := Suc (sc_next_id ?s)\<rparr>) name = profile_at ?s name"
        "profile_use name (?s\<lparr>sc_next_id := Suc (sc_next_id ?s)\<rparr>) = profile_use name ?s"
        "waiting_on ref (?s\<lparr>sc_next_id := Suc (sc_next_id ?s)\<rparr>) = waiting_on ref ?s" for i name ref
        by (simp_all add: known_def lease_id_of_def profile_at_def profile_use_def waiting_on_def fun_eq_iff)
      moreover have "sched_ok (?s\<lparr>sc_next_id := Suc (sc_next_id ?s)\<rparr>)"
        using assms(1) by (simp add: entitled_def sched_ok_next)
      ultimately show ?thesis
        by (simp add: balanced_def worker_ok_def units_left_def waits_left_def leases_held_def has_unit_def waits_on_def assms(2))
    qed
    ultimately show ?thesis
      by (simp add: fair_step_def worker_step_def assms(2) claimed_ids_def claimed_lease_def)
  qed
qed

theorem worker_fair: "entitled (wd_sched w) wk \<Longrightarrow> fair_step pa env wk w"
  by (cases "wk_pc wk") (auto intro: fair_await fair_full fair_claiming fair_asked fair_retrying fair_claimed fair_placed
      fair_started fair_failing fair_leaving fair_returned)

lemma spawned_ok:
  "worker_ok s wk \<Longrightarrow> (\<forall>i. known i s \<longrightarrow> known i s') \<Longrightarrow> list_all (task_ok s') (spawned pa wk s)"
  by (simp add: spawned_def worker_ok_def split: alloc_pc.splits)

lemma spawned_owes: "list_all (\<lambda>t. task_owes t = None) (spawned pa wk s)"
  by (simp add: spawned_def split: alloc_pc.splits)

theorem accounts_worker: "accounts y \<Longrightarrow> accounts (act_worker pa n env y)"
proof (cases "n < length (sy_workers y)")
  case True
  assume a: "accounts y"
  let ?wk = "sy_workers y ! n"
  note ent = accounts_entitled [OF a True]
  obtain wk' w' handed where st: "worker_step (pa_health pa) env ?wk (sy_world y) = ((wk', w'), handed)" by (metis prod.exhaust)
  have b: "balanced (sy_sched y) ?wk (wd_sched w') wk' (claimed_ids env ?wk) (map ls_id handed)"
    using worker_fair [OF ent, of pa env] by (simp add: fair_step_def st)
  have known: "\<forall>i. known i (sy_sched y) \<longrightarrow> known i (wd_sched w')" and ok: "worker_ok (sy_sched y) ?wk"
    using b ent by (simp_all add: balanced_def entitled_def)
  show ?thesis
    by (rule accounts_balanced [OF a True, where got = "claimed_ids env ?wk" and handed = "map ls_id handed" and wk' = wk'
          and ts = "spawned pa ?wk (sy_sched y)"])
       (use True in \<open>simp_all add: act_worker_def Let_def st b spawned_owes spawned_ok [OF ok known]\<close>)
qed (simp add: act_worker_def)


subsection \<open>The other actions\<close>

lemma accounts_put_calm: "accounts y \<Longrightarrow> calm (sy_sched y) s' \<Longrightarrow> accounts (put_sched s' y)"
  by (rule accounts_calm [where ts = "[]"]) simp_all

lemma accounts_released:
  assumes "accounts y" "finish i (sy_sched y) = (True, s')" "task_owes t = Some i" "task_ok (sy_sched y) t"
  shows "accounts (add_tasks [t] (put_sched s' y))"
  by (rule accounts_finish [OF assms(1,2)]) (use assms(1,3,4) in \<open>auto simp: accounts_def owes_def\<close>)

lemma accounts_release: "accounts y \<Longrightarrow> accounts (act_release i y)"
proof (cases "finish i (sy_sched y)")
  case (Pair ended s')
  assume a: "accounts y"
  show ?thesis
  proof (cases ended)
    case True
    with Pair have f: "finish i (sy_sched y) = (True, s')" by simp
    show ?thesis using accounts_released [OF a f, of "HandBack i"] finish_knows [OF f] by (simp add: act_release_def f)
  next
    case False
    with Pair have f: "finish i (sy_sched y) = (False, s')" by simp
    with a show ?thesis using finish_False [OF f] by (simp add: act_release_def f accounts_put_calm)
  qed
qed

lemma accounts_retain: "accounts y \<Longrightarrow> accounts (act_retain i y)"
proof (cases "finish i (sy_sched y)")
  case (Pair ended s')
  assume a: "accounts y"
  show ?thesis
  proof (cases ended)
    case True
    with Pair have f: "finish i (sy_sched y) = (True, s')" by simp
    show ?thesis
      using accounts_released [OF a f, of "RetainStart i"] finish_knows [OF f] accounts_release [OF a] by (simp add: act_retain_def f)
  next
    case False
    with Pair have f: "finish i (sy_sched y) = (False, s')" by simp
    with a show ?thesis using finish_False [OF f] accounts_release [OF a] by (simp add: act_retain_def f accounts_put_calm)
  qed
qed

lemma accounts_check: "accounts y \<Longrightarrow> accounts (act_check i y)"
proof (cases "checkLease_begin i (sy_sched y)")
  case (CheckAsks l)
  assume a: "accounts y"
  have "task_ok (sy_sched y) (CheckCalling i l)"
    using CheckAsks by (auto simp: checkLease_begin_def lease_id_of_def split: option.splits if_splits)
  with a show ?thesis
    unfolding act_check_def CheckAsks by simp (rule accounts_calm [where ts = "[CheckCalling i l]"], simp_all)
qed (simp add: act_check_def)

lemma accounts_aborts:
  assumes "accounts y" "calm (sy_sched y) s'"
  shows "accounts (add_tasks (map (\<lambda>i. Aborting i e) is') (put_sched s' y))"
  by (rule accounts_calm [OF assms(1), where ts = "map (\<lambda>i. Aborting i e) is'"]) (simp_all add: assms(2) list_all_iff)

lemma calm_probe: "recordProbe now name info failed s = (b, s') \<Longrightarrow> calm s s'"
proof -
  assume r: "recordProbe now name info failed s = (b, s')"
  have "books (snd (recordProbe now name info failed s)) = books s"
    by (cases "mget (sc_hosts s) name"; cases "failed"; cases info)
       (simp_all add: recordProbe_def record_host_def infoAlreadyLogged_def unthrottle_def books_def Let_def
         split: host_change.splits)
  with r show ?thesis by (simp add: calm_books)
qed

lemma calm_reload: "calm s (reload_tables ps inventory s)"
  by (simp add: calm_def reload_tables_def resetHostsLocked_def)

lemma accounts_slots:
  assumes "accounts y" "sc_handles s' = sc_handles (sy_sched y)" "sc_allocations s' = sc_allocations (sy_sched y)"
    and "sc_profile_use s' = sc_profile_use (sy_sched y)" "sc_waiting s' = sc_waiting (sy_sched y)" "sched_ok s'"
  shows "accounts (put_sched s' y)"
proof -
  have "known i s' = known i (sy_sched y)" "lease_id_of i s' = lease_id_of i (sy_sched y)" for i
    by (simp_all add: known_def lease_id_of_def assms)
  moreover from this have "owes s' = owes (sy_sched y)" by (intro ext) (simp add: owes_def split: option.splits)
  moreover have "worker_ok s' = worker_ok (sy_sched y)"
    by (rule ext) (simp add: worker_ok_def calculation(1) split: alloc_pc.splits)
  moreover have "task_ok s' = task_ok (sy_sched y)"
    by (rule ext, case_tac x) (simp_all add: calculation(1,2))
  moreover have "profile_at s' = profile_at (sy_sched y)" by (intro ext) (simp add: profile_at_def assms)
  ultimately show ?thesis
    using assms by (simp add: accounts_def custody_def units_ok_def waits_ok_def profile_use_def waiting_on_def)
qed


lemma grant_sched_ok: "sched_ok s \<Longrightarrow> sched_ok (snd (grant now warm s))"
proof (cases "fst (availableCapacityLocked warm s) \<le> 0")
  case True
  assume "sched_ok s"
  with True show ?thesis by (simp add: grant_def split_beta)
next
  case False
  assume ok: "sched_ok s"
  from False have "slotsInUseLocked s < set_slots (sc_set s)"
    by (auto simp: availableCapacityLocked_def Let_def split: if_splits)
  with ok False show ?thesis
    by (auto simp: grant_def split_beta Let_def sched_ok_def known_def slotsInUseLocked_def length_mput intro: le_SucI)
qed

lemma refuse_books: "books (snd (refuse now reason s)) = books s"
  by (simp add: refuse_def Let_def)

lemma contacted_books: "books (snd (contacted_now hm s)) = books s"
  by (simp add: contacted_now_def books_def)

lemma grant_same:
  "sc_handles (snd (grant now warm s)) = sc_handles s" "sc_allocations (snd (grant now warm s)) = sc_allocations s"
  "sc_profile_use (snd (grant now warm s)) = sc_profile_use s" "sc_waiting (snd (grant now warm s)) = sc_waiting s"
  by (simp_all add: grant_def Let_def split: prod.splits)

lemma accounts_books: "accounts (put_sched s y) \<Longrightarrow> books s' = books s \<Longrightarrow> accounts (put_sched s' y)"
  using accounts_put_calm [of "put_sched s y" s'] calm_books [of s' s] by (simp add: put_sched_def)

lemma put_sched_same [simp]: "put_sched (sy_sched y) y = y"
  by (simp add: put_sched_def)

lemma accounts_granted:
  assumes "accounts (put_sched s y)"
  shows "accounts (put_sched (snd (grant now warm s)) y)"
proof -
  have "accounts (put_sched (snd (grant now warm s)) (put_sched s y))"
    using assms grant_sched_ok [of s now warm] by (intro accounts_slots [OF assms]) (simp_all add: grant_same accounts_def)
  then show ?thesis by (simp add: put_sched_def)
qed

lemma accounts_reserve:
  assumes "accounts y"
  shows "accounts (put_sched (snd (Reserve ctx now hm t (sy_sched y))) y)"
proof -
  let ?s = "sy_sched y"
  obtain ok s1 where c: "contacted_now hm ?s = (ok, s1)" by fastforce
  have a1: "accounts (put_sched s1 y)"
    using accounts_books [of ?s y s1] assms contacted_books [of hm ?s] by (simp add: c)
  obtain r s2 where g: "grant now (warmAvailable (Healthy now hm) t) s1 = (r, s2)" by fastforce
  have a2: "accounts (put_sched s2 y)"
    using accounts_granted [OF a1, of now "warmAvailable (Healthy now hm) t"] by (simp add: g)
  have refused: "accounts (put_sched u y) \<Longrightarrow> accounts (put_sched (snd (refuse now reason u)) y)" for u reason
    using accounts_books [of u y] refuse_books by blast
  show ?thesis
  proof (cases ctx)
    case None
    then show ?thesis
      using assms a1 a2 refused
      by (cases "sc_state ?s"; cases ok; cases r) (auto simp: Reserve_def c g split_beta)
  qed (simp add: Reserve_def assms)
qed

lemma accounts_fewer_reservations:
  assumes "accounts y" "gomap_ok rs" "length rs \<le> length (sc_reservations (sy_sched y))"
    and "\<And>r at. mget rs r = Some at \<Longrightarrow> mget (sc_reservations (sy_sched y)) r = Some at"
  shows "accounts (put_sched ((sy_sched y)\<lparr>sc_reservations := rs\<rparr>) y)"
  using assms by (intro accounts_slots) (auto simp: accounts_def sched_ok_def known_def slotsInUseLocked_def)

lemma accounts_shutdown:
  assumes "accounts y"
  shows "accounts (put_sched (snd (drained (shutdown_begin (sy_sched y)))) y)"
proof -
  have "accounts (put_sched (shutdown_begin (sy_sched y)) y)"
    unfolding shutdown_begin_def by (rule accounts_fewer_reservations [OF assms]) simp_all
  moreover have "books (snd (drained s)) = books s" for s
    by (simp add: drained_def books_def split: option.splits)
  ultimately show ?thesis using accounts_books by blast
qed

lemma accounts_allocate:
  assumes "accounts y"
  shows "accounts (act_allocate r job p request y)"
proof -
  let ?wk = "\<lparr>wk_res = r, wk_job = job, wk_prof = p, wk_request = request, wk_pc = AwaitProfile\<rparr>"
  have "custody l (y\<lparr>sy_workers := sy_workers y @ [?wk]\<rparr>) = custody l y" for l by (simp add: custody_def)
  then have "accounts (y\<lparr>sy_workers := sy_workers y @ [?wk]\<rparr>)"
    using assms by (simp add: accounts_def units_ok_def waits_ok_def has_unit_def waits_on_def worker_ok_def)
  then show ?thesis
    using assms by (simp add: act_allocate_def Allocate_begin_def split: run_state.splits)
qed

lemma accounts_unreserve:
  assumes "accounts y"
  shows "accounts (put_sched (ReleaseReservation r (sy_sched y)) y)"
proof (cases r)
  case (Some rr)
  have "gomap_ok (sc_reservations (sy_sched y))" using assms by (simp add: accounts_def sched_ok_def)
  then have "accounts (put_sched ((sy_sched y)\<lparr>sc_reservations := mdel (res_id rr) (sc_reservations (sy_sched y))\<rparr>) y)"
    by (intro accounts_fewer_reservations [OF assms gomap_ok_mdel length_mdel_le]) (simp_all split: if_splits)
  with Some show ?thesis by (simp add: ReleaseReservation_def)
qed (simp add: ReleaseReservation_def assms)

theorem accounts_act:
  assumes y: "accounts y"
  shows "accounts (act pa a y)"
proof (cases a)
  case (ActProbe now name info failed)
  obtain b s' where r: "recordProbe now name info failed (sy_sched y) = (b, s')" by fastforce
  show ?thesis
    using accounts_aborts [OF y calm_probe [OF r]] accounts_put_calm [OF y calm_probe [OF r]]
    by (cases b) (simp_all add: ActProbe act_probe_def r)
next
  case ActAbortRunning
  then show ?thesis using accounts_aborts [OF y calm_refl] by (simp add: act_abort_running_def)
next
  case (ActTracker op)
  then show ?thesis by simp (rule accounts_calm [OF y, where ts = "[]"], simp_all add: on_tracker_def)
next
  case (ActHealth h)
  then show ?thesis by simp (rule accounts_calm [OF y, where ts = "[]"], simp_all)
next
  case (ActRegistry r)
  then show ?thesis by simp (rule accounts_calm [OF y, where ts = "[]"], simp_all)
next
  case ActRun
  show ?thesis unfolding ActRun act.simps by (rule accounts_put_calm [OF y calm_books]) (simp add: start_run_def books_def)
next
  case ActStopping
  show ?thesis unfolding ActStopping act.simps by (rule accounts_put_calm [OF y calm_books]) (simp add: setState_def books_def)
next
  case ActStopped
  show ?thesis unfolding ActStopped act.simps by (rule accounts_put_calm [OF y calm_books]) (simp add: setState_def books_def)
next
  case ActCloseBackground
  show ?thesis unfolding ActCloseBackground act.simps
    by (rule accounts_put_calm [OF y calm_books]) (simp add: closeBackground_def books_def)
next
  case ActBackgroundDone
  show ?thesis unfolding ActBackgroundDone act.simps by (rule accounts_put_calm [OF y calm_books]) (simp add: books_def)
next
  case (ActReload ps inventory)
  show ?thesis unfolding ActReload act.simps by (rule accounts_put_calm [OF y calm_reload])
qed (simp_all add: y accounts_task accounts_worker accounts_release accounts_retain accounts_check accounts_allocate
       accounts_reserve accounts_shutdown accounts_unreserve)

text \<open>The start, and the invariant in every reachable state.\<close>

lemma accounts_start: "0 \<le> set_slots cfg \<Longrightarrow> accounts (start_system cfg)"
  by (simp add: accounts_def start_system_def new_sched_def resetHostsLocked_def sched_ok_def slotsInUseLocked_def units_ok_def
      waits_ok_def custody_def profile_use_def waiting_on_def)

definition started :: "system \<Rightarrow> bool" where
  "started y \<longleftrightarrow> (\<exists>cfg. 0 < set_slots cfg \<and> y = start_system cfg)"

definition moves :: "params \<Rightarrow> system \<Rightarrow> system \<Rightarrow> bool" where
  "moves pa y y' \<longleftrightarrow> (\<exists>a. y' = act pa a y)"

interpretation acct: inductive_invariant started "moves pa" accounts for pa
  by unfold_locales (auto simp: started_def moves_def accounts_start accounts_act)

end
