(* ===== verification/Scheduler_Props.thy ===== *)
theory Scheduler_Props
  imports Scheduler_Inv
begin

text \<open>
  What the accounts give: in every state the Scheduler can reach, however its goroutines
  interleave, the Slots in use stay within the limit, a Profile's units are exactly its
  live and pending Allocations and stay within its maximum, and every Lease is answered for
  by exactly one part of the system and released at most once.
\<close>

section \<open>Runs\<close>

lemma run_system_snoc: "run_system pa cfg (acts @ [a]) = act pa a (run_system pa cfg acts)"
  by (simp add: run_system_def)

lemma run_reachable: "0 < set_slots cfg \<Longrightarrow> reach started (moves pa) (run_system pa cfg acts)"
proof (induction acts rule: rev_induct)
  case Nil
  then show ?case by (auto simp: run_system_def started_def intro: reach_start)
next
  case (snoc a acts)
  then show ?case unfolding run_system_snoc by (auto simp: moves_def intro: reach_step)
qed

lemma run_accounts: "0 < set_slots cfg \<Longrightarrow> accounts (run_system pa cfg acts)"
  using acct.reach_inv run_reachable by blast

subsection \<open>The limits are constants\<close>

lemma sc_set_same [simp]:
  "sc_set (on_handle i f s) = sc_set s"
  "sc_set (stopHeartbeat i s) = sc_set s"
  "sc_set (lose_lease e i s) = sc_set s"
  "sc_set (snd (finish i s)) = sc_set s"
  by (auto simp: stopHeartbeat_def lose_lease_def on_handle_def finish_def Let_def split: option.splits list.splits)

lemma finish_sc_set: "finish i s = (b, s') \<Longrightarrow> sc_set s' = sc_set s"
  using sc_set_same(4) [of i s] by simp

lemma task_sc_set: "sc_set (tr_sched (task_step pa env t s)) = sc_set s"
  by (cases t)
     (auto simp: settle_def hand_back_def retain_start_def step_beating_def step_pausing_def step_calling_def step_losing_def
       step_check_def step_probing_def step_agent_def Let_def dest: finish_sc_set split: option.splits prod.splits beat.splits
       beat_result.splits check_answer.splits bool.splits)


lemma enter_sc_set: "enterProfile p s = (r, s') \<Longrightarrow> sc_set s' = sc_set s"
  by (auto simp: enterProfile_def split: if_splits)

lemma convert_sc_set: "convert r h s = (b, s') \<Longrightarrow> sc_set s' = sc_set s"
  by (auto simp: convert_def split: if_splits)

lemma await_sc_set: "await_step env p pc s = (pc', s') \<Longrightarrow> sc_set s' = sc_set s"
  by (auto simp: await_step_def dest: enter_sc_set split: alloc_pc.splits prod.splits bool.splits selected.splits if_splits)

lemma claim_sc_set: "claim_step hc env p pc w = (pc', w') \<Longrightarrow> sc_set (wd_sched w') = sc_set (wd_sched w)"
  by (auto simp: claim_step_def claim_refused_def on_tracker_def on_sched_def on_health_def Let_def
      split: alloc_pc.splits prod.splits sum.splits pm_error.splits option.splits if_splits)

lemma allocated_sc_set: "allocated_convert wk waits c at pl s = ((pc, s'), handed) \<Longrightarrow> sc_set s' = sc_set s"
  by (auto simp: allocated_convert_def Let_def dest: convert_sc_set split: prod.splits bool.splits)

lemma worker_sc_set: "worker_step hc env wk w = ((wk', w'), handed) \<Longrightarrow> sc_set (wd_sched w') = sc_set (wd_sched w)"
  by (cases "wk_pc wk")
     (auto simp: worker_step_def Let_def on_sched_def stop_waiting_def startHeartbeat_def leaveProfile_def
       dest: await_sc_set claim_sc_set allocated_sc_set split: prod.splits)

lemma reserve_sc_set: "sc_set (snd (Reserve ctx now hm t s)) = sc_set s"
  by (auto simp: Reserve_def refuse_def contacted_now_def grant_def Let_def split_beta split: option.splits run_state.splits
      sum.splits prod.splits)

lemma probe_sc_set: "recordProbe now name info failed s = (b, s') \<Longrightarrow> sc_set s' = sc_set s"
  by (auto simp: recordProbe_def infoAlreadyLogged_def unthrottle_def Let_def split: option.splits prod.splits host_change.splits if_splits)

lemma release_sc_set: "sc_set (sy_sched (act_release i y)) = sc_set (sy_sched y)"
  by (auto simp: act_release_def dest: finish_sc_set split: prod.splits bool.splits)

lemma retain_sc_set: "sc_set (sy_sched (act_retain i y)) = sc_set (sy_sched y)"
  by (auto simp: act_retain_def release_sc_set dest: finish_sc_set split: prod.splits bool.splits)

theorem act_slots: "set_slots (sc_set (sy_sched (act pa a y))) = set_slots (sc_set (sy_sched y))"
proof (cases a)
  case (ActWorker n env)
  show ?thesis
    by (cases "worker_step (pa_health pa) env (sy_workers y ! n) (sy_world y)")
       (auto simp: ActWorker act_worker_def Let_def dest: worker_sc_set)
next
  case (ActProbe now name info failed)
  show ?thesis
    by (cases "recordProbe now name info failed (sy_sched y)")
       (auto simp: ActProbe act_probe_def dest: probe_sc_set split: bool.splits)
qed (simp_all add: act_task_def task_sc_set reserve_sc_set release_sc_set retain_sc_set act_check_def act_allocate_def
       act_abort_running_def start_run_def setState_def drained_def shutdown_begin_def closeBackground_def
       ReleaseReservation_def reload_tables_def resetHostsLocked_def on_tracker_def split: option.splits check_begin.splits sum.splits)

lemma run_slots: "set_slots (sc_set (sy_sched (run_system pa cfg acts))) = set_slots cfg"
proof (induction acts rule: rev_induct)
  case Nil
  show ?case by (simp add: run_system_def start_system_def new_sched_def resetHostsLocked_def)
qed (simp add: run_system_snoc act_slots)

subsection \<open>Concurrency units\<close>

text \<open>The only way a Profile's use grows is through \<open>enterProfile\<close>, below the maximum.\<close>

definition use_bounded :: "sched \<Rightarrow> sched \<Rightarrow> resolved_profile option \<Rightarrow> bool" where
  "use_bounded s s' p \<longleftrightarrow> (\<forall>name. profile_use name s' \<le> max 0 (profile_use name s)
     \<or> (case p of None \<Rightarrow> False | Some q \<Rightarrow> name = rp_name q \<and> (rp_max q \<le> 0 \<or> profile_use name s' \<le> rp_max q)))"

lemma use_same: "sc_profile_use s' = sc_profile_use s \<Longrightarrow> use_bounded s s' p"
  by (simp add: use_bounded_def profile_use_def)

lemma use_less: "(\<And>name. profile_use name s' \<le> max 0 (profile_use name s)) \<Longrightarrow> use_bounded s s' p"
  by (simp add: use_bounded_def)

lemma use_finish:
  assumes "finish i s = (b, s')"
  shows "profile_use name s' \<le> max 0 (profile_use name s)"
proof (cases b)
  case True
  with assms have "finish i s = (True, s')" by simp
  from finish_True [OF this] obtain h :: handle where "\<forall>name. profile_use name s' = (if name = h_profile h
      then (if profile_use name s > 1 then profile_use name s - 1 else 0) else profile_use name s)" by blast
  then show ?thesis by simp
qed (use assms finish_False [of i s s'] in simp)

lemma use_calm: "calm s s' \<Longrightarrow> use_bounded s s' p"
  using calm_same [of s s'] by (simp add: use_same)


lemma use_task: "task_ok s t \<Longrightarrow> use_bounded s (tr_sched (task_step pa env t s)) p"
proof (cases "\<exists>i b. t = Ending i \<or> t = Losing i b")
  case True
  then obtain i b where t: "t = Ending i \<or> t = Losing i b" by blast
  obtain ended s' where f: "finish i s = (ended, s')" by fastforce
  from t show ?thesis
  proof
    assume "t = Ending i"
    then show ?thesis using use_finish [OF f] by (cases ended) (auto simp: f intro: use_less)
  next
    assume "t = Losing i b"
    moreover have "profile_use name (stopHeartbeat i s') = profile_use name s'" for name
      using calm_same [OF calm_stop [of s' i]] by (simp add: profile_use_def)
    ultimately show ?thesis using use_finish [OF f] by (auto simp: step_losing_def f intro: use_less)
  qed
next
  case False
  assume "task_ok s t"
  with False have "passes_on s t (task_step pa env t s)"
    by (rule passes_on_task)
  then show ?thesis by (simp add: passes_on_def use_calm)
qed

lemma use_worker:
  "worker_step hc env wk w = ((wk', w'), handed) \<Longrightarrow> use_bounded (wd_sched w) (wd_sched w') (Some (wk_prof wk))"
proof (cases "wk_pc wk")
  case AwaitProfile
  assume st: "worker_step hc env wk w = ((wk', w'), handed)"
  obtain entered free s' where e: "enterProfile (wk_prof wk) (wd_sched w) = ((entered, free), s')" by (metis prod.exhaust)
  have "profile_use name s' \<le> max 0 (profile_use name (wd_sched w))
      \<or> name = rp_name (wk_prof wk) \<and> (rp_max (wk_prof wk) \<le> 0 \<or> profile_use name s' \<le> rp_max (wk_prof wk))" for name
    using e by (auto simp: enterProfile_def profile_use_def split: if_splits)
  moreover have "wd_sched w' = s'"
    using st e AwaitProfile by (cases entered) (auto simp: worker_step_def await_step_def)
  ultimately show ?thesis by (auto simp: use_bounded_def)
next
  case (Leaving e)
  assume "worker_step hc env wk w = ((wk', w'), handed)"
  with Leaving show ?thesis
    by (auto simp: worker_step_def on_sched_def leaveProfile_def profile_use_release intro!: use_less)
qed (auto simp: worker_step_def await_step_def claim_step_def claim_refused_def on_tracker_def on_sched_def on_health_def Let_def
      allocated_convert_def convert_def stop_waiting_def startHeartbeat_def on_handle_def intro!: use_same
      split: prod.splits sum.splits pm_error.splits option.splits if_splits selected.splits bool.splits)


lemma use_release: "use_bounded (sy_sched y) (sy_sched (act_release i y)) p"
proof -
  obtain ended s' where f: "finish i (sy_sched y) = (ended, s')" by fastforce
  have "profile_use name (stopHeartbeat i s') = profile_use name s'" for name
    using calm_same [OF calm_stop [of s' i]] by (simp add: profile_use_def)
  then show ?thesis using use_finish [OF f] by (cases ended) (auto simp: act_release_def f intro: use_less)
qed

lemma use_retain: "use_bounded (sy_sched y) (sy_sched (act_retain i y)) p"
proof -
  obtain ended s' where f: "finish i (sy_sched y) = (ended, s')" by fastforce
  have "profile_use name (stopHeartbeat i s') = profile_use name s'" for name
    using calm_same [OF calm_stop [of s' i]] by (simp add: profile_use_def)
  then show ?thesis
    using use_finish [OF f] use_release [of y i p] by (cases ended) (auto simp: act_retain_def f intro: use_less)
qed

lemma use_reserve: "use_bounded s (snd (Reserve ctx now hm t s)) p"
  by (rule use_same) (auto simp: Reserve_def refuse_def contacted_now_def grant_def Let_def split_beta
      split: option.splits run_state.splits sum.splits prod.splits)

text \<open>What every caller of \<open>Allocate\<close> passes as the maximum of a Profile.\<close>

definition limits_agree :: "(string \<Rightarrow> int) \<Rightarrow> action \<Rightarrow> bool" where
  "limits_agree mx a = (case a of ActAllocate r job p request \<Rightarrow> rp_max p = mx (rp_name p) | _ \<Rightarrow> True)"

definition within_limits :: "(string \<Rightarrow> int) \<Rightarrow> system \<Rightarrow> bool" where
  "within_limits mx y \<longleftrightarrow> (\<forall>name. 0 < mx name \<longrightarrow> profile_use name (sy_sched y) \<le> mx name)
   \<and> list_all (\<lambda>wk. rp_max (wk_prof wk) = mx (rp_name (wk_prof wk))) (sy_workers y)"

lemma within_use:
  assumes "within_limits mx y" "use_bounded (sy_sched y) s' p" "case p of None \<Rightarrow> True | Some q \<Rightarrow> rp_max q = mx (rp_name q)"
  shows "0 < mx name \<Longrightarrow> profile_use name s' \<le> mx name"
  using assms(1) [unfolded within_limits_def, THEN conjunct1, rule_format, of name]
    assms(2) [unfolded use_bounded_def, rule_format, of name] assms(3)
  by (cases p) auto

lemma worker_prof: "worker_step hc env wk w = ((wk', w'), handed) \<Longrightarrow> wk_prof wk' = wk_prof wk"
  by (cases "wk_pc wk") (auto simp: worker_step_def Let_def split: prod.splits)

lemma use_act:
  assumes "accounts y"
  shows "case a of ActWorker n env \<Rightarrow> True | _ \<Rightarrow> use_bounded (sy_sched y) (sy_sched (act pa a y)) None"
proof (cases a)
  case (ActTask n env)
  then show ?thesis
    using assms by (cases "n < length (sy_tasks y)") (simp_all add: act_task_def accounts_def list_all_length use_task use_same)
next
  case (ActProbe now name info failed)
  obtain b s' where r: "recordProbe now name info failed (sy_sched y) = (b, s')" by fastforce
  then show ?thesis using use_calm [OF calm_probe [OF r]] ActProbe by (cases b) (simp_all add: act_probe_def)
next
  case (ActReload ps inventory)
  then show ?thesis using use_calm [OF calm_reload] by simp
qed (auto simp: use_release use_retain use_reserve act_check_def act_allocate_def act_abort_running_def start_run_def setState_def
       drained_def shutdown_begin_def closeBackground_def ReleaseReservation_def on_tracker_def intro!: use_same
       split: option.splits check_begin.splits sum.splits)

lemma within_act:
  assumes "accounts y" "within_limits mx y" "limits_agree mx a"
  shows "within_limits mx (act pa a y)"
proof (cases "\<exists>n env. a = ActWorker n env")
  case True
  then obtain n env where a: "a = ActWorker n env" by blast
  show ?thesis
  proof (cases "n < length (sy_workers y)")
    case True
    let ?wk = "sy_workers y ! n"
    obtain wk' w' handed where st: "worker_step (pa_health pa) env ?wk (sy_world y) = ((wk', w'), handed)" by (metis prod.exhaust)
    have agree: "rp_max (wk_prof ?wk) = mx (rp_name (wk_prof ?wk))"
      using assms(2) True by (simp add: within_limits_def list_all_length)
    have "0 < mx name \<Longrightarrow> profile_use name (wd_sched w') \<le> mx name" for name
      by (rule within_use [OF assms(2) use_worker [OF st]]) (simp_all add: agree)
    moreover have "list_all (\<lambda>wk. rp_max (wk_prof wk) = mx (rp_name (wk_prof wk))) ((sy_workers y)[n := wk'])"
      using assms(2) agree worker_prof [OF st] by (simp add: within_limits_def list_all_update)
    ultimately show ?thesis
      using True by (simp add: a within_limits_def act_worker_def Let_def st)
  next
    case False
    then show ?thesis using assms(2) by (simp add: a act_worker_def)
  qed
next
  case False
  then have "use_bounded (sy_sched y) (sy_sched (act pa a y)) None"
    using use_act [OF assms(1), of pa a] by (cases a) auto
  then have "0 < mx name \<Longrightarrow> profile_use name (sy_sched (act pa a y)) \<le> mx name" for name
    using within_use [OF assms(2)] by fastforce
  moreover have "list_all (\<lambda>wk. rp_max (wk_prof wk) = mx (rp_name (wk_prof wk))) (sy_workers (act pa a y))"
    using False assms(2,3)
    by (cases a) (auto simp: within_limits_def limits_agree_def act_task_def act_release_def act_retain_def act_check_def act_probe_def
        act_abort_running_def act_allocate_def Allocate_begin_def split: prod.splits bool.splits check_begin.splits run_state.splits)
  ultimately show ?thesis by (simp add: within_limits_def)
qed

lemma run_within:
  assumes "0 < set_slots cfg" "list_all (limits_agree mx) acts"
  shows "within_limits mx (run_system pa cfg acts)"
  using assms(2)
proof (induction acts rule: rev_induct)
  case Nil
  show ?case
    by (simp add: run_system_def within_limits_def start_system_def new_sched_def resetHostsLocked_def profile_use_def)
next
  case (snoc a acts)
  then show ?case
    using within_act [OF run_accounts [OF assms(1)]] by (simp add: run_system_snoc)
qed


section \<open>A small installation\<close>

text \<open>One Profile with a maximum of one, one Slot, and a Pool with one warm MicroVM.\<close>

definition small_profile :: profile where
  "small_profile = \<lparr>pr_name = ''small'', pr_arch = ''amd64'', pr_vcpu = 2, pr_memory_mb = 2048,
     pr_kernel = \<lparr>k_image = ''k:1'', k_filename = [], k_cmdline = []\<rparr>, pr_initrd = None, pr_rootfs = ''r:1'', pr_volumes = [],
     pr_provider = [], pr_user_data = [], pr_shell = ''/bin/bash'', pr_builds_dir = ''/builds'', pr_cache_dir = ''/cache'',
     pr_helper_path = ''/helper'', pr_images = [''ruby''], pr_image_globs = [], pr_default = True,
     pr_transport = \<lparr>tp_kind = ''exec'', tp_ssh = \<lparr>ssh_user = [], ssh_private_key_file = [], ssh_known_host_key = []\<rparr>\<rparr>,
     pr_user = ''root'', pr_ready_timeout = 60 * second, pr_host_selector = [], pr_max_concurrency = 1,
     pr_pool = \<lparr>ps_size = 1, ps_name = [], ps_namespace = [], ps_strategy = ''immediate_on_lease'', ps_min_size = None,
       ps_create_hooks = [], ps_pre_lease_hooks = [], ps_hook_failure_policy = [], ps_heartbeat_interval = 10 * second,
       ps_heartbeat_expiry = 30 * second\<rparr>\<rparr>"

definition small_settings :: settings where
  "small_settings = \<lparr>set_runner_name = ''runner'', set_namespace = ''ns'', set_slots = 1, set_shutdown_timeout = 30 * second,
     set_scheduler = \<lparr>ss_namespace = ''ns'', ss_allocation_timeout = 300 * second, ss_host_health_interval = 10 * second,
       ss_host_unhealthy_threshold = 3, ss_host_call_deadline = 10 * second, ss_keep_on_failure = True,
       ss_keep_duration = 3600 * second, ss_allow_default = False\<rparr>,
     set_pool_manager = \<lparr>pm_backend = ''claim'', pm_claim = None, pm_endpoint = [],
       pm_tls = \<lparr>ct_ca_file = [], ct_cert_file = [], ct_key_file = [], ct_insecure = False\<rparr>, pm_deadline = 10 * second,
       pm_health_backoff = 30 * second, pm_health_interval = 10 * second, pm_health_threshold = 3, pm_events_poll = 5 * second,
       pm_declare_retry = 30 * second, pm_release_retry = 5\<rparr>,
     set_profiles = [small_profile], set_inventory = []\<rparr>"

definition small_params :: params where
  "small_params = \<lparr>pa_health = \<lparr>hc_interval = 10 * second, hc_threshold = 3, hc_unhealthy_for = 30 * second\<rparr>,
     pa_policy = (\<lambda>_. 0), pa_agents = False\<rparr>"

definition small_ref :: pool_ref where
  "small_ref = \<lparr>ref_name = ''small'', ref_namespace = ''ns''\<rparr>"

definition small_claim :: claim where
  "small_claim = \<lparr>claim_lease = ''L1'', claim_vm = ''vm1'', claim_host = \<lparr>host_name = ''h1'', host_address = []\<rparr>\<rparr>"

definition small_env :: alloc_env where
  "small_env = \<lparr>en_now = second, en_select = SelBackoff, en_claim = Inr small_claim, en_ctx = None, en_built = True,
     en_declared = True, en_pool = Inr [], en_vm = (\<lambda>_. VmNil), en_vm_ctx = (\<lambda>_. None)\<rparr>"

definition small_task_env :: task_env where
  "small_task_env = \<lparr>te_now = 2 * second, te_select = HbTimer, te_answer = Inl ErrNotFound, te_wake = KeepElapsed, te_failed = False\<rparr>"

text \<open>The Pool is declared and polled, the Pool Manager answers, a Slot is reserved and a Job allocated.\<close>

definition small_start :: "action list" where
  "small_start = [ActRun, ActHealth (markHealthy NewHealth), ActTracker (OpTrack small_ref True),
     ActTracker (OpApplyPoll small_ref 0 1 \<lparr>st_available = 1, st_leased = 0, st_provisioning = 0, st_quarantined = 0\<rparr>),
     ActReserve None second, ActReserve None second,
     ActAllocate 1 \<lparr>job_id = 7, job_image = ''ruby''\<rparr> (resolve_one ''ns'' small_profile) ''req'']"

definition small_allocate :: "action list" where
  "small_allocate = small_start @ replicate 6 (ActWorker 0 small_env)"


section \<open>The accounts in every reachable state\<close>

text \<open>
  C1. However Reservations, allocations, releases, heartbeats, aborts and the shutdown
  interleave, the Slots in use never exceed the configured number, and no Allocation holds
  two Slots.
\<close>

theorem slots_never_exceeded:
  assumes "0 < set_slots cfg"
  shows "slotsInUseLocked (sy_sched (run_system pa cfg acts)) \<le> set_slots cfg
    \<and> distinct (sc_allocations (sy_sched (run_system pa cfg acts)))"
  using run_accounts [OF assms, of pa acts] run_slots [of pa cfg acts] by (simp add: accounts_def sched_ok_def)

lemma slots_never_exceeded_witness:
  "slotsInUseLocked (sy_sched (run_system small_params small_settings small_allocate)) = 1
   \<and> slotsInUseLocked (sy_sched (run_system small_params small_settings small_allocate)) \<le> set_slots small_settings"
proof
  show "slotsInUseLocked (sy_sched (run_system small_params small_settings small_allocate)) = 1" by code_simp
  show "slotsInUseLocked (sy_sched (run_system small_params small_settings small_allocate)) \<le> set_slots small_settings"
    using slots_never_exceeded [of small_settings small_params small_allocate] by (simp add: small_settings_def)
qed



text \<open>
  C2. As long as the Pool Manager never gives the same Lease out twice, every Lease it gave
  out is answered for exactly once: by an allocation that has claimed it, by a live
  Allocation, by a goroutine that still has to hand it back, by one release, or by having
  been found lost. So no Lease is released twice, none is released and also dropped as
  lost, and none is released that was never given out.
\<close>

theorem each_lease_once:
  assumes "0 < set_slots cfg" "distinct (sy_claimed (run_system pa cfg acts))"
  shows "(\<forall>l. custody l (run_system pa cfg acts) = (if l \<in> set (sy_claimed (run_system pa cfg acts)) then 1 else 0))
    \<and> distinct (sy_ladders (run_system pa cfg acts) @ sy_lost (run_system pa cfg acts))
    \<and> set (sy_ladders (run_system pa cfg acts)) \<subseteq> set (sy_claimed (run_system pa cfg acts))"
proof -
  let ?y = "run_system pa cfg acts"
  have c: "custody l ?y = count_list (sy_claimed ?y) l" for l
    using run_accounts [OF assms(1), of pa acts] by (simp add: accounts_def)
  have one: "custody l ?y = (if l \<in> set (sy_claimed ?y) then 1 else 0)" for l
    using assms(2) [unfolded distinct_count_list, rule_format, of l] by (auto simp: c count_list_set)
  have "count_list (sy_ladders ?y @ sy_lost ?y) l \<le> custody l ?y" for l by (simp add: custody_def)
  then have "\<forall>l. count_list (sy_ladders ?y @ sy_lost ?y) l \<le> 1"
    using one by (metis (full_types) le_trans zero_le_one order_refl)
  moreover have "set (sy_ladders ?y) \<subseteq> set (sy_claimed ?y)"
  proof
    fix l
    assume "l \<in> set (sy_ladders ?y)"
    then have "0 < custody l ?y" by (simp add: count_list_set custody_def)
    then show "l \<in> set (sy_claimed ?y)" using one [of l] by (simp split: if_splits)
  qed
  ultimately show ?thesis using one by (simp only: distinct_count_list) blast
qed

lemma each_lease_once_witness:
  "sy_claimed (run_system small_params small_settings (small_allocate @ [ActRelease 2, ActTask 1 small_task_env])) = [''L1'']
   \<and> sy_ladders (run_system small_params small_settings (small_allocate @ [ActRelease 2, ActTask 1 small_task_env])) = [''L1'']
   \<and> custody ''L1'' (run_system small_params small_settings (small_allocate @ [ActRelease 2, ActTask 1 small_task_env])) = 1"
proof -
  let ?y = "run_system small_params small_settings (small_allocate @ [ActRelease 2, ActTask 1 small_task_env])"
  have "sy_claimed ?y = [''L1'']" "sy_ladders ?y = [''L1'']" by code_simp+
  then show ?thesis
    using each_lease_once [of small_settings small_params "small_allocate @ [ActRelease 2, ActTask 1 small_task_env]"]
    by (simp add: small_settings_def)
qed

text \<open>
  C4. No Lease leaks: once every \<open>Allocate\<close> call has returned, no Allocation is live and
  no goroutine is left that owes a release, every Lease the Pool Manager gave out has been
  handed to a release or was found lost.
\<close>

theorem no_lease_leaks:
  assumes "0 < set_slots cfg" "sc_allocations (sy_sched (run_system pa cfg acts)) = []"
    and "list_all (\<lambda>t. task_owes t = None) (sy_tasks (run_system pa cfg acts))"
    and "list_all (\<lambda>wk. pc_lease (wk_pc wk) = None) (sy_workers (run_system pa cfg acts))"
  shows "set (sy_claimed (run_system pa cfg acts))
    = set (sy_ladders (run_system pa cfg acts)) \<union> set (sy_lost (run_system pa cfg acts))"
proof -
  let ?y = "run_system pa cfg acts"
  have "count_if (owes (sy_sched ?y) l) (sy_tasks ?y) = 0" "count_if (\<lambda>wk. pc_lease (wk_pc wk) = Some l) (sy_workers ?y) = 0" for l
    using assms(3,4) by (intro count_if_none; auto simp: owes_def list_all_iff)+
  then have "count_list (sy_claimed ?y) l = count_list (sy_ladders ?y) l + count_list (sy_lost ?y) l" for l
    using run_accounts [OF assms(1), of pa acts] assms(2) by (simp add: accounts_def custody_def)
  then show ?thesis by (auto simp: count_list_set)
qed

lemma no_lease_leaks_witness:
  "set (sy_claimed (run_system small_params small_settings (small_allocate @ replicate 4 (ActTask 0 small_task_env)))) = {''L1''}
   \<and> sy_lost (run_system small_params small_settings (small_allocate @ replicate 4 (ActTask 0 small_task_env))) = [''L1'']"
proof -
  let ?acts = "small_allocate @ replicate 4 (ActTask 0 small_task_env)"
  let ?y = "run_system small_params small_settings ?acts"
  have "sc_allocations (sy_sched ?y) = []" "list_all (\<lambda>t. task_owes t = None) (sy_tasks ?y)"
    "list_all (\<lambda>wk. pc_lease (wk_pc wk) = None) (sy_workers ?y)" "sy_lost ?y = [''L1'']" "sy_ladders ?y = []"
    by code_simp+
  then show ?thesis
    using no_lease_leaks [of small_settings small_params ?acts] by (simp add: small_settings_def)
qed

end
