(* ===== verification/Scheduler_Behaviour.thy ===== *)
theory Scheduler_Behaviour
  imports Scheduler_Props "HOL-Library.Multiset"
begin

text \<open>
  What single operations of the Scheduler do: granting and refusing Reservations, failing
  allocations, aborting the Jobs of a Host, probes, releases, checks and the shutdown.
\<close>

section \<open>Capacity\<close>

text \<open>The warm MicroVMs are the Tracker's counts, whatever order \<open>Pools\<close> lists them in.\<close>

definition warm_count :: "pool_ref \<times> tracked_pool \<Rightarrow> int" where
  "warm_count rp = (let p = snd rp in if declared p \<and> \<not> exhausted p then max 0 (Uid_Count.total (available p)) else 0)"

lemma warm_total_sum_list:
  "warm_total pas = sum_list (map (\<lambda>pa. if pa_declared pa \<and> st_available (pa_status pa) > 0 then st_available (pa_status pa) else 0) pas)"
  by (induction pas) simp_all

lemma sum_list_sort_key: "sum_list (map f (sort_key k xs)) = (sum_list (map f xs) :: int)"
  by (metis mset_map mset_sort sum_mset_sum_list)

lemma warmAvailable_counts:
  "warmAvailable ok t = (if ok then sum_list (map warm_count (pools t)) else 0)"
  by (auto simp: warmAvailable_def warm_total_sum_list Pools_def sum_list_sort_key unhealthy_def comp_def
      warm_count_def pool_status_of_def availableCount_def split_beta Let_def max_def intro!: arg_cong [where f = sum_list])

text \<open>
  The capacity the Scheduler offers is the lesser of its unused Slots and the warm
  MicroVMs of the declared Pools that do not read as exhausted, as the Tracker counts them
  while the Pool Manager is healthy, and none otherwise; when it is none, the reason says
  which of the two ran out.
\<close>

theorem capacity_is_the_lesser:
  "availableCapacityLocked (warmAvailable ok t) s =
     (let free = max 0 (set_slots (sc_set s) - slotsInUseLocked s);
          warm = (if ok then sum_list (map warm_count (pools t)) else 0)
      in (min free warm, if free = 0 then RefusalNoFreeSlot else if warm = 0 then RefusalNoWarmMicroVM else RefusalNone))"
proof -
  have "0 \<le> sum_list (map warm_count (pools t))"
    by (rule sum_list_nonneg) (auto simp: warm_count_def Let_def)
  then show ?thesis
    by (auto simp: availableCapacityLocked_def warmAvailable_counts Let_def)
qed

text \<open>
  C13. \<open>Reserve\<close> on a running Scheduler that has heard from the Pool Manager grants a
  Reservation exactly when the capacity is positive. The Reservation then has a fresh id
  and takes exactly one Slot; a refusal takes none and names the reason.
\<close>

theorem Reserve_takes_one_slot:
  assumes "sched_ok s" "sc_state s = StateRunning" "sc_ready s \<or> contacted hm"
    and "availableCapacityLocked (warmAvailable (Healthy now hm) t) s = (n, reason)"
    and "Reserve None now hm t s = (r, s')"
  shows "(if 0 < n then r = Inr \<lparr>res_id = Suc (sc_next_id s), res_granted_at = now\<rparr> \<and> \<not> mhas (sc_reservations s) (Suc (sc_next_id s))
            \<and> slotsInUseLocked s' = slotsInUseLocked s + 1
          else r = Inl (Refused reason) \<and> slotsInUseLocked s' = slotsInUseLocked s)
    \<and> sched_ok s'"
proof -
  obtain s1 where c: "contacted_now hm s = (True, s1)" and b: "books s1 = books s"
    using assms(3) by (cases "sc_ready s") (auto simp: contacted_now_def books_def)
  have same: "sc_reservations s1 = sc_reservations s" "sc_allocations s1 = sc_allocations s" "sc_next_id s1 = sc_next_id s"
    "set_slots (sc_set s1) = set_slots (sc_set s)"
    using b by (simp_all add: books_def)
  then have cap: "availableCapacityLocked (warmAvailable (Healthy now hm) t) s1 = (n, reason)"
    using assms(4) by (simp add: availableCapacityLocked_def slotsInUseLocked_def)
  have ok1: "sched_ok s1" using calm_sched_ok [OF calm_books [OF b] assms(1)] .
  have fresh: "\<not> mhas (sc_reservations s) (Suc (sc_next_id s))"
    using assms(1) by (auto simp: sched_ok_def dest!: spec [of _ "Suc (sc_next_id s)"])
  show ?thesis
  proof (cases "0 < n")
    case True
    with cap have g: "grant now (warmAvailable (Healthy now hm) t) s1 = (Inr \<lparr>res_id = Suc (sc_next_id s1), res_granted_at = now\<rparr>,
        s1\<lparr>sc_next_id := Suc (sc_next_id s1), sc_reservations := mput (Suc (sc_next_id s1)) now (sc_reservations s1)\<rparr>)"
      by (simp add: grant_def Let_def)
    with assms(2,5) c have "r = Inr \<lparr>res_id = Suc (sc_next_id s1), res_granted_at = now\<rparr>"
      "s' = s1\<lparr>sc_next_id := Suc (sc_next_id s1), sc_reservations := mput (Suc (sc_next_id s1)) now (sc_reservations s1)\<rparr>"
      by (auto simp: Reserve_def)
    moreover have "sched_ok (snd (grant now (warmAvailable (Healthy now hm) t) s1))" by (rule grant_sched_ok [OF ok1])
    ultimately show ?thesis
      using True fresh by (simp add: g same slotsInUseLocked_def length_mput)
  next
    case False
    have reason: "reason \<noteq> RefusalNone"
      using cap False by (auto simp: availableCapacityLocked_def Let_def split: if_splits)
    from False cap have "grant now (warmAvailable (Healthy now hm) t) s1 = (Inl reason, s1)" by (simp add: grant_def)
    with assms(2,5) c reason have "r = Inl (Refused reason)" "s' = snd (throttled now (''refusal:'' @ reason_text reason) s1)"
      by (auto simp: Reserve_def refuse_def)
    moreover have "sched_ok (snd (throttled now (''refusal:'' @ reason_text reason) s1))"
      by (rule calm_sched_ok [OF calm_books ok1]) simp
    ultimately show ?thesis using False by (simp add: slotsInUseLocked_def same)
  qed
qed


lemma Reserve_takes_one_slot_witness:
  "fst (Reserve None second (wd_health (sy_world (run_system small_params small_settings (take 4 small_start))))
      (wd_tracker (sy_world (run_system small_params small_settings (take 4 small_start))))
      (sy_sched (run_system small_params small_settings (take 4 small_start))))
   = Inr \<lparr>res_id = 1, res_granted_at = second\<rparr>"
proof -
  let ?y = "run_system small_params small_settings (take 4 small_start)"
  obtain r s' where r: "Reserve None second (wd_health (sy_world ?y)) (wd_tracker (sy_world ?y)) (sy_sched ?y) = (r, s')" by fastforce
  have "0 < set_slots small_settings" by (simp add: small_settings_def)
  then have "sched_ok (sy_sched ?y)" using run_accounts by (simp add: accounts_def)
  moreover have "sc_state (sy_sched ?y) = StateRunning" "contacted (wd_health (sy_world ?y))" "sc_next_id (sy_sched ?y) = 0"
    "availableCapacityLocked (warmAvailable (Healthy second (wd_health (sy_world ?y))) (wd_tracker (sy_world ?y))) (sy_sched ?y)
      = (1, RefusalNone)" by code_simp+
  ultimately show ?thesis
    using Reserve_takes_one_slot [OF _ _ _ _ r] by (simp add: r)
qed

section \<open>An allocation that fails\<close>

text \<open>The Leases \<open>ClaimVM\<close> answered with along a run of a worker.\<close>

fun run_claims :: "health_config \<Rightarrow> alloc_env list \<Rightarrow> worker \<Rightarrow> world \<Rightarrow> string list" where
  "run_claims hc [] wk w = []"
| "run_claims hc (env # envs) wk w =
     (case worker_step hc env wk w of ((wk1, w1), handed) \<Rightarrow> claimed_ids env wk @ run_claims hc envs wk1 w1)"

lemma balanced_join:
  "balanced s wk t wk1 got handed \<Longrightarrow> balanced t wk1 u wk2 got' handed' \<Longrightarrow> balanced s wk u wk2 (got @ got') (handed @ handed')"
  unfolding balanced_def count_list_append
  by (intro conjI; (simp; fail)?) (metis (no_types, opaque_lifting) add.assoc add.commute)+

lemma run_balanced:
  fixes pa :: params
  assumes "entitled (wd_sched w) wk" "run_worker (pa_health pa) envs wk w = ((wk', w'), handed)"
  shows "balanced (wd_sched w) wk (wd_sched w') wk' (run_claims (pa_health pa) envs wk w) (map ls_id handed)"
  using assms
proof (induction envs arbitrary: wk w handed)
  case Nil
  then show ?case by (simp add: balanced_def entitled_def)
next
  case (Cons env envs)
  obtain wk1 w1 first where st: "worker_step (pa_health pa) env wk w = ((wk1, w1), first)" by (metis prod.exhaust)
  obtain later where rest: "run_worker (pa_health pa) envs wk1 w1 = ((wk', w'), later)" and h: "handed = first @ later"
    using Cons.prems(2) by (auto simp: st split: prod.splits)
  have b: "balanced (wd_sched w) wk (wd_sched w1) wk1 (claimed_ids env wk) (map ls_id first)"
    using worker_fair [OF Cons.prems(1), of pa env] by (simp add: fair_step_def st)
  from balanced_join [OF b Cons.IH [OF entitled_balanced [OF Cons.prems(1) b] rest]]
  show ?case by (simp add: st h)
qed

fun got_vm :: "alloc_pc \<Rightarrow> bool" where
  "got_vm (Started waits i) = True"
| "got_vm (Returned (Inr i)) = True"
| "got_vm pc = False"

lemma got_vm_stays: "worker_step hc env wk w = ((wk', w'), handed) \<Longrightarrow> got_vm (wk_pc wk) \<Longrightarrow> got_vm (wk_pc wk')"
  by (cases "wk_pc wk") (auto simp: worker_step_def)

lemma run_got_vm: "run_worker hc envs wk w = ((wk', w'), handed) \<Longrightarrow> got_vm (wk_pc wk) \<Longrightarrow> got_vm (wk_pc wk')"
proof (induction envs arbitrary: wk w handed)
  case (Cons env envs)
  then show ?case by (fastforce split: prod.splits dest: got_vm_stays)
qed simp

lemma step_keeps_slots:
  "worker_step hc env wk w = ((wk', w'), handed) \<Longrightarrow> \<not> got_vm (wk_pc wk') \<Longrightarrow>
     sc_reservations (wd_sched w') = sc_reservations (wd_sched w) \<and> sc_allocations (wd_sched w') = sc_allocations (wd_sched w)
     \<and> sc_handles (wd_sched w') = sc_handles (wd_sched w)"
  by (cases "wk_pc wk")
     (auto simp: worker_step_def await_step_def enterProfile_def claim_step_def claim_refused_def on_tracker_def on_sched_def
       on_health_def Let_def allocated_convert_def convert_def stop_waiting_def leaveProfile_def
       split: prod.splits sum.splits pm_error.splits option.splits if_splits selected.splits bool.splits)

lemma run_keeps_slots:
  "run_worker hc envs wk w = ((wk', w'), handed) \<Longrightarrow> \<not> got_vm (wk_pc wk') \<Longrightarrow>
     sc_reservations (wd_sched w') = sc_reservations (wd_sched w) \<and> sc_allocations (wd_sched w') = sc_allocations (wd_sched w)
     \<and> sc_handles (wd_sched w') = sc_handles (wd_sched w)"
proof (induction envs arbitrary: wk w handed)
  case (Cons env envs)
  obtain wk1 w1 first where st: "worker_step hc env wk w = ((wk1, w1), first)" by (metis prod.exhaust)
  obtain later where rest: "run_worker hc envs wk1 w1 = ((wk', w'), later)"
    using Cons.prems(1) by (auto simp: st split: prod.splits)
  have "\<not> got_vm (wk_pc wk1)" using run_got_vm [OF rest] Cons.prems(2) by blast
  with step_keeps_slots [OF st] Cons.IH [OF rest Cons.prems(2)] show ?case by simp
qed simp

text \<open>
  C10. An \<open>Allocate\<close> that returns an error, on whichever of its paths, leaves the caller's
  Reservation and every Allocation as they were, returns the concurrency unit it took and
  the mark that it was waiting, and hands back every Lease that \<open>ClaimVM\<close> gave it, once.
\<close>

theorem failed_Allocate_restores:
  fixes pa :: params
  assumes "entitled (wd_sched w) wk" "wk_pc wk = AwaitProfile"
    and "run_worker (pa_health pa) envs wk w = ((wk', w'), handed)" "wk_pc wk' = Returned (Inl e)"
  shows "sc_reservations (wd_sched w') = sc_reservations (wd_sched w)
    \<and> sc_allocations (wd_sched w') = sc_allocations (wd_sched w)
    \<and> profile_use name (wd_sched w') = profile_use name (wd_sched w)
    \<and> waiting_on ref (wd_sched w') = waiting_on ref (wd_sched w)
    \<and> mset (map ls_id handed) = mset (run_claims (pa_health pa) envs wk w)"
proof -
  have b: "balanced (wd_sched w) wk (wd_sched w') wk' (run_claims (pa_health pa) envs wk w) (map ls_id handed)"
    by (rule run_balanced [OF assms(1,3)])
  have same: "sc_reservations (wd_sched w') = sc_reservations (wd_sched w)" "sc_allocations (wd_sched w') = sc_allocations (wd_sched w)"
    "sc_handles (wd_sched w') = sc_handles (wd_sched w)"
    using run_keeps_slots [OF assms(3)] assms(4) by simp_all
  have "units_left name (wd_sched w') wk' = units_left name (wd_sched w) wk" "waits_left ref (wd_sched w') wk' = waits_left ref (wd_sched w) wk"
    using b by (simp_all add: balanced_def)
  moreover have "profile_at (wd_sched w') name = profile_at (wd_sched w) name" by (rule ext) (simp add: profile_at_def same)
  moreover have "mset (map ls_id handed) = mset (run_claims (pa_health pa) envs wk w)"
  proof (rule multiset_eqI, unfold count_mset)
    fix l
    have "leases_held l (wd_sched w') wk' + count_list (map ls_id handed) l
        = leases_held l (wd_sched w) wk + count_list (run_claims (pa_health pa) envs wk w) l"
      using b unfolding balanced_def by blast
    moreover have "leases_held l (wd_sched w') wk' = leases_held l (wd_sched w) wk"
      by (simp add: leases_held_def assms(2,4) same lease_id_of_def)
    ultimately show "count_list (map ls_id handed) l = count_list (run_claims (pa_health pa) envs wk w) l" by simp
  qed
  ultimately show ?thesis
    using same assms(2,4) by (simp add: units_left_def waits_left_def has_unit_def waits_on_def)
qed


text \<open>A claim answered while the Job was cancelled: the Lease goes straight back.\<close>

lemma failed_Allocate_restores_witness:
  "map ls_id (snd (run_worker (pa_health small_params) (replicate 3 small_env @ replicate 3 (small_env\<lparr>en_ctx := Some Canceled\<rparr>))
      (sy_workers (run_system small_params small_settings small_start) ! 0)
      (sy_world (run_system small_params small_settings small_start)))) = [''L1'']
   \<and> profile_use ''small'' (wd_sched (snd (fst (run_worker (pa_health small_params)
      (replicate 3 small_env @ replicate 3 (small_env\<lparr>en_ctx := Some Canceled\<rparr>))
      (sy_workers (run_system small_params small_settings small_start) ! 0)
      (sy_world (run_system small_params small_settings small_start))))))
      = profile_use ''small'' (sy_sched (run_system small_params small_settings small_start))"
proof -
  let ?y = "run_system small_params small_settings small_start"
  let ?envs = "replicate 3 small_env @ replicate 3 (small_env\<lparr>en_ctx := Some Canceled\<rparr>)"
  let ?run = "run_worker (pa_health small_params) ?envs (sy_workers ?y ! 0) (sy_world ?y)"
  obtain wk' w' handed where r: "?run = ((wk', w'), handed)" by (metis prod.exhaust)
  have "accounts ?y" by (rule run_accounts) (simp add: small_settings_def)
  moreover have "length (sy_workers ?y) = 1" by code_simp
  ultimately have e: "entitled (sy_sched ?y) (sy_workers ?y ! 0)" by (simp add: accounts_entitled)
  have pc: "wk_pc (sy_workers ?y ! 0) = AwaitProfile" by code_simp
  have out: "wk_pc (fst (fst ?run)) = Returned (Inl (alloc_failed (resolve_one ''ns'' small_profile) ''h1'' (CauseContext Canceled)))"
    by code_simp
  have claims: "run_claims (pa_health small_params) ?envs (sy_workers ?y ! 0) (sy_world ?y) = [''L1'']" by code_simp
  have "mset (map ls_id handed) = {#''L1''#}"
    "profile_use ''small'' (wd_sched w') = profile_use ''small'' (sy_sched ?y)"
    using failed_Allocate_restores [OF e pc r, of _ "''small''"] out claims by (simp_all add: r)
  then show ?thesis unfolding r by (cases handed) (simp_all add: add_mset_eq_single)
qed


section \<open>Aborting Jobs\<close>

text \<open>What an abort leaves of a handle.\<close>

definition aborted :: "handle_error \<Rightarrow> handle \<Rightarrow> handle" where
  "aborted e h = (fail e h)\<lparr>h_beating := False\<rparr>"

lemma aborted_same [simp]:
  "h_gone (aborted e h) = h_gone h" "h_alloc (aborted e h) = h_alloc h" "h_id (aborted e h) = h_id h"
  "h_done (aborted e h)" "h_placement (aborted e h) = h_placement h" "\<not> h_beating (aborted e h)"
  by (simp_all add: aborted_def fail_def)

lemma aborted_err: "h_err (aborted e h) = (if h_done h then h_err h else Some e)"
  by (simp add: aborted_def fail_def)

definition lease_back :: "sched \<Rightarrow> nat \<Rightarrow> lease list" where
  "lease_back s i = (case mget (sc_handles s) i of None \<Rightarrow> [] | Some h \<Rightarrow> if h_gone h then [] else [h_lease h])"

lemma abort_one_exact:
  assumes "mget (sc_handles s) i = Some h" "i \<in> set (sc_allocations s)" "abort_one e i (s, acc) = (s', handed)"
  shows "sc_allocations s' = remove1 i (sc_allocations s) \<and> sc_reservations s' = sc_reservations s
    \<and> sc_handles s' = mput i (aborted e h) (mput i (fail e h) (sc_handles s)) \<and> handed = acc @ lease_back s i"
  using assms
  by (auto simp: abort_one_def endAllocation_def finish_def on_handle_def holds_def hand_back_def stopHeartbeat_def Let_def
      lease_back_def aborted_def fail_def split: list.splits option.splits if_splits)

lemma abort_all_exact:
  assumes "sched_ok s" "distinct is'" "set is' \<subseteq> set (sc_allocations s)" "fold (abort_one e) is' (s, acc) = (s', handed)"
  shows "sc_allocations s' = filter (\<lambda>i. i \<notin> set is') (sc_allocations s) \<and> sc_reservations s' = sc_reservations s
    \<and> (\<forall>i. mget (sc_handles s') i = (if i \<in> set is' then map_option (aborted e) (mget (sc_handles s) i) else mget (sc_handles s) i))
    \<and> handed = acc @ concat (map (lease_back s) is')"
  using assms
proof (induction is' arbitrary: s acc)
  case Nil
  then show ?case by simp
next
  case (Cons i js)
  from Cons.prems have i: "i \<in> set (sc_allocations s)" and dist: "i \<notin> set js" "distinct js" by simp_all
  then obtain h where h: "mget (sc_handles s) i = Some h" using Cons.prems(1) by (auto simp: sched_ok_def known_def)
  obtain s1 acc1 where one: "abort_one e i (s, acc) = (s1, acc1)" by fastforce
  note ex = abort_one_exact [OF h i one]
  have keep: "sched_ok s1"
  proof -
    have "distinct (sc_allocations s)" using Cons.prems(1) by (simp add: sched_ok_def)
    obtain ended s2 where f: "finish i (on_handle i (fail e) s) = (ended, s2)" by fastforce
    have ok1: "sched_ok (on_handle i (fail e) s)" by (rule calm_sched_ok [OF calm_fail Cons.prems(1)])
    have "ended" using f i h by (auto simp: finish_def on_handle_def holds_def Let_def split: option.splits if_splits)
    with f have f: "finish i (on_handle i (fail e) s) = (True, s2)" by simp
    have "sched_ok s2"
      using finish_True [OF f] ok1 set_remove1_subset [of i "sc_allocations (on_handle i (fail e) s)"]
      by (auto simp: sched_ok_def known_def slotsInUseLocked_def length_remove1)
    moreover have "s1 = stopHeartbeat i s2"
      using one by (auto simp: abort_one_def endAllocation_def f hand_back_def Let_def split: option.splits if_splits)
    ultimately show ?thesis using calm_sched_ok [OF calm_stop] by simp
  qed
  have d: "distinct (sc_allocations s)" using Cons.prems(1) by (simp add: sched_ok_def)
  have sub: "set js \<subseteq> set (sc_allocations s1)" using Cons.prems(3) ex dist d by auto
  have rest: "fold (abort_one e) js (s1, acc1) = (s', handed)" using Cons.prems(4) one by simp
  have leases: "map (lease_back s1) js = map (lease_back s) js"
    using ex dist by (auto simp: lease_back_def)
  have "filter (\<lambda>j. j \<notin> set js) (remove1 i (sc_allocations s)) = filter (\<lambda>j. j \<notin> set (i # js)) (sc_allocations s)"
    using d by (auto simp: distinct_remove1_removeAll removeAll_filter_not_eq intro: filter_cong)
  with Cons.IH [OF keep dist(2) sub rest] ex leases h dist show ?case by auto
qed

text \<open>
  C11. When a Host becomes unhealthy, exactly the Allocations placed on it are ended: each of
  their handles is failed with \<open>ErrHostUnhealthy\<close> unless it had failed already, its
  keep-alive loop is stopped and its Lease is released unless it is gone. Every other
  handle and every Reservation stays as it is.
\<close>

theorem hostUnhealthy_aborts_exactly:
  assumes "sched_ok s" "hostUnhealthy name s = (s', handed)"
  shows "sc_allocations s' = filter (\<lambda>i. \<not> placed_on name s i) (sc_allocations s)
    \<and> handed = concat (map (lease_back s) (filter (placed_on name s) (sc_allocations s)))
    \<and> mget (sc_handles s') i = (if holds i s \<and> placed_on name s i
        then map_option (aborted (HostUnhealthy name)) (mget (sc_handles s) i) else mget (sc_handles s) i)
    \<and> sc_reservations s' = sc_reservations s"
proof -
  have "distinct (filter (placed_on name s) (sc_allocations s))" using assms(1) by (simp add: sched_ok_def)
  from abort_all_exact [OF assms(1) this _ assms(2) [unfolded hostUnhealthy_def liveHandles_def]]
  show ?thesis by (auto simp: holds_def intro: filter_cong)
qed

lemma hostUnhealthy_aborts_exactly_witness:
  "sc_allocations (fst (hostUnhealthy ''h1'' (sy_sched (run_system small_params small_settings small_allocate)))) = []
   \<and> map ls_id (snd (hostUnhealthy ''h1'' (sy_sched (run_system small_params small_settings small_allocate)))) = [''L1'']"
proof -
  let ?s = "sy_sched (run_system small_params small_settings small_allocate)"
  obtain s' handed where r: "hostUnhealthy ''h1'' ?s = (s', handed)" by fastforce
  have "accounts (run_system small_params small_settings small_allocate)" by (rule run_accounts) (simp add: small_settings_def)
  then have ok: "sched_ok ?s" by (simp add: accounts_def)
  have "filter (\<lambda>i. \<not> placed_on ''h1'' ?s i) (sc_allocations ?s) = []"
    "map ls_id (concat (map (lease_back ?s) (filter (placed_on ''h1'' ?s) (sc_allocations ?s)))) = [''L1'']"
    by code_simp+
  then show ?thesis using hostUnhealthy_aborts_exactly [OF ok r] by (simp add: r)
qed




section \<open>Probes\<close>

text \<open>The results of successive probes of one Host: when, what was learnt, and whether it failed.\<close>

type_synonym probe_result = "time \<times> host_info option \<times> bool"

definition probe_again :: "string \<Rightarrow> probe_result \<Rightarrow> sched \<Rightarrow> sched" where
  "probe_again name r s = snd (recordProbe (fst r) name (fst (snd r)) (snd (snd r)) s)"

definition failed_since :: "probe_result list \<Rightarrow> nat" where
  "failed_since rs = length (takeWhile (\<lambda>r. snd (snd r)) (rev rs))"

lemma failed_since_snoc: "failed_since (rs @ [r]) = (if snd (snd r) then Suc (failed_since rs) else 0)"
  by (simp add: failed_since_def)

definition host_reads :: "int \<Rightarrow> nat \<Rightarrow> host_state \<Rightarrow> bool" where
  "host_reads threshold n st \<longleftrightarrow> hs_failures st = int n \<and> (hs_healthy st \<longleftrightarrow> int n < threshold)"

lemma threshold_positive: "0 < hostUnhealthyThreshold cfg"
  by (simp add: hostUnhealthyThreshold_def Let_def)

lemma recordProbe_host:
  assumes "mget (sc_hosts s) name = Some st" "host_reads (hostUnhealthyThreshold (sc_set s)) n st"
  shows "\<exists>st'. mget (sc_hosts (snd (recordProbe now name info failed s))) name = Some st'
      \<and> host_reads (hostUnhealthyThreshold (sc_set s)) (if failed then Suc n else 0) st'
      \<and> fst (recordProbe now name info failed s) = (failed \<and> int (Suc n) = hostUnhealthyThreshold (sc_set s))"
proof -
  have t: "0 < hostUnhealthyThreshold (sc_set s)" by (rule threshold_positive)
  show ?thesis
    using assms t by (cases failed; cases info; cases "hs_healthy st")
      (auto simp: recordProbe_def record_host_def host_reads_def infoAlreadyLogged_def unthrottle_def throttled_def Let_def
        split: option.splits if_splits)
qed

lemma probe_sc_set_again: "sc_set (probe_again name r s) = sc_set s"
  unfolding probe_again_def by (metis probe_sc_set prod.exhaust_sel)

lemma probes_sc_set: "sc_set (fold (probe_again name) rs s) = sc_set s"
  by (induction rs arbitrary: s) (simp_all add: probe_sc_set_again)

lemma probes_reads:
  "mget (sc_hosts s) name = Some fresh_host \<Longrightarrow> \<exists>st. mget (sc_hosts (fold (probe_again name) rs s)) name = Some st
     \<and> host_reads (hostUnhealthyThreshold (sc_set s)) (failed_since rs) st"
proof (induction rs rule: rev_induct)
  case Nil
  then show ?case using threshold_positive by (simp add: host_reads_def fresh_host_def failed_since_def)
next
  case (snoc r rs)
  then obtain st where st: "mget (sc_hosts (fold (probe_again name) rs s)) name = Some st"
    and n: "host_reads (hostUnhealthyThreshold (sc_set s)) (failed_since rs) st" by blast
  show ?case
    using recordProbe_host [OF st, of "failed_since rs" "fst r" "fst (snd r)" "snd (snd r)"] n
    by (auto simp: probe_again_def [of name r "fold (probe_again name) rs s"] probes_sc_set failed_since_snoc)
qed

text \<open>
  C14. After any sequence of probes a Host counts as healthy exactly while fewer probes than
  the threshold have failed since the last success, and its Jobs are aborted by exactly the
  probe whose failure reaches the threshold: once for each outage, never by a success and
  never again while the outage lasts.
\<close>

theorem host_health_reads_history:
  assumes "mget (sc_hosts s) name = Some fresh_host"
  shows "(\<exists>st. mget (sc_hosts (fold (probe_again name) rs s)) name = Some st
        \<and> hs_failures st = int (failed_since rs)
        \<and> (hs_healthy st \<longleftrightarrow> int (failed_since rs) < hostUnhealthyThreshold (sc_set s)))
    \<and> fst (recordProbe now name info failed (fold (probe_again name) rs s))
        = (failed \<and> int (failed_since rs) + 1 = hostUnhealthyThreshold (sc_set s))"
  using probes_reads [OF assms, of rs] recordProbe_host [of "fold (probe_again name) rs s" name]
  by (fastforce simp: probes_sc_set host_reads_def)

definition one_host :: sched where
  "one_host = (new_sched small_settings)\<lparr>sc_hosts := [(''h1'', fresh_host)]\<rparr>"

lemma host_health_reads_history_witness:
  "fst (recordProbe 9 ''h1'' None True (fold (probe_again ''h1'') [(1, None, True), (2, None, False), (3, None, True), (4, None, True)] one_host))
   \<and> \<not> fst (recordProbe 9 ''h1'' None True (fold (probe_again ''h1'') [(1, None, True), (2, None, True), (3, None, True)] one_host))"
  using host_health_reads_history [of one_host "''h1''" "[(1, None, True), (2, None, False), (3, None, True), (4, None, True)]" 9 None True]
    host_health_reads_history [of one_host "''h1''" "[(1, None, True), (2, None, True), (3, None, True)]" 9 None True]
  by (simp add: one_host_def failed_since_def hostUnhealthyThreshold_def small_settings_def new_sched_def resetHostsLocked_def)

subsection \<open>The Exec Agent\<close>

text \<open>A round in which the Allocation is held throughout and nothing stops the loop.\<close>

definition probed :: "bool \<Rightarrow> agent_round" where
  "probed failed = \<lparr>ar_stop = False, ar_held = True, ar_failed = failed, ar_ended = False\<rparr>"

lemma agent_counts_up:
  "0 \<le> n \<Longrightarrow> n < threshold \<Longrightarrow> agentProbeLoop threshold n (replicate (nat (threshold - n)) (probed True) @ rs)
     = (Some threshold, nat (threshold - n))"
proof (induction "nat (threshold - n)" arbitrary: n)
  case (Suc k)
  then have k: "nat (threshold - n) = Suc k" "k = nat (threshold - (n + 1))" by simp_all
  show ?case
  proof (cases "n + 1 < threshold")
    case True
    with Suc.hyps(1) [OF k(2)] Suc.prems k show ?thesis by (simp add: probed_def)
  next
    case False
    with Suc.prems k show ?thesis by (simp add: probed_def)
  qed
qed simp

lemma agent_prefix:
  "0 \<le> n \<Longrightarrow> n < threshold \<Longrightarrow> \<exists>m k. 0 \<le> m \<and> m < threshold \<and> k \<le> length fs
     \<and> (agentProbeLoop threshold n (map probed fs @ rs) = (Some threshold, k)
        \<or> agentProbeLoop threshold n (map probed fs @ rs)
            = (fst (agentProbeLoop threshold m rs), length fs + snd (agentProbeLoop threshold m rs)))"
proof (induction fs arbitrary: n)
  case Nil
  then show ?case by (auto intro: exI [of _ n])
next
  case (Cons f fs)
  show ?case
  proof (cases "f \<and> n + 1 \<ge> threshold")
    case True
    with Cons.prems show ?thesis
      by (intro exI [of _ 0] exI [of _ "Suc 0"]) (auto simp: probed_def)
  next
    case False
    define n' where "n' = (if f then n + 1 else 0)"
    have n': "0 \<le> n'" "n' < threshold" using Cons.prems False by (auto simp: n'_def)
    have st: "agentProbeLoop threshold n (map probed (f # fs) @ rs)
        = (fst (agentProbeLoop threshold n' (map probed fs @ rs)), Suc (snd (agentProbeLoop threshold n' (map probed fs @ rs))))"
      using False by (auto simp: probed_def n'_def split_beta)
    from Cons.IH [OF n'] obtain m k where mk: "0 \<le> m" "m < threshold" "k \<le> length fs"
      and alt: "agentProbeLoop threshold n' (map probed fs @ rs) = (Some threshold, k)
        \<or> agentProbeLoop threshold n' (map probed fs @ rs)
            = (fst (agentProbeLoop threshold m rs), length fs + snd (agentProbeLoop threshold m rs))" by blast
    show ?thesis
      by (rule exI [of _ m], rule exI [of _ "Suc k"]) (use mk alt st in auto)
  qed
qed



end
