(* ===== verification/Go_Text.thy ===== *)
theory Go_Text
  imports Prelude "HOL-Library.Char_ord" "HOL-Library.Sublist"
begin

text \<open>
  What the sources use of Go's \<open>strings\<close>, \<open>strconv\<close> and \<open>net\<close> packages: trimming, cutting
  and searching of strings, decimal numbers, and \<open>host:port\<close> addresses. Strings are ASCII,
  so that a character is a byte and Go's byte indices are positions of the list.
\<close>

section \<open>Trimming and searching\<close>

definition is_space :: "char \<Rightarrow> bool" where
  "is_space c \<longleftrightarrow> c \<in> {CHR '' '', CHR 0x09, CHR 0x0A, CHR 0x0B, CHR 0x0C, CHR 0x0D}"

definition TrimSpace :: "string \<Rightarrow> string" where
  "TrimSpace s = rev (dropWhile is_space (rev (dropWhile is_space s)))"

definition HasPrefix :: "string \<Rightarrow> string \<Rightarrow> bool" where
  "HasPrefix s p \<longleftrightarrow> take (length p) s = p"

fun Contains :: "string \<Rightarrow> string \<Rightarrow> bool" where
  "Contains [] p = (p = [])"
| "Contains (c # cs) p = (HasPrefix (c # cs) p \<or> Contains cs p)"

definition ContainsAny :: "string \<Rightarrow> string \<Rightarrow> bool" where
  "ContainsAny s chars \<longleftrightarrow> list_ex (\<lambda>c. c \<in> set chars) s"

definition to_lower :: "char \<Rightarrow> char" where
  "to_lower c = (if CHR ''A'' \<le> c \<and> c \<le> CHR ''Z'' then char_of (of_char c + 32 :: nat) else c)"

definition ToLower :: "string \<Rightarrow> string" where
  "ToLower s = map to_lower s"

text \<open>Cutting at the last occurrence of a character, when there is one.\<close>

fun cut_last :: "char \<Rightarrow> string \<Rightarrow> (string \<times> string) option" where
  "cut_last c [] = None"
| "cut_last c (d # ds) = (case cut_last c ds of
     Some (a, b) \<Rightarrow> Some (d # a, b)
   | None \<Rightarrow> if d = c then Some ([], ds) else None)"

text \<open>\<open>strings.Cut\<close>, at the first occurrence.\<close>

fun cut_first :: "char \<Rightarrow> string \<Rightarrow> (string \<times> string) option" where
  "cut_first c [] = None"
| "cut_first c (d # ds) = (if d = c then Some ([], ds)
     else case cut_first c ds of Some (a, b) \<Rightarrow> Some (d # a, b) | None \<Rightarrow> None)"

lemma cut_last_Some: "cut_last c s = Some (a, b) \<Longrightarrow> s = a @ c # b \<and> c \<notin> set b"
proof (induction s arbitrary: a)
  case (Cons d ds)
  have none: "c \<notin> set xs" if "cut_last c xs = None" for xs
    using that by (induction xs) (auto split: option.splits if_splits)
  show ?case
  proof (cases "cut_last c ds")
    case None
    with Cons.prems none [OF None] show ?thesis by (auto split: if_splits)
  next
    case (Some ab)
    with Cons show ?thesis by (cases ab) auto
  qed
qed simp

lemma cut_last_None: "cut_last c s = None \<longleftrightarrow> c \<notin> set s"
  by (induction s) (auto split: option.splits)

lemma cut_last_append: "c \<notin> set b \<Longrightarrow> cut_last c (a @ c # b) = Some (a, b)"
proof (induction a)
  case Nil
  then have "cut_last c b = None" by (simp add: cut_last_None)
  then show ?case by simp
qed simp

lemma cut_first_Some: "cut_first c s = Some (a, b) \<Longrightarrow> s = a @ c # b \<and> c \<notin> set a"
  by (induction s arbitrary: a) (auto split: option.splits if_splits)

lemma cut_first_None: "cut_first c s = None \<longleftrightarrow> c \<notin> set s"
  by (induction s) (auto split: option.splits)

lemma cut_first_append: "c \<notin> set a \<Longrightarrow> cut_first c (a @ c # b) = Some (a, b)"
  by (induction a) auto

lemma TrimSpace_id: "s \<noteq> [] \<Longrightarrow> \<not> is_space (hd s) \<Longrightarrow> \<not> is_space (last s) \<Longrightarrow> TrimSpace s = s"
proof -
  assume "s \<noteq> []" "\<not> is_space (hd s)" "\<not> is_space (last s)"
  moreover have "dropWhile is_space s = s" using calculation by (cases s) auto
  moreover have "dropWhile is_space (rev s) = rev s" using calculation by (cases s rule: rev_cases) auto
  ultimately show ?thesis by (simp add: TrimSpace_def)
qed

lemma TrimSpace_no_space: "list_all (\<lambda>c. \<not> is_space c) s \<Longrightarrow> TrimSpace s = s"
proof (cases "s = []")
  case False
  assume "list_all (\<lambda>c. \<not> is_space c) s"
  with False TrimSpace_id show ?thesis by (auto simp: list_all_iff)
qed (simp add: TrimSpace_def)

lemma TrimSpace_empty: "TrimSpace s = [] \<longleftrightarrow> list_all is_space s"
proof
  assume "TrimSpace s = []"
  then have "list_all is_space (dropWhile is_space s)" by (simp add: TrimSpace_def list_all_iff)
  then show "list_all is_space s"
    by (metis dropWhile_eq_Nil_conv list_all_iff hd_dropWhile hd_in_set)
next
  assume "list_all is_space s"
  then have "dropWhile is_space s = []" by (simp add: list_all_iff)
  then show "TrimSpace s = []" by (simp add: TrimSpace_def del: dropWhile_eq_Nil_conv)
qed

section \<open>Decimal numbers\<close>

definition is_digit :: "char \<Rightarrow> bool" where
  "is_digit c \<longleftrightarrow> CHR ''0'' \<le> c \<and> c \<le> CHR ''9''"

definition digit_char :: "nat \<Rightarrow> char" where
  "digit_char d = char_of (48 + d)"

definition digit_val :: "char \<Rightarrow> nat" where
  "digit_val c = of_char c - 48"

fun format_nat :: "nat \<Rightarrow> string" where
  "format_nat n = (if n < 10 then [digit_char n] else format_nat (n div 10) @ [digit_char (n mod 10)])"

declare format_nat.simps [simp del]

definition Itoa :: "int \<Rightarrow> string" where
  "Itoa n = (if n < 0 then CHR ''-'' # format_nat (nat (- n)) else format_nat (nat n))"

definition nat_of_digits :: "string \<Rightarrow> nat" where
  "nat_of_digits s = foldl (\<lambda>n c. 10 * n + digit_val c) 0 s"

text \<open>\<open>strconv.Atoi\<close>: an optional sign and digits, within \<open>int\<close>.\<close>

definition Atoi :: "string \<Rightarrow> int option" where
  "Atoi s = (let (neg, ds) = (case s of
       [] \<Rightarrow> (False, [])
     | c # cs \<Rightarrow> if c = CHR ''-'' then (True, cs) else if c = CHR ''+'' then (False, cs) else (False, c # cs))
     in if ds = [] \<or> \<not> list_all is_digit ds then None
        else let n = (if neg then - int (nat_of_digits ds) else int (nat_of_digits ds))
             in if - (2 ^ 63) \<le> n \<and> n < 2 ^ 63 then Some n else None)"

lemma of_char_digit [simp]: "d < 10 \<Longrightarrow> of_char (digit_char d) = 48 + d"
  by (simp add: digit_char_def)

lemma is_digit_digit_char [simp]: "d < 10 \<Longrightarrow> is_digit (digit_char d)"
  by (simp add: is_digit_def less_eq_char_def digit_char_def)

lemma digit_val_digit_char [simp]: "d < 10 \<Longrightarrow> digit_val (digit_char d) = d"
  by (simp add: digit_val_def)

lemma format_nat_digits: "list_all is_digit (format_nat n) \<and> format_nat n \<noteq> []"
  by (induction n rule: format_nat.induct) (subst format_nat.simps, auto)+

lemma nat_of_digits_snoc: "nat_of_digits (s @ [c]) = 10 * nat_of_digits s + digit_val c"
  by (simp add: nat_of_digits_def)

lemma nat_of_digits_format: "nat_of_digits (format_nat n) = n"
proof (induction n rule: format_nat.induct)
  case (1 n)
  show ?case
  proof (cases "n < 10")
    case True
    then show ?thesis by (subst format_nat.simps) (simp add: nat_of_digits_def)
  next
    case False
    with 1 show ?thesis by (subst format_nat.simps) (simp add: nat_of_digits_snoc)
  qed
qed

lemma digit_not_space: "is_digit c \<Longrightarrow> \<not> is_space c"
  by (auto simp: is_digit_def is_space_def less_eq_char_def)

lemma digit_not_sign: "is_digit c \<Longrightarrow> c \<noteq> CHR ''-'' \<and> c \<noteq> CHR ''+'' \<and> c \<noteq> CHR ''.''"
  by (auto simp: is_digit_def less_eq_char_def)

lemma format_nat_inj: "format_nat m = format_nat n \<longleftrightarrow> m = n"
  by (metis nat_of_digits_format)

text \<open>The number read is the number printed, over the whole range of \<open>int\<close>.\<close>

lemma Atoi_Itoa: "- (2 ^ 63) \<le> n \<Longrightarrow> n < 2 ^ 63 \<Longrightarrow> Atoi (Itoa n) = Some n"
proof (cases "n < 0")
  case True
  assume "- (2 ^ 63) \<le> n" "n < 2 ^ 63"
  with True show ?thesis
    using format_nat_digits [of "nat (- n)"] by (simp add: Atoi_def Itoa_def nat_of_digits_format)
next
  case False
  assume n: "- (2 ^ 63) \<le> n" "n < 2 ^ 63"
  obtain c cs where c: "format_nat (nat n) = c # cs" using format_nat_digits [of "nat n"] by (cases "format_nat (nat n)") auto
  then have "c \<noteq> CHR ''-'' \<and> c \<noteq> CHR ''+''" using format_nat_digits [of "nat n"] digit_not_sign by simp
  with False n c show ?thesis
    using format_nat_digits [of "nat n"] nat_of_digits_format [of "nat n"] by (simp add: Atoi_def Itoa_def)
qed

section \<open>Addresses\<close>

text \<open>
  \<open>net.SplitHostPort\<close>: the port follows the last colon; a host in brackets may hold
  colons; nothing else may hold a colon or a bracket. \<open>None\<close> is any of its errors.
\<close>

definition SplitHostPort :: "string \<Rightarrow> (string \<times> string) option" where
  "SplitHostPort hp = (case cut_last (CHR '':'') hp of
     None \<Rightarrow> None
   | Some (before, port) \<Rightarrow>
       if hp \<noteq> [] \<and> hd hp = CHR ''['' then
         (case cut_first (CHR '']'') hp of
            None \<Rightarrow> None
          | Some (l, r) \<Rightarrow>
              if r = CHR '':'' # port \<and> CHR ''['' \<notin> set (tl l) \<and> CHR ''['' \<notin> set r \<and> CHR '']'' \<notin> set r
              then Some (tl l, port) else None)
       else if CHR '':'' \<in> set before \<or> CHR ''['' \<in> set hp \<or> CHR '']'' \<in> set hp then None
       else Some (before, port))"

definition JoinHostPort :: "string \<Rightarrow> string \<Rightarrow> string" where
  "JoinHostPort host port =
     (if CHR '':'' \<in> set host then CHR ''['' # host @ CHR '']'' # CHR '':'' # port
      else host @ CHR '':'' # port)"

lemma SplitHostPort_Join:
  assumes "CHR '':'' \<notin> set port" "CHR ''['' \<notin> set (host @ port)" "CHR '']'' \<notin> set (host @ port)"
  shows "SplitHostPort (JoinHostPort host port) = Some (host, port)"
proof (cases "CHR '':'' \<in> set host")
  case True
  have "cut_last (CHR '':'') (CHR ''['' # host @ CHR '']'' # CHR '':'' # port) = Some (CHR ''['' # host @ [CHR '']''], port)"
    using cut_last_append [of "CHR '':''" port "CHR ''['' # host @ [CHR '']'']"] assms by simp
  moreover have "cut_first (CHR '']'') (CHR ''['' # host @ CHR '']'' # CHR '':'' # port) = Some (CHR ''['' # host, CHR '':'' # port)"
    using cut_first_append [of "CHR '']''" "CHR ''['' # host" "CHR '':'' # port"] assms by simp
  ultimately show ?thesis using True assms by (simp add: JoinHostPort_def SplitHostPort_def)
next
  case False
  have "cut_last (CHR '':'') (host @ CHR '':'' # port) = Some (host, port)" using cut_last_append assms by simp
  moreover have "hd (host @ CHR '':'' # port) \<noteq> CHR ''[''" using assms by (cases host) auto
  ultimately show ?thesis using False assms by (simp add: JoinHostPort_def SplitHostPort_def)
qed

end
