(* ===== verification/Config_Text.thy ===== *)
theory Config_Text
  imports Go_Text Config_Types
begin

text \<open>
  The textual values of the configuration file: byte sizes (\<open>internal/config/bytesize.go\<close>)
  and image references (\<open>internal/config/image.go\<close>). A size goes through a float64 on its
  way in, so the rounding of IEEE 754 is written out; what comes back is what was printed
  as long as the number printed has at most 53 significant bits.
\<close>

section \<open>Non-negative float64 values\<close>

text \<open>
  A finite value is a mantissa and a power of two. \<open>float_of p q\<close> is the value nearest to
  \<open>p / q\<close>, ties to the even mantissa, with 53 bits of mantissa and never a smaller step than
  \<open>2 ^ (- 1074)\<close>; \<open>None\<close> is the overflow, which \<open>ParseFloat\<close> reports as an error.
\<close>

fun bitlen :: "nat \<Rightarrow> nat" where
  "bitlen n = (if n = 0 then 0 else Suc (bitlen (n div 2)))"

declare bitlen.simps [simp del]

definition round_even :: "nat \<Rightarrow> nat \<Rightarrow> nat" where
  "round_even a b = (let d = a div b; r = a mod b
     in if 2 * r < b then d else if b < 2 * r then Suc d else if even d then d else Suc d)"

text \<open>\<open>p \<ge> q * 2 ^ e\<close>, for an exponent of either sign.\<close>

definition at_least :: "nat \<Rightarrow> nat \<Rightarrow> int \<Rightarrow> bool" where
  "at_least p q e = (if e \<ge> 0 then q * 2 ^ nat e \<le> p else q \<le> p * 2 ^ nat (- e))"

definition exponent_of :: "nat \<Rightarrow> nat \<Rightarrow> int" where
  "exponent_of p q = (let e = int (bitlen p) - int (bitlen q) in if at_least p q e then e else e - 1)"

type_synonym float64 = "nat \<times> int"

definition float_of :: "nat \<Rightarrow> nat \<Rightarrow> float64 option" where
  "float_of p q =
     (if p = 0 then Some (0, 0)
      else let s = max (exponent_of p q - 52) (- 1074);
               m = (if s \<ge> 0 then round_even p (q * 2 ^ nat s) else round_even (p * 2 ^ nat (- s)) q)
           in if s > 971 \<or> s = 971 \<and> m \<ge> 2 ^ 53 then None else Some (m, s))"

definition float_times :: "float64 \<Rightarrow> nat \<Rightarrow> float64 option" where
  "float_times f n = (case f of (m, s) \<Rightarrow>
     if s \<ge> 0 then float_of (m * n * 2 ^ nat s) 1 else float_of (m * n) (2 ^ nat (- s)))"

definition float_trunc :: "float64 \<Rightarrow> nat" where
  "float_trunc f = (case f of (m, s) \<Rightarrow> if s \<ge> 0 then m * 2 ^ nat s else m div 2 ^ nat (- s))"

text \<open>\<open>strconv.ParseFloat\<close> of a text of digits and dots.\<close>

definition parse_decimal :: "string \<Rightarrow> float64 option" where
  "parse_decimal s =
     (let a = takeWhile (\<lambda>c. c \<noteq> CHR ''.'') s; b = tl (dropWhile (\<lambda>c. c \<noteq> CHR ''.'') s)
      in if CHR ''.'' \<in> set b \<or> a @ b = [] then None
         else float_of (nat_of_digits (a @ b)) (10 ^ length b))"

section \<open>Byte sizes\<close>

definition byteUnits :: "(string, nat) gomap" where
  "byteUnits = [('''', 1), (''b'', 1), (''kb'', 1000), (''mb'', 1000 ^ 2), (''gb'', 1000 ^ 3), (''tb'', 1000 ^ 4),
     (''kib'', 2 ^ 10), (''mib'', 2 ^ 20), (''gib'', 2 ^ 30), (''tib'', 2 ^ 40)]"

datatype size_error = EmptySize | UnknownUnit string string | BadSize string

text \<open>
  The language leaves the conversion of a float64 beyond int64 to the machine, so it is the
  argument \<open>far\<close>.
\<close>

definition ParseByteSize :: "(float64 \<Rightarrow> int) \<Rightarrow> string \<Rightarrow> size_error + int" where
  "ParseByteSize far s =
     (let trimmed = TrimSpace s;
          num = takeWhile (\<lambda>c. is_digit c \<or> c = CHR ''.'') trimmed;
          unit = ToLower (TrimSpace (dropWhile (\<lambda>c. is_digit c \<or> c = CHR ''.'') trimmed))
      in if trimmed = [] then Inl EmptySize
         else case mget byteUnits unit of
           None \<Rightarrow> Inl (UnknownUnit unit s)
         | Some mult \<Rightarrow> (case parse_decimal num of
             None \<Rightarrow> Inl (BadSize s)
           | Some f \<Rightarrow> (case float_times f mult of
               None \<Rightarrow> Inr (far f)
             | Some g \<Rightarrow> if float_trunc g < 2 ^ 63 then Inr (int (float_trunc g)) else Inr (far g))))"

fun size_text :: "(string \<times> int) list \<Rightarrow> int \<Rightarrow> string" where
  "size_text [] b = Itoa b"
| "size_text ((name, u) # us) b =
     (if b \<noteq> 0 \<and> b mod u = 0 then Itoa (b div u) @ name else size_text us b)"

definition ByteSize_String :: "int \<Rightarrow> string" where
  "ByteSize_String b = size_text [(''TiB'', 2 ^ 40), (''GiB'', 2 ^ 30), (''MiB'', 2 ^ 20), (''KiB'', 2 ^ 10)] b"

subsection \<open>Exact values\<close>

lemma bitlen_bounds: "0 < n \<Longrightarrow> 2 ^ (bitlen n - 1) \<le> n \<and> n < 2 ^ bitlen n \<and> 0 < bitlen n"
proof (induction n rule: bitlen.induct)
  case (1 n)
  show ?case
  proof (cases "n div 2 = 0")
    case True
    with 1(2) have "n = 1" by simp
    then show ?thesis by (simp add: bitlen.simps)
  next
    case False
    with 1 have ih: "2 ^ (bitlen (n div 2) - 1) \<le> n div 2" "n div 2 < 2 ^ bitlen (n div 2)" "0 < bitlen (n div 2)" by simp_all
    have b: "bitlen n = Suc (bitlen (n div 2))" using 1(2) by (subst bitlen.simps) simp
    obtain k where k: "bitlen (n div 2) = Suc k" using ih(3) gr0_implies_Suc by blast
    show ?thesis using ih unfolding b k by auto
  qed
qed

lemma bitlen_eqI: "2 ^ k \<le> n \<Longrightarrow> n < 2 ^ Suc k \<Longrightarrow> bitlen n = Suc k"
proof -
  assume n: "2 ^ k \<le> n" "n < 2 ^ Suc k"
  have "(0::nat) < 2 ^ k" by simp
  from this n(1) have pos: "0 < n" by (rule less_le_trans)
  from bitlen_bounds [OF pos] obtain j where j: "bitlen n = Suc j" "2 ^ j \<le> n" "n < 2 ^ Suc j"
    by (cases "bitlen n") auto
  have "2 ^ j < (2::nat) ^ Suc k" "2 ^ k < (2::nat) ^ Suc j" using j n le_less_trans by blast+
  then have "j < Suc k" "k < Suc j" by (metis power_less_imp_less_exp one_less_numeral_iff semiring_norm(76))+
  then show ?thesis using j(1) by simp
qed

lemma bitlen_power: "bitlen (2 ^ k) = Suc k"
  by (rule bitlen_eqI) simp_all

lemma round_even_exact: "0 < b \<Longrightarrow> round_even (a * b) b = a"
  by (simp add: round_even_def)

text \<open>A number of at most 53 bits times a power of two is its own nearest float64.\<close>

lemma exponent_of_power: "0 < k \<Longrightarrow> exponent_of (k * 2 ^ t) (2 ^ t) = int (bitlen k) - 1"
proof -
  assume k: "0 < k"
  from bitlen_bounds [OF k] obtain j where j: "bitlen k = Suc j" "2 ^ j \<le> k" "k < 2 ^ Suc j" by (cases "bitlen k") auto
  have "2 ^ (j + t) \<le> k * 2 ^ t" "k * 2 ^ t < 2 ^ Suc (j + t)" using j(2,3) by (simp_all add: power_add)
  then have b: "bitlen (k * 2 ^ t) = Suc (j + t)" by (rule bitlen_eqI)
  have "at_least (k * 2 ^ t) (2 ^ t) (int j)" using j(2) by (simp add: at_least_def)
  then show ?thesis by (simp add: exponent_of_def b bitlen_power j(1))
qed

text \<open>The value of a float64 that is a whole number.\<close>

definition stands_for :: "float64 \<Rightarrow> nat \<Rightarrow> bool" where
  "stands_for f n = (case f of (m, s) \<Rightarrow> if s \<ge> 0 then m * 2 ^ nat s = n else m = n * 2 ^ nat (- s))"

lemma float_trunc_stands: "stands_for f n \<Longrightarrow> float_trunc f = n"
  by (cases f) (auto simp: stands_for_def float_trunc_def split: if_splits)

lemma float_of_exact:
  assumes "k < 2 ^ 53" "u \<le> 40"
  shows "\<exists>f. float_of (k * 2 ^ u * 2 ^ t) (2 ^ t) = Some f \<and> stands_for f (k * 2 ^ u)"
proof (cases "k = 0")
  case True
  then show ?thesis by (simp add: float_of_def stands_for_def)
next
  case False
  then have pos: "0 < k" by simp
  from bitlen_bounds [OF pos] obtain j where j: "bitlen k = Suc j" "2 ^ j \<le> k" "k < 2 ^ Suc j" by (cases "bitlen k") auto
  have "2 ^ j < (2::nat) ^ 53" using j(2) assms(1) le_less_trans by blast
  then have j53: "j < 53" by (metis power_less_imp_less_exp one_less_numeral_iff semiring_norm(76))
  have bu: "bitlen (k * 2 ^ u) = Suc (j + u)"
    using j(2,3) by (intro bitlen_eqI) (simp_all add: power_add)
  have e: "exponent_of (k * 2 ^ u * 2 ^ t) (2 ^ t) = int (j + u)"
    using exponent_of_power [of "k * 2 ^ u" t] pos bu by simp
  have s: "max (int (j + u) - 52) (- 1074) = int (j + u) - 52" by simp
  show ?thesis
  proof (cases "j + u < 52")
    case True
    define d where "d = 52 - (j + u)"
    have d: "int (j + u) - 52 = - int d" "0 < d" using True by (simp_all add: d_def)
    have "round_even (k * 2 ^ u * 2 ^ t * 2 ^ d) (2 ^ t) = k * 2 ^ u * 2 ^ d"
      using round_even_exact [of "2 ^ t" "k * 2 ^ u * 2 ^ d"] by (simp add: ac_simps)
    then show ?thesis
      using True pos d by (simp add: float_of_def e s Let_def stands_for_def)
  next
    case False
    define d where "d = j + u - 52"
    have d: "int (j + u) - 52 = int d" and du: "d \<le> u" "d \<le> 40" using False j53 assms(2) by (simp_all add: d_def)
    have pw: "(2::nat) ^ u = 2 ^ (u - d) * 2 ^ d" using du(1) by (simp flip: power_add)
    have "k * 2 ^ u * 2 ^ t = (k * 2 ^ (u - d)) * (2 ^ t * 2 ^ d)" unfolding pw by (simp add: ac_simps)
    then have "round_even (k * 2 ^ u * 2 ^ t) (2 ^ t * 2 ^ d) = k * 2 ^ (u - d)"
      using round_even_exact [of "2 ^ t * 2 ^ d" "k * 2 ^ (u - d)"] by (simp only: zero_less_mult_iff) simp
    then have "float_of (k * 2 ^ u * 2 ^ t) (2 ^ t) = Some (k * 2 ^ (u - d), int d)"
      using pos d du by (simp add: float_of_def e s Let_def)
    moreover have "stands_for (k * 2 ^ (u - d), int d) (k * 2 ^ u)" using pw by (simp add: stands_for_def)
    ultimately show ?thesis by blast
  qed
qed

lemma float_times_exact:
  assumes "k < 2 ^ 53" "u \<le> 40" "stands_for f k"
  shows "\<exists>g. float_times f (2 ^ u) = Some g \<and> stands_for g (k * 2 ^ u)"
proof -
  obtain m s where f: "f = (m, s)" by (cases f)
  show ?thesis
  proof (cases "s \<ge> 0")
    case True
    then have "m * 2 ^ u * 2 ^ nat s = k * 2 ^ u" using assms(3) by (auto simp: f stands_for_def)
    then have "float_times f (2 ^ u) = float_of (k * 2 ^ u) 1" using True by (simp only: f float_times_def prod.case if_True)
    then show ?thesis using float_of_exact [OF assms(1,2), of 0] by simp
  next
    case False
    then have "m * 2 ^ u = k * 2 ^ u * 2 ^ nat (- s)" using assms(3) by (auto simp: f stands_for_def)
    then have "float_times f (2 ^ u) = float_of (k * 2 ^ u * 2 ^ nat (- s)) (2 ^ nat (- s))"
      using False by (simp only: f float_times_def prod.case if_False)
    then show ?thesis using float_of_exact [OF assms(1,2), of "nat (- s)"] by simp
  qed
qed

subsection \<open>Printing and parsing\<close>

lemma parse_decimal_digits:
  assumes "list_all is_digit ds" "ds \<noteq> []"
  shows "parse_decimal ds = float_of (nat_of_digits ds) 1"
proof -
  have no_dot: "\<forall>c\<in>set ds. c \<noteq> CHR ''.''" using assms(1) digit_not_sign by (auto simp: list_all_iff)
  then have "takeWhile (\<lambda>c. c \<noteq> CHR ''.'') ds = ds" "dropWhile (\<lambda>c. c \<noteq> CHR ''.'') ds = []"
    by simp_all
  then show ?thesis using assms(2) by (simp add: parse_decimal_def Let_def del: takeWhile_eq_all_conv dropWhile_eq_Nil_conv)
qed

text \<open>A number of digits followed by a unit that starts with a letter is read as the two.\<close>

lemma ParseByteSize_unit:
  assumes "k < 2 ^ 53" "u \<le> 40" "k * 2 ^ u < 2 ^ 63"
    and unit: "list_all (\<lambda>c. \<not> is_space c) name" "list_all (\<lambda>c. \<not> is_digit c \<and> c \<noteq> CHR ''.'') name"
    and mult: "mget byteUnits (ToLower name) = Some (2 ^ u)"
  shows "ParseByteSize far (format_nat k @ name) = Inr (int (k * 2 ^ u))"
proof -
  let ?ds = "format_nat k" and ?num = "\<lambda>c. is_digit c \<or> c = CHR ''.''"
  have ds: "list_all is_digit ?ds" "?ds \<noteq> []" using format_nat_digits by simp_all
  have "list_all (\<lambda>c. \<not> is_space c) (?ds @ name)" using ds(1) unit(1) digit_not_space by (auto simp: list_all_iff)
  then have trim: "TrimSpace (?ds @ name) = ?ds @ name" "TrimSpace name = name"
    using unit(1) TrimSpace_no_space by blast+
  have "takeWhile ?num (?ds @ name) = ?ds @ takeWhile ?num name" "dropWhile ?num (?ds @ name) = dropWhile ?num name"
    using ds(1) by (auto simp: list_all_iff takeWhile_append2 dropWhile_append2)
  moreover have "takeWhile ?num name = []" "dropWhile ?num name = name"
    using unit(2) by (cases name, simp_all)+
  ultimately have split: "takeWhile ?num (?ds @ name) = ?ds" "dropWhile ?num (?ds @ name) = name" by simp_all
  obtain f where f: "parse_decimal ?ds = Some f" "stands_for f k"
    using float_of_exact [OF assms(1), of 0 0] by (auto simp: parse_decimal_digits [OF ds] nat_of_digits_format)
  obtain g where g: "float_times f (2 ^ u) = Some g" "float_trunc g = k * 2 ^ u"
    using float_times_exact [OF assms(1,2) f(2)] float_trunc_stands by blast
  show ?thesis using ds(2) assms(3) by (simp add: ParseByteSize_def Let_def trim split mult f(1) g)
qed

lemma ToLower_units: "mget byteUnits (ToLower ''TiB'') = Some (2 ^ 40)" "mget byteUnits (ToLower ''GiB'') = Some (2 ^ 30)"
  "mget byteUnits (ToLower ''MiB'') = Some (2 ^ 20)" "mget byteUnits (ToLower ''KiB'') = Some (2 ^ 10)" "mget byteUnits (ToLower []) = Some (2 ^ 0)"
  by (simp_all add: byteUnits_def ToLower_def to_lower_def less_eq_char_def char_of_def bit_0)

lemma ParseByteSize_scaled:
  assumes "0 \<le> b" "b < 2 ^ 63" "b mod 2 ^ u = 0" "b div 2 ^ u < 2 ^ 53" "u \<le> 40"
    and "list_all (\<lambda>c. \<not> is_space c) name" "list_all (\<lambda>c. \<not> is_digit c \<and> c \<noteq> CHR ''.'') name"
    and "mget byteUnits (ToLower name) = Some (2 ^ u)"
  shows "ParseByteSize far (Itoa (b div 2 ^ u) @ name) = Inr b"
proof -
  define k where "k = nat (b div 2 ^ u)"
  have k: "int k = b div 2 ^ u" using assms(1) by (simp add: k_def pos_imp_zdiv_nonneg_iff)
  have b: "int (k * 2 ^ u) = b" using assms(3) k by (simp add: dvd_div_mult_self mod_0_imp_dvd)
  have "int k < 2 ^ 53" using assms(4) k by simp
  then have "k < 2 ^ 53" by simp
  moreover have "int (k * 2 ^ u) < 2 ^ 63" using assms(2) b by simp
  then have "k * 2 ^ u < 2 ^ 63" by (metis of_nat_less_iff of_nat_numeral of_nat_power)
  ultimately have "ParseByteSize far (format_nat k @ name) = Inr b"
    using ParseByteSize_unit [OF _ assms(5) _ assms(6,7,8)] b by simp
  then show ?thesis using k by (simp add: Itoa_def flip: k)
qed

lemma unit_names:
  "list_all (\<lambda>c. \<not> is_space c) n \<and> list_all (\<lambda>c. \<not> is_digit c \<and> c \<noteq> CHR ''.'') n"
  if "n \<in> {[], ''KiB'', ''MiB'', ''GiB'', ''TiB''}"
  using that by (auto simp: is_space_def is_digit_def less_eq_char_def)

lemma div_small: "0 \<le> b \<Longrightarrow> b < 2 ^ 63 \<Longrightarrow> 10 \<le> u \<Longrightarrow> b div 2 ^ u < 2 ^ 53" for b :: int
proof -
  assume b: "0 \<le> b" "b < 2 ^ 63" "10 \<le> u"
  have "b div 2 ^ u \<le> b div 2 ^ 10"
    using b power_increasing [of 10 u "2 :: int"] by (intro zdiv_mono2) auto
  also have "\<dots> < 2 ^ 53" using b by simp
  finally show ?thesis .
qed

text \<open>
  C27. A byte size that is printed by \<open>String\<close> and parsed again is the same size, for every
  size below 2^53 bytes and for every larger one that is a multiple of 1024, although the
  parser computes in float64 and the printer in int64.
\<close>

theorem ByteSize_round_trip:
  assumes "0 \<le> b" "b < 2 ^ 63" "b < 2 ^ 53 \<or> b mod 1024 = 0"
  shows "ParseByteSize far (ByteSize_String b) = Inr b"
proof -
  have scaled: "ParseByteSize far (Itoa (b div 2 ^ u) @ name) = Inr b"
    if "b mod 2 ^ u = 0" "10 \<le> u" "u \<le> 40" "name \<in> {''KiB'', ''MiB'', ''GiB'', ''TiB''}"
      "mget byteUnits (ToLower name) = Some (2 ^ u)" for u name
    using ParseByteSize_scaled [OF assms(1,2) that(1) div_small [OF assms(1,2) that(2)] that(3)] unit_names [of name] that by auto
  have plain: "ParseByteSize far (Itoa b) = Inr b" if "b < 2 ^ 53"
    using ParseByteSize_scaled [OF assms(1,2), of 0 "[]"] that unit_names [of "[]"] ToLower_units(5) by simp
  show ?thesis
  proof (cases "b = 0")
    case True
    then show ?thesis using plain by (simp add: ByteSize_String_def)
  next
    case False
    then show ?thesis
      using scaled [of 40 "''TiB''"] scaled [of 30 "''GiB''"] scaled [of 20 "''MiB''"] scaled [of 10 "''KiB''"] plain assms(3)
        ToLower_units by (auto simp: ByteSize_String_def)
  qed
qed

theorem ByteSize_round_trip_witness:
  "ByteSize_String (200 * 2 ^ 30) = ''200GiB'' \<and> ParseByteSize (\<lambda>_. 0) ''200GiB'' = Inr (200 * 2 ^ 30)"
proof -
  have "ByteSize_String (200 * 2 ^ 30) = ''200GiB''"
    by (simp add: ByteSize_String_def Itoa_def format_nat.simps digit_char_def char_of_def bit_0)
  then show ?thesis using ByteSize_round_trip [of "200 * 2 ^ 30" "\<lambda>_. 0"] by simp
qed

section \<open>Image references\<close>

record image_ref =
  ir_repository :: string
  ir_tag :: string
  ir_digest :: string

definition Pinned :: "image_ref \<Rightarrow> bool" where
  "Pinned r \<longleftrightarrow> ir_digest r \<noteq> [] \<or> ir_tag r \<noteq> []"

datatype image_error = EmptyReference | MalformedDigest string | EmptyTag string | NoRepository string

definition good_digest :: "string \<Rightarrow> bool" where
  "good_digest d = (case cut_first (CHR '':'') d of None \<Rightarrow> False | Some (algo, hex) \<Rightarrow> algo \<noteq> [] \<and> hex \<noteq> [])"

text \<open>The tag, cut at the last colon when no slash follows it.\<close>

definition cut_tag :: "string \<Rightarrow> (string \<times> string) option" where
  "cut_tag repo = (case cut_last (CHR '':'') repo of
     None \<Rightarrow> None
   | Some (a, tag) \<Rightarrow> if CHR ''/'' \<in> set tag then None else Some (a, tag))"

text \<open>The second half of \<open>ParseImageRef\<close>, after the digest has been cut off.\<close>

definition tagged :: "string \<Rightarrow> string \<Rightarrow> string \<Rightarrow> image_error + image_ref" where
  "tagged ref repo0 digest = (case cut_tag repo0 of
     Some (repo, tag) \<Rightarrow>
       if tag = [] then Inl (EmptyTag ref)
       else if repo = [] then Inl (NoRepository ref)
       else Inr \<lparr>ir_repository = repo, ir_tag = tag, ir_digest = digest\<rparr>
   | None \<Rightarrow>
       if repo0 = [] then Inl (NoRepository ref)
       else Inr \<lparr>ir_repository = repo0, ir_tag = [], ir_digest = digest\<rparr>)"

definition ParseImageRef :: "string \<Rightarrow> image_error + image_ref" where
  "ParseImageRef text =
     (let ref = TrimSpace text
      in if ref = [] then Inl EmptyReference
         else let (repo0, digest) = (case cut_last (CHR ''@'') ref of None \<Rightarrow> (ref, []) | Some (a, d) \<Rightarrow> (a, d))
              in if CHR ''@'' \<in> set ref \<and> \<not> good_digest digest then Inl (MalformedDigest ref)
                 else tagged ref repo0 digest)"

text \<open>The text of a reference, and which references have one.\<close>

definition image_text :: "image_ref \<Rightarrow> string" where
  "image_text r = ir_repository r @ (if ir_tag r = [] then [] else CHR '':'' # ir_tag r)
     @ (if ir_digest r = [] then [] else CHR ''@'' # ir_digest r)"

definition good_ref :: "image_ref \<Rightarrow> bool" where
  "good_ref r \<longleftrightarrow> ir_repository r \<noteq> []
     \<and> (if ir_digest r = [] then CHR ''@'' \<notin> set (ir_repository r @ ir_tag r)
        else good_digest (ir_digest r) \<and> CHR ''@'' \<notin> set (ir_digest r))
     \<and> (if ir_tag r = [] then cut_tag (ir_repository r) = None
        else CHR '':'' \<notin> set (ir_tag r) \<and> CHR ''/'' \<notin> set (ir_tag r))"

lemma cut_tag_append: "CHR '':'' \<notin> set tag \<Longrightarrow> CHR ''/'' \<notin> set tag \<Longrightarrow> cut_tag (repo @ CHR '':'' # tag) = Some (repo, tag)"
  by (simp add: cut_tag_def cut_last_append)

lemma cut_tag_Some: "cut_tag repo0 = Some (repo, tag) \<Longrightarrow> repo0 = repo @ CHR '':'' # tag \<and> CHR '':'' \<notin> set tag \<and> CHR ''/'' \<notin> set tag"
  by (auto simp: cut_tag_def split: option.splits if_splits dest!: cut_last_Some)

lemma good_digest_nonempty: "good_digest d \<Longrightarrow> d \<noteq> []"
  by (auto simp: good_digest_def)

text \<open>The repository with its tag, read back.\<close>

definition named_part :: "image_ref \<Rightarrow> string" where
  "named_part r = ir_repository r @ (if ir_tag r = [] then [] else CHR '':'' # ir_tag r)"

lemma tagged_iff:
  "tagged ref repo0 digest = Inr r \<longleftrightarrow> repo0 = named_part r \<and> digest = ir_digest r \<and> ir_repository r \<noteq> []
     \<and> (if ir_tag r = [] then cut_tag (ir_repository r) = None
        else CHR '':'' \<notin> set (ir_tag r) \<and> CHR ''/'' \<notin> set (ir_tag r))" (is "?l = ?r")
proof
  assume ?l
  then show ?r
  proof (cases "cut_tag repo0")
    case (Some rt)
    with \<open>?l\<close> show ?thesis by (cases rt) (auto simp: tagged_def named_part_def split: if_splits dest!: cut_tag_Some)
  qed (auto simp: tagged_def named_part_def split: if_splits)
next
  assume ?r
  then show ?l by (cases "ir_tag r = []") (auto simp: tagged_def named_part_def cut_tag_append)
qed

text \<open>
  C28. \<open>ParseImageRef\<close> accepts a text exactly when, with the space around it trimmed, it is the
  repository, the tag and the digest of a well-formed reference put together, and it then
  returns that reference. So parsing loses nothing, no reference is read in two ways, and a
  registry port is never taken for a tag.
\<close>

theorem ParseImageRef_round_trip:
  "ParseImageRef text = Inr r \<longleftrightarrow> TrimSpace text = image_text r \<and> good_ref r"
proof (cases "CHR ''@'' \<in> set (TrimSpace text)")
  case True
  then obtain a d where ad: "cut_last (CHR ''@'') (TrimSpace text) = Some (a, d)" by (cases "cut_last (CHR ''@'') (TrimSpace text)") (auto simp: cut_last_None)
  have t: "TrimSpace text = a @ CHR ''@'' # d" "CHR ''@'' \<notin> set d" using cut_last_Some [OF ad] by simp_all
  have "ParseImageRef text = (if good_digest d then tagged (TrimSpace text) a d else Inl (MalformedDigest (TrimSpace text)))"
    using t(1) ad by (simp add: ParseImageRef_def Let_def)
  moreover have "TrimSpace text = image_text r \<and> good_ref r \<longleftrightarrow> good_digest d \<and> a = named_part r \<and> d = ir_digest r \<and> good_ref r"
  proof
    assume r: "TrimSpace text = image_text r \<and> good_ref r"
    have ne: "ir_digest r \<noteq> []"
    proof
      assume "ir_digest r = []"
      with r have "CHR ''@'' \<notin> set (TrimSpace text)" by (auto simp: good_ref_def image_text_def)
      with True show False by simp
    qed
    then have "image_text r = named_part r @ CHR ''@'' # ir_digest r" "CHR ''@'' \<notin> set (ir_digest r)"
      using r by (auto simp: image_text_def named_part_def good_ref_def)
    then have "cut_last (CHR ''@'') (TrimSpace text) = Some (named_part r, ir_digest r)" using r by (simp add: cut_last_append)
    with ad r ne show "good_digest d \<and> a = named_part r \<and> d = ir_digest r \<and> good_ref r" by (auto simp: good_ref_def)
  next
    assume "good_digest d \<and> a = named_part r \<and> d = ir_digest r \<and> good_ref r"
    then show "TrimSpace text = image_text r \<and> good_ref r"
      using t good_digest_nonempty [of d] by (auto simp: image_text_def named_part_def)
  qed
  moreover have "good_digest d \<Longrightarrow> d = ir_digest r \<Longrightarrow> good_ref r \<longleftrightarrow> ir_repository r \<noteq> []
     \<and> (if ir_tag r = [] then cut_tag (ir_repository r) = None else CHR '':'' \<notin> set (ir_tag r) \<and> CHR ''/'' \<notin> set (ir_tag r))"
    using t(2) good_digest_nonempty [of d] by (auto simp: good_ref_def)
  ultimately show ?thesis by (auto simp: tagged_iff)
next
  case False
  then have none: "cut_last (CHR ''@'') (TrimSpace text) = None" by (simp add: cut_last_None)
  have "ParseImageRef text = (if TrimSpace text = [] then Inl EmptyReference else tagged (TrimSpace text) (TrimSpace text) [])"
    using False none by (simp add: ParseImageRef_def Let_def)
  moreover have "TrimSpace text = image_text r \<and> good_ref r \<longleftrightarrow> TrimSpace text = named_part r \<and> ir_digest r = [] \<and> ir_repository r \<noteq> []
     \<and> (if ir_tag r = [] then cut_tag (ir_repository r) = None else CHR '':'' \<notin> set (ir_tag r) \<and> CHR ''/'' \<notin> set (ir_tag r))"
    using False by (auto simp: image_text_def named_part_def good_ref_def)
  moreover have "ir_repository r \<noteq> [] \<Longrightarrow> named_part r \<noteq> []" by (simp add: named_part_def)
  ultimately show ?thesis by (auto simp: tagged_iff)
qed

subsection \<open>The images of a Profile\<close>

definition indexed :: "string \<Rightarrow> nat \<Rightarrow> string" where
  "indexed f i = f @ ''['' @ format_nat i @ '']''"

definition profile_images :: "string \<Rightarrow> profile \<Rightarrow> (string \<times> string) list" where
  "profile_images pre p =
     [(pre @ ''.kernel.image'', k_image (pr_kernel p)), (pre @ ''.rootfs'', pr_rootfs p)]
     @ (case pr_initrd p of None \<Rightarrow> [] | Some ird \<Rightarrow> [(pre @ ''.initrd.image'', ird_image ird)])
     @ map (\<lambda>(i, v). (indexed (pre @ ''.additional_volumes'') i @ ''.image'', vol_image v)) (enumerate 0 (pr_volumes p))"

record image_warning =
  iw_profile :: string
  iw_field :: string
  iw_image :: string

definition by_tag_only :: "string \<Rightarrow> bool" where
  "by_tag_only ref = (case ParseImageRef ref of Inl e \<Rightarrow> False | Inr r \<Rightarrow> ir_digest r = [] \<and> ir_tag r \<noteq> [])"

definition Warnings :: "config \<Rightarrow> image_warning list" where
  "Warnings c = concat (map (\<lambda>(i, p).
     map (\<lambda>(f, ref). \<lparr>iw_profile = pr_name p, iw_field = f, iw_image = ref\<rparr>)
       (filter (\<lambda>(f, ref). by_tag_only ref) (profile_images (indexed ''profiles'' i) p)))
     (enumerate 0 (cf_profiles c)))"

end
