(* ===== verification/Path_Match.thy ===== *)
theory Path_Match
  imports Prelude
begin

text \<open>
  \<open>path.Match\<close> of the Go standard library, which decides which Profile an image glob
  selects and which globs the configuration accepts. The pattern is split into chunks at
  the stars, each chunk is matched as far left as it will go, and the rest of the pattern
  is still checked when the match has failed. Strings are ASCII, so a character is a byte.
\<close>

section \<open>One chunk\<close>

datatype item = Lit char | AnyChar | CharClass bool "(char \<times> char) list"

text \<open>\<open>getEsc\<close>: one character of a class, which something has to follow.\<close>

definition getEsc :: "string \<Rightarrow> (char \<times> string) option" where
  "getEsc s = (case s of
     [] \<Rightarrow> None
   | c # cs \<Rightarrow>
       if c = CHR ''-'' \<or> c = CHR '']'' then None
       else if c = CHR 0x5C then (case cs of [] \<Rightarrow> None | d # ds \<Rightarrow> if ds = [] then None else Some (d, ds))
       else if cs = [] then None else Some (c, cs))"

lemma getEsc_shorter: "getEsc s = Some (c, r) \<Longrightarrow> length r < length s \<and> r \<noteq> []"
  by (auto simp: getEsc_def split: list.splits if_splits)

text \<open>One range of a class: a character, or two with a dash between them.\<close>

definition class_range :: "string \<Rightarrow> ((char \<times> char) \<times> string) option" where
  "class_range s = (case getEsc s of
     None \<Rightarrow> None
   | Some (lo, r) \<Rightarrow>
       if hd r = CHR ''-'' then (case getEsc (tl r) of None \<Rightarrow> None | Some (hi, r2) \<Rightarrow> Some ((lo, hi), r2))
       else Some ((lo, lo), r))"

lemma class_range_shorter: "class_range s = Some (lh, r) \<Longrightarrow> length r < length s"
  by (auto simp: class_range_def split: option.splits if_splits dest!: getEsc_shorter)

function class_ranges :: "bool \<Rightarrow> string \<Rightarrow> ((char \<times> char) list \<times> string) option" where
  "class_ranges some s =
     (if some \<and> s \<noteq> [] \<and> hd s = CHR '']'' then Some ([], tl s)
      else case class_range s of
        None \<Rightarrow> None
      | Some (lh, r) \<Rightarrow> (case class_ranges True r of None \<Rightarrow> None | Some (lhs, r2) \<Rightarrow> Some (lh # lhs, r2)))"
  by pat_completeness auto
termination
  by (relation "measure (\<lambda>(b, s). length s)") (auto dest: class_range_shorter)

declare class_ranges.simps [simp del]

lemma class_ranges_shorter: "class_ranges b s = Some (lhs, r) \<Longrightarrow> length r < length s"
proof (induction b s arbitrary: lhs r rule: class_ranges.induct)
  case (1 b s)
  show ?case
  proof (cases "b \<and> s \<noteq> [] \<and> hd s = CHR '']''")
    case True
    then show ?thesis using "1.prems" by (subst (asm) class_ranges.simps) (cases s, auto)
  next
    case False
    with "1.prems" obtain lh r1 lhs' where r1: "class_range s = Some (lh, r1)" and r: "class_ranges True r1 = Some (lhs', r)"
      by (subst (asm) class_ranges.simps) (auto split: option.splits)
    from "1.IH" [OF False r1 refl r] class_range_shorter [OF r1] show ?thesis by simp
  qed
qed

text \<open>The items of a chunk; \<open>None\<close> is \<open>ErrBadPattern\<close>.\<close>

function parse_chunk :: "string \<Rightarrow> item list option" where
  "parse_chunk [] = Some []"
| "parse_chunk (c # cs) =
     (if c = CHR ''['' then
        (let neg = (cs \<noteq> [] \<and> hd cs = CHR 0x5E); cs1 = (if neg then tl cs else cs)
         in case class_ranges False cs1 of
              None \<Rightarrow> None
            | Some (lhs, r) \<Rightarrow> map_option (Cons (CharClass neg lhs)) (parse_chunk r))
      else if c = CHR ''?'' then map_option (Cons AnyChar) (parse_chunk cs)
      else if c = CHR 0x5C then (case cs of [] \<Rightarrow> None | d # ds \<Rightarrow> map_option (Cons (Lit d)) (parse_chunk ds))
      else map_option (Cons (Lit c)) (parse_chunk cs))"
  by pat_completeness auto
termination
proof (relation "measure length")
  fix c :: char and cs neg cs1 lhs_r lhs r
  assume "neg = (cs \<noteq> [] \<and> hd cs = CHR 0x5E)" "cs1 = (if neg then tl cs else cs)"
    "class_ranges False cs1 = Some lhs_r" "(lhs, r) = lhs_r"
  then have "length r < length cs1" "length cs1 \<le> length cs" by (auto dest: class_ranges_shorter)
  then show "(r, c # cs) \<in> measure length" by simp
qed auto

fun match_items :: "item list \<Rightarrow> string \<Rightarrow> string option" where
  "match_items [] s = Some s"
| "match_items (i # is') [] = None"
| "match_items (Lit c # is') (d # ds) = (if c = d then match_items is' ds else None)"
| "match_items (AnyChar # is') (d # ds) = (if d = CHR ''/'' then None else match_items is' ds)"
| "match_items (CharClass neg lhs # is') (d # ds) =
     (if list_ex (\<lambda>(lo, hi). lo \<le> d \<and> d \<le> hi) lhs = neg then None else match_items is' ds)"

section \<open>The whole pattern\<close>

text \<open>\<open>scanChunk\<close>: the chunk up to the next star that stands outside a class.\<close>

fun scan_to_star :: "bool \<Rightarrow> string \<Rightarrow> string \<times> string" where
  "scan_to_star inrange [] = ([], [])"
| "scan_to_star inrange [c] = (if c = CHR ''*'' \<and> \<not> inrange then ([], [c]) else ([c], []))"
| "scan_to_star inrange (c # d # ds) =
     (if c = CHR 0x5C then (case scan_to_star inrange ds of (a, r) \<Rightarrow> (c # d # a, r))
      else if c = CHR ''*'' \<and> \<not> inrange then ([], c # d # ds)
      else (case scan_to_star (if c = CHR ''['' then True else if c = CHR '']'' then False else inrange) (d # ds) of
              (a, r) \<Rightarrow> (c # a, r)))"

definition scanChunk :: "string \<Rightarrow> bool \<times> string \<times> string" where
  "scanChunk p = (let q = dropWhile (\<lambda>c. c = CHR ''*'') p in (p \<noteq> q, scan_to_star False q))"

lemma scan_to_star_le: "scan_to_star b s = (a, r) \<Longrightarrow> length a + length r = length s"
  by (induction b s arbitrary: a r rule: scan_to_star.induct) (auto split: if_splits prod.splits)

lemma scan_to_star_empty: "scan_to_star False s = ([], r) \<Longrightarrow> s = [] \<or> hd s = CHR ''*''"
  by (cases s; cases "tl s") (auto split: if_splits prod.splits)

lemma scanChunk_shorter:
  assumes "p \<noteq> []" "scanChunk p = (star, chunk, r)"
  shows "length r < length p"
proof -
  let ?q = "dropWhile (\<lambda>c. c = CHR ''*'') p"
  have s: "scan_to_star False ?q = (chunk, r)" and star: "star = (p \<noteq> ?q)"
    using assms(2) by (auto simp: scanChunk_def Let_def)
  have le: "length ?q \<le> length p" by (rule length_dropWhile_le)
  show ?thesis
  proof (cases "chunk = []")
    case True
    with scan_to_star_empty [of ?q r] s have "?q = [] \<or> hd ?q = CHR ''*''" by simp
    moreover have "?q \<noteq> [] \<Longrightarrow> hd ?q \<noteq> CHR ''*''" using hd_dropWhile by blast
    ultimately have "?q = []" by blast
    with s assms(1) show ?thesis by auto
  next
    case False
    with scan_to_star_le [OF s] le show ?thesis by (cases chunk) auto
  qed
qed

text \<open>A star skips at least one character that is not a slash; the last chunk has to use up the name.\<close>

fun skip_match :: "item list \<Rightarrow> bool \<Rightarrow> string \<Rightarrow> string option" where
  "skip_match is' at_end [] = None"
| "skip_match is' at_end (c # cs) =
     (if c = CHR ''/'' then None
      else case match_items is' cs of
        Some t \<Rightarrow> if at_end \<and> t \<noteq> [] then skip_match is' at_end cs else Some t
      | None \<Rightarrow> skip_match is' at_end cs)"

text \<open>The chunks of a pattern, each with whether a star stands before it.\<close>

function chunks :: "string \<Rightarrow> (bool \<times> string) list" where
  "chunks p = (if p = [] then [] else case scanChunk p of (star, chunk, r) \<Rightarrow> (star, chunk) # chunks r)"
  by pat_completeness auto
termination
  by (relation "measure length") (auto dest: scanChunk_shorter [OF _ sym])

declare chunks.simps [simp del]

definition all_parse :: "(bool \<times> string) list \<Rightarrow> bool" where
  "all_parse cks \<longleftrightarrow> list_all (\<lambda>ck. parse_chunk (snd ck) \<noteq> None) cks"

datatype match_result = BadPattern | Matched bool

text \<open>The loop of \<open>Match\<close> over the chunks that are left.\<close>

fun match_chunks :: "(bool \<times> string) list \<Rightarrow> string \<Rightarrow> match_result" where
  "match_chunks [] name = Matched (name = [])"
| "match_chunks ((star, chunk) # cks) name =
     (if star \<and> chunk = [] then Matched (CHR ''/'' \<notin> set name)
      else case parse_chunk chunk of
        None \<Rightarrow> BadPattern
      | Some is' \<Rightarrow>
          (case match_items is' name of
             Some t \<Rightarrow>
               if t = [] \<or> cks \<noteq> [] then match_chunks cks t
               else (case (if star then skip_match is' (cks = []) name else None) of
                       Some u \<Rightarrow> match_chunks cks u
                     | None \<Rightarrow> if all_parse cks then Matched False else BadPattern)
           | None \<Rightarrow>
               (case (if star then skip_match is' (cks = []) name else None) of
                  Some u \<Rightarrow> match_chunks cks u
                | None \<Rightarrow> if all_parse cks then Matched False else BadPattern)))"

definition Match :: "string \<Rightarrow> string \<Rightarrow> match_result" where
  "Match pattern name = match_chunks (chunks pattern) name"

section \<open>What it decides\<close>

lemma parse_empty [simp]: "parse_chunk [] = Some []" by simp

lemma chunks_empty_last:
  "(star, []) # cks = chunks p \<Longrightarrow> cks = []"
proof -
  assume c: "(star, []) # cks = chunks p"
  then obtain r where "p \<noteq> []" "scanChunk p = (star, [], r)" "cks = chunks r"
    by (subst (asm) chunks.simps) (auto split: if_splits prod.splits)
  moreover from this have "scan_to_star False (dropWhile (\<lambda>c. c = CHR ''*'') p) = ([], r)" by (simp add: scanChunk_def Let_def)
  then have "dropWhile (\<lambda>c. c = CHR ''*'') p = []"
    using scan_to_star_empty hd_dropWhile by blast
  with \<open>scan_to_star False _ = _\<close> have "r = []" by (simp del: dropWhile_eq_Nil_conv)
  ultimately show ?thesis by (simp add: chunks.simps)
qed


lemma chunks_tail: "ck # cks = chunks p \<Longrightarrow> \<exists>r. cks = chunks r"
  by (subst (asm) chunks.simps) (auto split: if_splits prod.splits)

lemma match_chunks_bad: "cks = chunks p \<Longrightarrow> (match_chunks cks name = BadPattern) = (\<not> all_parse cks)"
proof (induction cks arbitrary: name p)
  case Nil
  then show ?case by (simp add: all_parse_def)
next
  case (Cons ck cks)
  obtain star chunk where ck: "ck = (star, chunk)" by (cases ck)
  obtain r where tail: "cks = chunks r" using chunks_tail [OF Cons.prems] by blast
  note later = Cons.IH [OF tail]
  show ?case
  proof (cases "star \<and> chunk = []")
    case True
    with chunks_empty_last [of star cks p] Cons.prems have "cks = []" by (simp add: ck)
    with True show ?thesis by (simp add: ck all_parse_def)
  next
    case False
    show ?thesis
    proof (cases "parse_chunk chunk")
      case None
      with False show ?thesis by (auto simp: ck all_parse_def)
    next
      case (Some items)
      have "all_parse (ck # cks) = all_parse cks" by (simp add: all_parse_def ck Some)
      moreover have "match_chunks (ck # cks) name \<in> {match_chunks cks u | u. True} \<union> {if all_parse cks then Matched False else BadPattern}"
        using False by (auto simp: ck Some split: option.splits)
      ultimately show ?thesis using later by (auto split: if_splits)
    qed
  qed
qed

text \<open>
  Whether a pattern is bad does not depend on the name it is tried on, so trying it on the
  empty name, as the configuration check does, tells for every name.
\<close>

theorem Match_bad_independent: "(Match pattern name = BadPattern) = (Match pattern [] = BadPattern)"
  unfolding Match_def using match_chunks_bad [OF refl] by simp


section \<open>The language of a pattern\<close>

text \<open>
  The meaning of a pattern as the documentation of \<open>path.Match\<close> gives it: a star stands
  for any sequence of characters without a slash, and the choice is free.
\<close>

fun accepts :: "item \<Rightarrow> char \<Rightarrow> bool" where
  "accepts (Lit c) d = (c = d)"
| "accepts AnyChar d = (d \<noteq> CHR ''/'')"
| "accepts (CharClass neg lhs) d = (list_ex (\<lambda>(lo, hi). lo \<le> d \<and> d \<le> hi) lhs \<noteq> neg)"

datatype token = Star | One item

fun glob :: "token list \<Rightarrow> string \<Rightarrow> bool" where
  "glob [] s = (s = [])"
| "glob (One i # ts) [] = False"
| "glob (One i # ts) (d # ds) = (accepts i d \<and> glob ts ds)"
| "glob (Star # ts) [] = glob ts []"
| "glob (Star # ts) (d # ds) = (glob ts (d # ds) \<or> d \<noteq> CHR ''/'' \<and> glob (Star # ts) ds)"

definition chunk_items :: "string \<Rightarrow> item list" where
  "chunk_items chunk = (case parse_chunk chunk of None \<Rightarrow> [] | Some is' \<Rightarrow> is')"

fun tokens :: "(bool \<times> string) list \<Rightarrow> token list" where
  "tokens [] = []"
| "tokens ((star, chunk) # cks) = (if star then [Star] else []) @ map One (chunk_items chunk) @ tokens cks"

text \<open>The one way the greedy loop can differ: a class that accepts a slash.\<close>

definition slash_free :: "item \<Rightarrow> bool" where
  "slash_free i = (case i of CharClass neg lhs \<Rightarrow> \<not> accepts i (CHR ''/'') | _ \<Rightarrow> True)"

definition no_slash_class :: "(bool \<times> string) list \<Rightarrow> bool" where
  "no_slash_class cks \<longleftrightarrow> list_all (\<lambda>ck. list_all slash_free (chunk_items (snd ck))) cks"

lemma match_items_iff:
  "match_items is' s = Some t \<longleftrightarrow> (\<exists>v. s = v @ t \<and> list_all2 accepts is' v)"
proof (induction is' arbitrary: s)
  case (Cons i is')
  show ?case
  proof (cases s)
    case Nil
    then show ?thesis by (simp add: list_all2_Cons1)
  next
    case (Cons d ds)
    have "(\<exists>v. d # ds = v @ t \<and> list_all2 accepts (i # is') v) = (accepts i d \<and> (\<exists>v. ds = v @ t \<and> list_all2 accepts is' v))"
      by (auto simp: list_all2_Cons1)
    then show ?thesis
      using Cons.IH [of ds] unfolding \<open>s = d # ds\<close> by (cases i) auto
  qed
qed simp

lemma match_items_Cons: "match_items (i # is') (d # ds) = (if accepts i d then match_items is' ds else None)"
  by (cases i) auto

lemma glob_items: "glob (map One is' @ ts) s = (\<exists>t. match_items is' s = Some t \<and> glob ts t)"
proof (induction is' arbitrary: s)
  case (Cons i is')
  then show ?case by (cases s) (simp_all add: match_items_Cons)
qed simp

lemma glob_star: "glob (Star # ts) s = (\<exists>u v. s = u @ v \<and> CHR ''/'' \<notin> set u \<and> glob ts v)"
proof (induction s)
  case (Cons d ds)
  have "(\<exists>u v. d # ds = u @ v \<and> CHR ''/'' \<notin> set u \<and> glob ts v)
      = (glob ts (d # ds) \<or> d \<noteq> CHR ''/'' \<and> (\<exists>u v. ds = u @ v \<and> CHR ''/'' \<notin> set u \<and> glob ts v))" (is "?l = ?r")
  proof
    assume ?l
    then obtain u v where uv: "d # ds = u @ v" "CHR ''/'' \<notin> set u" "glob ts v" by blast
    show ?r
    proof (cases u)
      case (Cons e es)
      with uv have "ds = es @ v" "CHR ''/'' \<notin> set es" "d \<noteq> CHR ''/''" by auto
      with uv(3) show ?thesis by blast
    qed (use uv in simp)
  next
    assume ?r
    then show ?l
    proof
      assume "glob ts (d # ds)"
      then show ?l by (intro exI [of _ "[]"] exI [of _ "d # ds"]) simp
    next
      assume "d \<noteq> CHR ''/'' \<and> (\<exists>u v. ds = u @ v \<and> CHR ''/'' \<notin> set u \<and> glob ts v)"
      then obtain u v where "d \<noteq> CHR ''/''" "ds = u @ v" "CHR ''/'' \<notin> set u" "glob ts v" by blast
      then show ?l by (intro exI [of _ "d # u"] exI [of _ v]) simp
    qed
  qed
  then show ?case using Cons.IH by simp
qed simp


subsection \<open>Leftmost matches suffice\<close>

text \<open>
  The places where a chunk matches behind a star: what the star skips has no slash, and
  what is left is acceptable where the chunk is the last one.
\<close>

definition place :: "item list \<Rightarrow> bool \<Rightarrow> string \<Rightarrow> nat \<Rightarrow> string \<Rightarrow> bool" where
  "place is' at_end s n t \<longleftrightarrow> n \<le> length s \<and> CHR ''/'' \<notin> set (take n s) \<and> match_items is' (drop n s) = Some t
     \<and> (at_end \<longrightarrow> t = [])"

definition first_place :: "item list \<Rightarrow> bool \<Rightarrow> string \<Rightarrow> string option" where
  "first_place is' at_end s = (case match_items is' s of
     Some t \<Rightarrow> if t = [] \<or> \<not> at_end then Some t else skip_match is' at_end s
   | None \<Rightarrow> skip_match is' at_end s)"

lemma skip_match_step: "skip_match is' at_end (c # cs) = (if c = CHR ''/'' then None else first_place is' at_end cs)"
  by (auto simp: first_place_def split: option.splits)

lemma place_0: "place is' at_end s 0 t = (match_items is' s = Some t \<and> (at_end \<longrightarrow> t = []))"
  by (simp add: place_def)

lemma place_Suc: "place is' at_end (c # cs) (Suc n) t = (c \<noteq> CHR ''/'' \<and> place is' at_end cs n t)"
  by (auto simp: place_def)

lemma first_place_spec:
  "case first_place is' at_end s of
     None \<Rightarrow> \<forall>n t. \<not> place is' at_end s n t
   | Some t \<Rightarrow> \<exists>n. place is' at_end s n t \<and> (\<forall>m u. place is' at_end s m u \<longrightarrow> n \<le> m)"
proof (induction s)
  case Nil
  have "place is' at_end [] n t = (n = 0 \<and> match_items is' [] = Some t \<and> (at_end \<longrightarrow> t = []))" for n t
    by (auto simp: place_def)
  then show ?case by (auto simp: first_place_def split: option.splits)
next
  case (Cons c cs)
  have split: "place is' at_end (c # cs) n t = (if n = 0 then match_items is' (c # cs) = Some t \<and> (at_end \<longrightarrow> t = [])
      else c \<noteq> CHR ''/'' \<and> place is' at_end cs (n - 1) t)" for n t
    by (cases n) (simp_all add: place_0 place_Suc)
  show ?case
  proof (cases "\<exists>t. match_items is' (c # cs) = Some t \<and> (at_end \<longrightarrow> t = [])")
    case True
    then obtain t where t: "match_items is' (c # cs) = Some t" "at_end \<longrightarrow> t = []" by blast
    then have "first_place is' at_end (c # cs) = Some t" by (auto simp: first_place_def)
    with t show ?thesis by (auto simp: split intro!: exI [of _ 0])
  next
    case False
    then have f: "first_place is' at_end (c # cs) = (if c = CHR ''/'' then None else first_place is' at_end cs)"
      by (auto simp: first_place_def skip_match_step split: option.splits simp del: skip_match.simps)
    show ?thesis
    proof (cases "c = CHR ''/''")
      case True
      have "\<not> place is' at_end (c # cs) n t" for n t
        using False True unfolding split by auto
      then show ?thesis using True unfolding f by simp
    next
      case ne: False
      have later: "place is' at_end (c # cs) n t = (n \<noteq> 0 \<and> place is' at_end cs (n - 1) t)" for n t
        using False ne by (auto simp: split)
      show ?thesis
      proof (cases "first_place is' at_end cs")
        case None
        then show ?thesis using Cons.IH ne by (simp add: f later)
      next
        case (Some t)
        then obtain n where "place is' at_end cs n t" "\<forall>m u. place is' at_end cs m u \<longrightarrow> n \<le> m" using Cons.IH by auto
        then show ?thesis using Some ne by (auto simp: f later intro!: exI [of _ "Suc n"])
      qed
    qed
  qed
qed

text \<open>
  When no class accepts a slash, a later match of a chunk leaves out only characters that a
  following star can take up.
\<close>

lemma slash_free_slash: "slash_free i \<Longrightarrow> accepts i (CHR ''/'') \<Longrightarrow> i = Lit (CHR ''/'')"
  by (cases i) (auto simp: slash_free_def)

lemma no_slash_between:
  assumes "list_all slash_free is'" "list_all2 accepts is' v" "list_all2 accepts is' v'"
    and s: "s = take n s @ v @ t" "s = take m s @ v' @ t'" and n: "n < m" "m \<le> length s" "CHR ''/'' \<notin> set (take m s)"
  shows "CHR ''/'' \<notin> set v'"
proof
  assume "CHR ''/'' \<in> set v'"
  define j where "j = (LEAST j. j < length v' \<and> v' ! j = CHR ''/'')"
  have ex: "\<exists>j. j < length v' \<and> v' ! j = CHR ''/''" using \<open>CHR ''/'' \<in> set v'\<close> by (auto simp: in_set_conv_nth)
  have j: "j < length v'" "v' ! j = CHR ''/''" using LeastI_ex [OF ex] by (simp_all add: j_def)
  have min: "k < j \<Longrightarrow> v' ! k \<noteq> CHR ''/''" for k
    using not_less_Least [of k "\<lambda>j. j < length v' \<and> v' ! j = CHR ''/''"] j(1) unfolding j_def by auto
  have len: "length v = length is'" "length v' = length is'" using list_all2_lengthD [OF assms(2)] list_all2_lengthD [OF assms(3)] by simp_all
  have "accepts (is' ! j) (CHR ''/'')" using list_all2_nthD2 [OF assms(3) j(1)] j(2) by simp
  then have "is' ! j = Lit (CHR ''/'')" using slash_free_slash assms(1) j(1) len by (simp add: list_all_length)
  then have vj: "v ! j = CHR ''/''" using list_all2_nthD [OF assms(2), of j] j(1) len by simp
  have nl: "n \<le> length s" using n by simp
  have "s ! (n + j) = (take n s @ v @ t) ! (n + j)" using s(1) by simp
  also have "\<dots> = CHR ''/''" using vj j(1) len nl by (simp add: nth_append)
  finally have slash: "s ! (n + j) = CHR ''/''" .
  show False
  proof (cases "n + j < m")
    case True
    then have "s ! (n + j) \<in> set (take m s)" using n(2) by (auto simp: in_set_conv_nth intro!: exI [of _ "n + j"])
    with slash n(3) show ?thesis by simp
  next
    case False
    define k where "k = n + j - m"
    have k: "k < j" "n + j = m + k" using False n(1) by (simp_all add: k_def)
    have "s ! (m + k) = (take m s @ v' @ t') ! (m + k)" using s(2) by simp
    also have "\<dots> = v' ! k" using k j(1) n(2) by (simp add: nth_append)
    finally show False using min [OF k(1)] slash k(2) by simp
  qed
qed


lemma glob_star_more: "CHR ''/'' \<notin> set x \<Longrightarrow> glob (Star # ts) w \<Longrightarrow> glob (Star # ts) (x @ w)"
  unfolding glob_star by (metis Un_iff append.assoc set_append)

lemma glob_starred_chunk:
  "glob (Star # map One is' @ ts) s = (\<exists>n t. place is' False s n t \<and> glob ts t)"
proof -
  have "(\<exists>u v. s = u @ v \<and> CHR ''/'' \<notin> set u \<and> (\<exists>t. match_items is' v = Some t \<and> glob ts t))
      = (\<exists>n t. place is' False s n t \<and> glob ts t)" (is "?l = ?r")
  proof
    assume ?l
    then obtain u v t where "s = u @ v" "CHR ''/'' \<notin> set u" "match_items is' v = Some t" "glob ts t" by blast
    then show ?r by (intro exI [of _ "length u"] exI [of _ t]) (simp add: place_def)
  next
    assume ?r
    then obtain n t where "place is' False s n t" "glob ts t" by blast
    then show ?l by (intro exI [of _ "take n s"] exI [of _ "drop n s"]) (simp add: place_def)
  qed
  then show ?thesis by (simp add: glob_star glob_items)
qed

lemma greedy_suffices:
  assumes free: "list_all slash_free is'" and first: "place is' False s n t" "\<And>m u. place is' False s m u \<Longrightarrow> n \<le> m"
    and other: "place is' False s m u" "glob (Star # ts) u"
  shows "glob (Star # ts) t"
proof (cases "n = m")
  case True
  with first(1) other show ?thesis by (simp add: place_def)
next
  case False
  with first(2) [OF other(1)] have less: "n < m" by simp
  from first(1) obtain v where v: "drop n s = v @ t" "list_all2 accepts is' v" by (auto simp: place_def match_items_iff)
  from other(1) obtain v' where v': "drop m s = v' @ u" "list_all2 accepts is' v'" by (auto simp: place_def match_items_iff)
  have m: "m \<le> length s" "CHR ''/'' \<notin> set (take m s)" using other(1) by (simp_all add: place_def)
  have s: "s = take n s @ v @ t" "s = take m s @ v' @ u" using v(1) v'(1) by (metis append_take_drop_id)+
  have "CHR ''/'' \<notin> set v'" by (rule no_slash_between [OF free v(2) v'(2) s less m])
  moreover have t: "t = drop (n + length v) s" using v(1) by (metis append_eq_conv_conj drop_drop add.commute)
  moreover have u: "u = drop (m + length v) s"
    using v' v(2) by (metis append_eq_conv_conj drop_drop add.commute list_all2_lengthD)
  moreover have "length v' = length v" using list_all2_lengthD [OF v(2)] list_all2_lengthD [OF v'(2)] by simp
  moreover have "drop (n + length v) s = take (m - n) (drop (n + length v) s) @ drop (m - n) (drop (n + length v) s)"
    by (rule append_take_drop_id [symmetric])
  moreover have "drop (m - n) (drop (n + length v) s) = u" using less u by (simp add: drop_drop add.commute)
  moreover have "set (take (m - n) (drop (n + length v) s)) \<subseteq> set (take m s) \<union> set v'"
  proof -
    have "take (m - n) (drop (n + length v) s) = drop (n + length v) (take (m + length v) s)"
      using less by (simp add: take_drop)
    moreover have "take (m + length v) s = take m s @ v'"
      using v'(1) \<open>length v' = length v\<close> m(1) by (simp add: take_add)
    ultimately show ?thesis by (metis set_append set_drop_subset)
  qed
  ultimately show ?thesis using m(2) other(2) glob_star_more by (metis (no_types, lifting) Un_iff subsetD)
qed


subsection \<open>The loop decides the language\<close>

lemma scan_to_star_rest: "scan_to_star b s = (a, r) \<Longrightarrow> r \<noteq> [] \<Longrightarrow> hd r = CHR ''*''"
  by (induction b s arbitrary: a r rule: scan_to_star.induct) (auto split: if_splits prod.splits)

lemma chunks_starred: "ck # (star, chunk) # cks = chunks p \<Longrightarrow> star"
proof -
  assume c: "ck # (star, chunk) # cks = chunks p"
  then obtain s0 c0 r where "p \<noteq> []" and sc: "scanChunk p = (s0, c0, r)" and r: "(star, chunk) # cks = chunks r"
    by (subst (asm) chunks.simps) (auto split: if_splits prod.splits)
  from r have ne: "r \<noteq> []" by (auto simp: chunks.simps)
  from sc have "scan_to_star False (dropWhile (\<lambda>c. c = CHR ''*'') p) = (c0, r)" by (simp add: scanChunk_def Let_def)
  from scan_to_star_rest [OF this ne] have h: "hd r = CHR ''*''" .
  obtain x xs where x: "r = x # xs" using ne by (cases r) auto
  have "length (dropWhile (\<lambda>c. c = CHR ''*'') r) \<le> length xs" using h length_dropWhile_le [of _ xs] by (simp add: x)
  then have "dropWhile (\<lambda>c. c = CHR ''*'') r \<noteq> r" using x by (metis impossible_Cons)
  moreover have "star = (r \<noteq> dropWhile (\<lambda>c. c = CHR ''*'') r)"
    using r ne by (subst (asm) chunks.simps) (simp add: scanChunk_def Let_def split: prod.splits)
  ultimately show star by simp
qed

lemma tokens_starred: "ck # cks = chunks p \<Longrightarrow> cks \<noteq> [] \<Longrightarrow> \<exists>ts. tokens cks = Star # ts"
  by (cases cks) (auto dest: chunks_starred)

lemma first_place_end:
  "(\<exists>u. first_place is' True s = Some u \<and> u = []) = (\<exists>n t. place is' False s n t \<and> t = [])"
  using first_place_spec [of is' True s] by (auto simp: place_def split: option.splits)

theorem match_chunks_glob:
  "cks = chunks p \<Longrightarrow> all_parse cks \<Longrightarrow> no_slash_class cks \<Longrightarrow> match_chunks cks s = Matched (glob (tokens cks) s)"
proof (induction cks arbitrary: s p)
  case Nil
  then show ?case by simp
next
  case (Cons ck cks)
  obtain star chunk where ck: "ck = (star, chunk)" by (cases ck)
  obtain r where tail: "cks = chunks r" using chunks_tail [OF Cons.prems(1)] by blast
  obtain items where items: "parse_chunk chunk = Some items" using Cons.prems(2) by (auto simp: ck all_parse_def)
  have free: "list_all slash_free items" and later: "\<And>u. match_chunks cks u = Matched (glob (tokens cks) u)"
    using Cons.prems(2,3) Cons.IH [OF tail] by (simp_all add: ck no_slash_class_def all_parse_def chunk_items_def items)
  have ok: "all_parse cks" using Cons.prems(2) by (simp add: all_parse_def)
  have toks: "tokens (ck # cks) = (if star then [Star] else []) @ map One items @ tokens cks"
    by (simp add: ck chunk_items_def items)
  show ?case
  proof (cases star)
    case False
    show ?thesis
      unfolding toks using False ok later
      by (cases "match_items items s") (auto simp: ck items glob_items)
  next
    case star: True
    show ?thesis
    proof (cases "chunk = []")
      case True
      then have "cks = []" "items = []" using chunks_empty_last [of star cks p] Cons.prems(1) items by (auto simp: ck)
      moreover have "(\<exists>u v. s = u @ v \<and> CHR ''/'' \<notin> set u \<and> v = []) = (CHR ''/'' \<notin> set s)" by auto
      ultimately show ?thesis unfolding toks using star True by (simp add: ck glob_star)
    next
      case nonempty: False
      have run: "match_chunks (ck # cks) s = (case first_place items (cks = []) s of
          Some u \<Rightarrow> match_chunks cks u | None \<Rightarrow> Matched False)"
        using star nonempty ok by (auto simp: ck items first_place_def split: option.splits)
      have lang: "glob (tokens (ck # cks)) s = (\<exists>n t. place items False s n t \<and> glob (tokens cks) t)"
        unfolding toks using star glob_starred_chunk by simp
      show ?thesis
      proof (cases "cks = []")
        case True
        then show ?thesis
          using first_place_end [of items s] unfolding run lang by (auto split: option.splits)
      next
        case more_cks: False
        obtain ts where ts: "tokens cks = Star # ts" using tokens_starred [OF Cons.prems(1)] more_cks by blast
        show ?thesis
        proof (cases "first_place items False s")
          case None
          then show ?thesis using first_place_spec [of items False s] more_cks unfolding run lang by simp
        next
          case (Some t)
          then obtain n where n: "place items False s n t" "\<And>m u. place items False s m u \<Longrightarrow> n \<le> m"
            using first_place_spec [of items False s] by auto
          have "(\<exists>n t. place items False s n t \<and> glob (tokens cks) t) = glob (tokens cks) t"
            unfolding ts using greedy_suffices [OF free n(1), where ts = ts] n by blast
          then show ?thesis using Some more_cks unfolding run lang by (simp add: later)
        qed
      qed
    qed
  qed
qed

end
