(* ===== verification/Config_Validate.thy ===== *)
theory Config_Validate
  imports Config_Text Path_Match
begin

text \<open>
  \<open>internal/config/validate.go\<close> and \<open>internal/config/hosts.go\<close>. Each method of the
  \<open>validator\<close> is the list of field errors it appends, in its order; a reason keeps the
  values its message is formatted with. \<open>url.Parse\<close> is an argument, of which the checks read
  the scheme, the host and the path. Keys of a Go map are visited in the order of the
  association list.
\<close>

section \<open>Field errors\<close>

datatype (plugins only: code) reason =
    Required | NotPositive int | Negative int | BadPort int
  | HasScheme string | NotHostPort string | NotHttpURL string | CertWithoutKey | InsecureWithTLS
  | ArchRequired | ArchUnknown string | NotAbsolute string
  | NeedsHttps | InsecureNotForGitLab
  | NoProfiles | DuplicateOf nat string | SamePool string string nat | MatchesNoHost string "(string, string) gomap"
  | ManyDefaults nat | BadImage image_error | NotPinned string | ImageDeclaredBy string nat | BadGlob string | EmptyKey
  | SSHUnderClaim string | KindRequired | KindUnknown string
  | MinSizeRequired | StrategyRequired | StrategyUnknown string | AboveSize int int | PolicyUnknown string | ExpiryTooShort int int
  | InventoryNotRead | NoHosts | BadHostName string | DuplicateEndpoint nat string | UnknownUpstream string
  | ClaimNotRead | BackendUnknown string | EndpointRequired | HolderRequired | NeedsKubeconfig
  | NotNamespace string | NotSubdomain string | NotMapKey string | SpaceOrSlash string
  | PortTaken int string | DeviceAndDirectory | DeviceOrDirectory | SizeNotPositive int | CapTooSmall int int
  | PolicyOfDisabled | CredentialRequired | HostWithoutPatterns | NotModuleVersion string | NotEnvVar string
  | LeadingSlash string | InsecureCache | HasPath string | NotHttps string
  | BadLogFormat string | BadLogLevel string | BadListenAddress string

record field_error =
  fe_field :: string
  fe_reason :: reason

definition errorf :: "string \<Rightarrow> reason \<Rightarrow> field_error list" where
  "errorf f r = [\<lparr>fe_field = f, fe_reason = r\<rparr>]"

definition given :: "string \<Rightarrow> bool" where
  "given s \<longleftrightarrow> TrimSpace s \<noteq> []"

definition required :: "string \<Rightarrow> string \<Rightarrow> field_error list" where
  "required f s = (if given s then [] else errorf f Required)"

definition positive :: "string \<Rightarrow> int \<Rightarrow> field_error list" where
  "positive f d = (if d \<le> 0 then errorf f (NotPositive d) else [])"

definition nonNegative :: "string \<Rightarrow> int \<Rightarrow> field_error list" where
  "nonNegative f d = (if d < 0 then errorf f (Negative d) else [])"

definition port :: "string \<Rightarrow> int \<Rightarrow> field_error list" where
  "port f p = (if p < 1 \<or> p > 65535 then errorf f (BadPort p) else [])"

definition normaliseHostPort :: "string \<Rightarrow> string" where
  "normaliseHostPort addr = (case SplitHostPort addr of
     None \<Rightarrow> addr
   | Some (host, p) \<Rightarrow> (case Atoi p of None \<Rightarrow> addr | Some n \<Rightarrow> JoinHostPort host (Itoa n)))"

definition hostPort :: "string \<Rightarrow> string \<Rightarrow> field_error list" where
  "hostPort f addr =
     (if \<not> given addr then required f addr
      else if Contains addr ''://'' then errorf f (HasScheme addr)
      else case SplitHostPort addr of
        None \<Rightarrow> errorf f (NotHostPort addr)
      | Some (host, p) \<Rightarrow> if host = [] \<or> p = [] then errorf f (NotHostPort addr) else [])"

record url =
  u_scheme :: string
  u_host :: string
  u_path :: string

type_synonym url_parse = "string \<Rightarrow> url option"

text \<open>The URL \<open>httpURL\<close> returns, \<open>None\<close> for nil, with the errors it appends.\<close>

definition httpURL :: "url_parse \<Rightarrow> string \<Rightarrow> string \<Rightarrow> url option \<times> field_error list" where
  "httpURL parse f raw =
     (if \<not> given raw then (None, required f raw)
      else case parse raw of
        None \<Rightarrow> (None, errorf f (NotHttpURL raw))
      | Some u \<Rightarrow>
          if u_host u = [] \<or> (u_scheme u \<noteq> ''http'' \<and> u_scheme u \<noteq> ''https'') then (None, errorf f (NotHttpURL raw))
          else (Some u, []))"

definition clientTLS :: "string \<Rightarrow> client_tls \<Rightarrow> field_error list" where
  "clientTLS f t =
     (if (ct_cert_file t = []) \<noteq> (ct_key_file t = []) then errorf f CertWithoutKey else [])
     @ (if ct_insecure t \<and> (ct_ca_file t \<noteq> [] \<or> ct_cert_file t \<noteq> []) then errorf f InsecureWithTLS else [])"

definition arch :: "string \<Rightarrow> string \<Rightarrow> field_error list" where
  "arch f a = (if a = ArchAMD64 \<or> a = ArchARM64 then []
     else if a = [] then errorf f ArchRequired else errorf f (ArchUnknown a))"

definition absPath :: "string \<Rightarrow> string \<Rightarrow> field_error list" where
  "absPath f p = (if \<not> given p then required f p else if \<not> HasPrefix p ''/'' then errorf f (NotAbsolute p) else [])"

section \<open>The GitLab section\<close>

definition check_gitlab :: "url_parse \<Rightarrow> gitlab \<Rightarrow> field_error list" where
  "check_gitlab parse g =
     (case httpURL parse ''gitlab.url'' (gl_url g) of (u, errs) \<Rightarrow> errs @ (case u of
        Some u \<Rightarrow> if u_scheme u \<noteq> ''https'' \<and> \<not> gl_allow_insecure g then errorf ''gitlab.url'' NeedsHttps else []
      | None \<Rightarrow> []))
     @ required ''gitlab.token'' (gl_token g)
     @ required ''gitlab.name'' (gl_name g)
     @ positive ''gitlab.concurrent'' (gl_concurrent g)
     @ positive ''gitlab.check_interval'' (gl_check_interval g)
     @ positive ''gitlab.output_limit_kb'' (gl_output_limit_kb g)
     @ positive ''gitlab.shutdown_timeout'' (gl_shutdown_timeout g)
     @ clientTLS ''gitlab.tls'' (gl_tls g)
     @ (if ct_insecure (gl_tls g) then errorf ''gitlab.tls.insecure'' InsecureNotForGitLab else [])"

section \<open>Hosts of a Profile\<close>

definition MatchesHost :: "profile \<Rightarrow> inventory_host \<Rightarrow> bool" where
  "MatchesHost p h \<longleftrightarrow> pr_arch p = ih_arch h
     \<and> list_all (\<lambda>(k, want). mget (ih_labels h) k = Some want) (pr_host_selector p)"

definition SelectHosts :: "profile \<Rightarrow> inventory_host list \<Rightarrow> string list" where
  "SelectHosts p hosts = map ih_name (filter (MatchesHost p) hosts)"

definition HostByName :: "inventory_host list \<Rightarrow> string \<Rightarrow> inventory_host option" where
  "HostByName hosts name = List.find (\<lambda>h. ih_name h = name) hosts"

section \<open>Profiles\<close>

definition profileImages :: "string \<Rightarrow> profile \<Rightarrow> field_error list" where
  "profileImages f p =
     concat (map (\<lambda>(field, ref).
        if \<not> given ref then required field ref
        else case ParseImageRef ref of
          Inl e \<Rightarrow> errorf field (BadImage e)
        | Inr r \<Rightarrow> if \<not> Pinned r then errorf field (NotPinned ref) else []) (profile_images f p))
     @ concat (map (\<lambda>(i, v). let vf = indexed (f @ ''.additional_volumes'') i in
          required (vf @ ''.id'') (vol_id v)
          @ (if vol_mount_point v \<noteq> [] then absPath (vf @ ''.mount_point'') (vol_mount_point v) else [])
          @ nonNegative (vf @ ''.size_mb'') (vol_size_mb v)) (enumerate 0 (pr_volumes p)))"

text \<open>A name that has to be unique: the error when it was seen, and the table with it.\<close>

type_synonym seen = "(string, nat) gomap"

fun image_names :: "string \<Rightarrow> nat \<Rightarrow> nat \<Rightarrow> string list \<Rightarrow> seen \<Rightarrow> field_error list \<times> seen" where
  "image_names f i k [] images = ([], images)"
| "image_names f i k (name # names) images =
     (let nf = indexed (f @ ''.images'') k
      in if \<not> given name then (case image_names f i (Suc k) names images of (es, im) \<Rightarrow> (required nf name @ es, im))
         else case mget images name of
           Some j \<Rightarrow> (case image_names f i (Suc k) names images of (es, im) \<Rightarrow> (errorf nf (ImageDeclaredBy name j) @ es, im))
         | None \<Rightarrow> image_names f i (Suc k) names (mput name i images))"

definition blank_keys :: "string \<Rightarrow> (string, 'v) gomap \<Rightarrow> field_error list" where
  "blank_keys f m = concat (map (\<lambda>k. if \<not> given k then errorf f EmptyKey else []) (mkeys m))"

definition profileOptional :: "string \<Rightarrow> profile \<Rightarrow> nat \<Rightarrow> seen \<Rightarrow> field_error list \<times> seen" where
  "profileOptional f p i images = (case image_names f i 0 (pr_images p) images of (es, im) \<Rightarrow>
     (es
      @ concat (map (\<lambda>(k, g). let gf = indexed (f @ ''.image_globs'') k in
          if \<not> given g then required gf g
          else if Match g [] = BadPattern then errorf gf (BadGlob g) else []) (enumerate 0 (pr_image_globs p)))
      @ blank_keys (f @ ''.kernel.cmdline'') (k_cmdline (pr_kernel p))
      @ required (f @ ''.user'') (pr_user p)
      @ positive (f @ ''.ready_timeout'') (pr_ready_timeout p)
      @ blank_keys (f @ ''.host_selector'') (pr_host_selector p)
      @ nonNegative (f @ ''.max_concurrency'') (pr_max_concurrency p), im))"

definition profileTransport :: "string \<Rightarrow> profile \<Rightarrow> pool_manager \<Rightarrow> field_error list" where
  "profileTransport f p pm =
     (let field = f @ ''.transport.kind''; kind = tp_kind (pr_transport p)
      in if kind = TransportExec \<or> kind = TransportSSH then
           (if kind = TransportSSH \<and> IsClaim pm then errorf field (SSHUnderClaim kind)
            else if kind = TransportSSH then
              required (f @ ''.transport.ssh.private_key_file'') (ssh_private_key_file (tp_ssh (pr_transport p)))
              @ required (f @ ''.transport.ssh.user'') (ssh_user (tp_ssh (pr_transport p)))
            else [])
         else if kind = [] then errorf field KindRequired
         else errorf field (KindUnknown kind))"

definition poolSettings :: "string \<Rightarrow> pool_settings \<Rightarrow> field_error list" where
  "poolSettings f ps =
     positive (f @ ''.size'') (ps_size ps)
     @ required (f @ ''.name'') (ps_name ps)
     @ required (f @ ''.namespace'') (ps_namespace ps)
     @ (if ps_strategy ps = ReplenishImmediateOnLease \<or> ps_strategy ps = ReplenishReplaceOnDelete then []
        else if ps_strategy ps = ReplenishMinSizeThreshold then
          (if ps_min_size ps = None then errorf (f @ ''.min_size'') MinSizeRequired else [])
        else if ps_strategy ps = [] then errorf (f @ ''.strategy'') StrategyRequired
        else errorf (f @ ''.strategy'') (StrategyUnknown (ps_strategy ps)))
     @ (case ps_min_size ps of
          None \<Rightarrow> []
        | Some n \<Rightarrow> if n < 0 then errorf (f @ ''.min_size'') (Negative n)
                    else if n > ps_size ps then errorf (f @ ''.min_size'') (AboveSize (ps_size ps) n) else [])
     @ concat (map (\<lambda>(i, h). required (indexed (f @ ''.create_hooks'') i) h) (enumerate 0 (ps_create_hooks ps)))
     @ concat (map (\<lambda>(i, h). required (indexed (f @ ''.pre_lease_hooks'') i) h) (enumerate 0 (ps_pre_lease_hooks ps)))
     @ (if ps_hook_failure_policy ps \<in> {[], HookFailureDeleteAndReplace, HookFailureQuarantine} then []
        else errorf (f @ ''.hook_failure_policy'') (PolicyUnknown (ps_hook_failure_policy ps)))
     @ positive (f @ ''.heartbeat_interval'') (ps_heartbeat_interval ps)
     @ positive (f @ ''.heartbeat_expiry'') (ps_heartbeat_expiry ps)
     @ (if ps_heartbeat_interval ps > 0 \<and> ps_heartbeat_expiry ps > 0 \<and> ps_heartbeat_expiry ps \<le> ps_heartbeat_interval ps
        then errorf (f @ ''.heartbeat_expiry'') (ExpiryTooShort (ps_heartbeat_interval ps) (ps_heartbeat_expiry ps)) else [])"

record profile_tables =
  pt_names :: seen
  pt_images :: seen
  pt_pools :: seen

definition pool_key :: "profile \<Rightarrow> string" where
  "pool_key p = ps_namespace (pr_pool p) @ ''/'' @ ps_name (pr_pool p)"

text \<open>One round of the loop over the Profiles.\<close>

definition check_profile :: "config \<Rightarrow> nat \<Rightarrow> profile \<Rightarrow> profile_tables \<Rightarrow> field_error list \<times> profile_tables" where
  "check_profile c i p t =
     (let f = indexed ''profiles'' i;
          hosts = inv_hosts (cf_inventory c)
      in case profileOptional f p i (pt_images t) of (opt_errs, im) \<Rightarrow>
        ((if \<not> given (pr_name p) then required (f @ ''.name'') (pr_name p)
          else case mget (pt_names t) (pr_name p) of
            Some j \<Rightarrow> errorf (f @ ''.name'') (DuplicateOf j (pr_name p))
          | None \<Rightarrow> [])
         @ arch (f @ ''.arch'') (pr_arch p)
         @ positive (f @ ''.vcpu'') (pr_vcpu p)
         @ positive (f @ ''.memory_mb'') (pr_memory_mb p)
         @ profileImages f p
         @ absPath (f @ ''.shell'') (pr_shell p)
         @ absPath (f @ ''.builds_dir'') (pr_builds_dir p)
         @ absPath (f @ ''.cache_dir'') (pr_cache_dir p)
         @ absPath (f @ ''.helper_path'') (pr_helper_path p)
         @ opt_errs
         @ profileTransport f p (cf_pool_manager c)
         @ poolSettings (f @ ''.pool'') (pr_pool p)
         @ (case mget (pt_pools t) (pool_key p) of
              Some j \<Rightarrow> errorf (f @ ''.pool'') (SamePool (ps_name (pr_pool p)) (ps_namespace (pr_pool p)) j)
            | None \<Rightarrow> [])
         @ (if pr_arch p \<noteq> [] \<and> hosts \<noteq> [] \<and> SelectHosts p hosts = []
            then errorf (f @ ''.host_selector'') (MatchesNoHost (pr_arch p) (pr_host_selector p)) else []),
         \<lparr>pt_names = (if given (pr_name p) \<and> mget (pt_names t) (pr_name p) = None
             then mput (pr_name p) i (pt_names t) else pt_names t),
          pt_images = im,
          pt_pools = (if mget (pt_pools t) (pool_key p) = None then mput (pool_key p) i (pt_pools t) else pt_pools t)\<rparr>))"

fun check_each :: "config \<Rightarrow> nat \<Rightarrow> profile list \<Rightarrow> profile_tables \<Rightarrow> field_error list" where
  "check_each c i [] t = []"
| "check_each c i (p # ps) t = (case check_profile c i p t of (es, t1) \<Rightarrow> es @ check_each c (Suc i) ps t1)"

definition check_profiles :: "config \<Rightarrow> field_error list" where
  "check_profiles c =
     (if cf_profiles c = [] then errorf ''profiles'' NoProfiles
      else check_each c 0 (cf_profiles c) \<lparr>pt_names = [], pt_images = [], pt_pools = []\<rparr>
        @ (let defaults = length (filter pr_default (cf_profiles c))
           in if defaults > 1 then errorf ''profiles'' (ManyDefaults defaults) else []))"

section \<open>The Inventory\<close>

definition name_delims :: string where
  "name_delims = [CHR '' '', CHR 0x09, CHR 0x0A, CHR ''/'']"

definition check_host :: "string list \<Rightarrow> inventory_host list \<Rightarrow> nat \<Rightarrow> inventory_host \<Rightarrow> seen \<times> seen
    \<Rightarrow> field_error list \<times> (seen \<times> seen)" where
  "check_host upstreams hosts i h t = (case t of (names, endpoints) \<Rightarrow>
     let f = indexed ''inventory.hosts'' i; key = normaliseHostPort (ih_endpoint h)
     in ((if \<not> given (ih_name h) then required (f @ ''.name'') (ih_name h)
          else (if ContainsAny (ih_name h) name_delims then errorf (f @ ''.name'') (BadHostName (ih_name h)) else [])
            @ (case mget names (ih_name h) of Some j \<Rightarrow> errorf (f @ ''.name'') (DuplicateOf j (ih_name h)) | None \<Rightarrow> []))
         @ hostPort (f @ ''.endpoint'') (ih_endpoint h)
         @ (if ih_endpoint h \<noteq> [] then (case mget endpoints key of
              Some j \<Rightarrow> errorf (f @ ''.endpoint'') (DuplicateEndpoint j (ih_endpoint (hosts ! j))) | None \<Rightarrow> []) else [])
         @ arch (f @ ''.arch'') (ih_arch h)
         @ positive (f @ ''.vcpu'') (ih_vcpu h)
         @ positive (f @ ''.memory_mb'') (ih_memory_mb h)
         @ blank_keys (f @ ''.labels'') (ih_labels h)
         @ clientTLS (f @ ''.tls'') (ih_tls h)
         @ concat (map (\<lambda>n. if n \<notin> set upstreams then errorf (f @ ''.services.http_cache'') (UnknownUpstream n) else [])
             (mkeys (sa_http_cache (ih_services h)))),
         (if given (ih_name h) \<and> mget names (ih_name h) = None then mput (ih_name h) i names else names,
          if ih_endpoint h \<noteq> [] \<and> mget endpoints key = None then mput key i endpoints else endpoints)))"

fun check_hosts :: "string list \<Rightarrow> inventory_host list \<Rightarrow> nat \<Rightarrow> inventory_host list \<Rightarrow> seen \<times> seen \<Rightarrow> field_error list" where
  "check_hosts upstreams hosts i [] t = []"
| "check_hosts upstreams hosts i (h # hs) t =
     (case check_host upstreams hosts i h t of (es, t1) \<Rightarrow> es @ check_hosts upstreams hosts (Suc i) hs t1)"

definition check_inventory :: "config \<Rightarrow> field_error list" where
  "check_inventory c =
     (let hosts = inv_hosts (cf_inventory c)
      in if IsClaim (cf_pool_manager c) then (if hosts \<noteq> [] then errorf ''inventory'' InventoryNotRead else [])
         else if hosts = [] then errorf ''inventory'' NoHosts
         else check_hosts (map hu_name (ht_upstreams (hs_http_cache (cf_host_services c)))) hosts 0 hosts ([], []))"

section \<open>Pool Manager, Scheduler and Executor\<close>

definition between :: "char \<Rightarrow> char \<Rightarrow> char \<Rightarrow> bool" where
  "between lo hi c \<longleftrightarrow> lo \<le> c \<and> c \<le> hi"

definition lower_alnum :: "char \<Rightarrow> bool" where
  "lower_alnum c \<longleftrightarrow> is_digit c \<or> between (CHR ''a'') (CHR ''z'') c"

definition alpha :: "char \<Rightarrow> bool" where
  "alpha c \<longleftrightarrow> between (CHR ''a'') (CHR ''z'') c \<or> between (CHR ''A'') (CHR ''Z'') c"

definition dns_part :: "string \<Rightarrow> bool" where
  "dns_part s \<longleftrightarrow> s \<noteq> [] \<and> lower_alnum (hd s) \<and> lower_alnum (last s) \<and> list_all (\<lambda>c. lower_alnum c \<or> c = CHR ''-'') s"

definition dnsLabel :: "string \<Rightarrow> bool" where
  "dnsLabel s \<longleftrightarrow> dns_part s \<and> length s \<le> 63"

fun parts_at :: "char \<Rightarrow> string \<Rightarrow> string list" where
  "parts_at d [] = [[]]"
| "parts_at d (c # cs) = (if c = d then [] # parts_at d cs
     else case parts_at d cs of [] \<Rightarrow> [[c]] | p # ps \<Rightarrow> (c # p) # ps)"

definition dnsSubdomain :: "string \<Rightarrow> bool" where
  "dnsSubdomain s \<longleftrightarrow> list_all dns_part (parts_at (CHR ''.'') s)"

definition configMapKey :: "string \<Rightarrow> bool" where
  "configMapKey s \<longleftrightarrow> s \<noteq> [] \<and> list_all (\<lambda>c. alpha c \<or> is_digit c \<or> c \<in> {CHR ''-'', CHR ''.'', CHR ''_''}) s"

definition envVarName :: "string \<Rightarrow> bool" where
  "envVarName s = (case s of [] \<Rightarrow> False | c # cs \<Rightarrow>
     (alpha c \<or> c = CHR ''_'') \<and> list_all (\<lambda>c. alpha c \<or> is_digit c \<or> c = CHR ''_'') cs)"

definition checked :: "string \<Rightarrow> string \<Rightarrow> bool \<Rightarrow> reason \<Rightarrow> field_error list" where
  "checked f s ok r = (if \<not> given s then required f s else if \<not> ok then errorf f r else [])"

definition claimPools :: "claim_pools option \<Rightarrow> field_error list" where
  "claimPools k = (let f = ''pool_manager.claim'' in case k of
     None \<Rightarrow> errorf (f @ ''.holder_service_account'') HolderRequired
   | Some k \<Rightarrow> let ca = cp_serving_ca k in
       (if cp_kubeconfig k \<noteq> [] then absPath (f @ ''.kubeconfig'') (cp_kubeconfig k)
        else if cp_context k \<noteq> [] then errorf (f @ ''.context'') NeedsKubeconfig else [])
       @ (if cp_namespace k \<noteq> [] \<and> \<not> dnsLabel (cp_namespace k) then errorf (f @ ''.namespace'') (NotNamespace (cp_namespace k)) else [])
       @ checked (f @ ''.holder_service_account'') (cp_holder k)
           (length (cp_holder k) \<le> 253 \<and> dnsSubdomain (cp_holder k)) (NotSubdomain (cp_holder k))
       @ checked (f @ ''.serving_ca.namespace'') (ca_namespace ca) (dnsLabel (ca_namespace ca)) (NotNamespace (ca_namespace ca))
       @ checked (f @ ''.serving_ca.name'') (ca_name ca)
           (length (ca_name ca) \<le> 253 \<and> dnsSubdomain (ca_name ca)) (NotSubdomain (ca_name ca))
       @ checked (f @ ''.serving_ca.key'') (ca_key ca)
           (length (ca_key ca) \<le> 253 \<and> configMapKey (ca_key ca)) (NotMapKey (ca_key ca)))"

definition check_pool_manager :: "pool_manager \<Rightarrow> field_error list" where
  "check_pool_manager pm =
     (if pm_backend pm = [] \<or> pm_backend pm = PoolBackendBattery
      then (if pm_claim pm \<noteq> None then errorf ''pool_manager.claim'' ClaimNotRead else [])
      else if pm_backend pm = PoolBackendClaim then claimPools (pm_claim pm)
      else errorf ''pool_manager.backend'' (BackendUnknown (pm_backend pm)))
     @ (if given (pm_endpoint pm) then hostPort ''pool_manager.endpoint'' (pm_endpoint pm)
        else if \<not> IsClaim pm then errorf ''pool_manager.endpoint'' EndpointRequired else [])
     @ clientTLS ''pool_manager.tls'' (pm_tls pm)
     @ positive ''pool_manager.deadline'' (pm_deadline pm)
     @ positive ''pool_manager.health_backoff'' (pm_health_backoff pm)
     @ positive ''pool_manager.health_interval'' (pm_health_interval pm)
     @ positive ''pool_manager.health_failure_threshold'' (pm_health_threshold pm)
     @ positive ''pool_manager.events_poll_interval'' (pm_events_poll pm)
     @ positive ''pool_manager.declare_retry_interval'' (pm_declare_retry pm)
     @ nonNegative ''pool_manager.release_retry_limit'' (pm_release_retry pm)"

definition check_scheduler :: "scheduler_section \<Rightarrow> field_error list" where
  "check_scheduler s =
     checked ''scheduler.namespace'' (ss_namespace s) (\<not> ContainsAny (ss_namespace s) name_delims) (SpaceOrSlash (ss_namespace s))
     @ positive ''scheduler.allocation_timeout'' (ss_allocation_timeout s)
     @ positive ''scheduler.host_health_interval'' (ss_host_health_interval s)
     @ positive ''scheduler.host_unhealthy_threshold'' (ss_host_unhealthy_threshold s)
     @ positive ''scheduler.host_call_deadline'' (ss_host_call_deadline s)
     @ (if ss_keep_on_failure s then positive ''scheduler.keep_duration'' (ss_keep_duration s)
        else nonNegative ''scheduler.keep_duration'' (ss_keep_duration s))"

definition check_executor :: "executor_section \<Rightarrow> field_error list" where
  "check_executor e =
     positive ''executor.prepare_timeout'' (es_prepare_timeout e)
     @ positive ''executor.graceful_kill_timeout'' (es_graceful_kill_timeout e)
     @ positive ''executor.transport_deadline'' (es_transport_deadline e)"

section \<open>Host services\<close>

fun check_ports :: "(string \<times> service) list \<Rightarrow> (int, string) gomap \<Rightarrow> field_error list" where
  "check_ports [] ports = []"
| "check_ports ((name, svc) # rest) ports =
     (let f = ''host_services.'' @ name @ ''.port''
      in port f (sv_port svc)
         @ (if \<not> IsEnabled svc then check_ports rest ports
            else case mget ports (sv_port svc) of
              Some other \<Rightarrow> errorf f (PortTaken (sv_port svc) other) @ check_ports rest ports
            | None \<Rightarrow> check_ports rest (mput (sv_port svc) name ports)))"

definition check_buildkit :: "buildkit \<Rightarrow> field_error list" where
  "check_buildkit b =
     nonNegative ''host_services.buildkit.storage_limit'' (bk_storage_limit b)
     @ (if bk_gc_policy b \<noteq> [] \<and> \<not> IsEnabled (bk_service b) then errorf ''host_services.buildkit.gc_policy'' PolicyOfDisabled else [])"

definition check_go_proxy :: "url_parse \<Rightarrow> go_proxy \<Rightarrow> field_error list" where
  "check_go_proxy parse g =
     snd (httpURL parse ''host_services.go_proxy.upstream'' (gp_upstream g))
     @ concat (map (\<lambda>(i, p). required (indexed ''host_services.go_proxy.private_patterns'' i) p) (enumerate 0 (gp_private_patterns g)))
     @ (if gp_private_patterns g \<noteq> [] \<and> \<not> given (gp_credential_parameter g)
        then errorf ''host_services.go_proxy.credential_parameter'' CredentialRequired else [])
     @ (if gp_private_patterns g = [] \<and> gp_private_vcs_host g \<noteq> []
        then errorf ''host_services.go_proxy.private_vcs_host'' HostWithoutPatterns else [])
     @ nonNegative ''host_services.go_proxy.private_revalidate_interval'' (gp_private_revalidate g)
     @ nonNegative ''host_services.go_proxy.storage_limit'' (gp_storage_limit g)
     @ concat (map (\<lambda>(i, m). checked (indexed ''host_services.go_proxy.prewarm'' i) m (Contains m ''@'') (NotModuleVersion m))
         (enumerate 0 (gp_prewarm g)))"

fun mirror_upstreams :: "url_parse \<Rightarrow> nat \<Rightarrow> registry_upstream list \<Rightarrow> seen \<Rightarrow> field_error list" where
  "mirror_upstreams parse i [] seen = []"
| "mirror_upstreams parse i (u # us) seen =
     (let f = indexed ''host_services.registry_mirror.upstreams'' i @ ''.url''
      in case httpURL parse f (ru_url u) of
           (None, es) \<Rightarrow> es @ mirror_upstreams parse (Suc i) us seen
         | (Some _, es) \<Rightarrow> (case mget seen (ru_url u) of
             Some j \<Rightarrow> errorf f (DuplicateOf j (ru_url u)) @ mirror_upstreams parse (Suc i) us seen
           | None \<Rightarrow> mirror_upstreams parse (Suc i) us (mput (ru_url u) i seen)))"

definition check_registry_mirror :: "url_parse \<Rightarrow> registry_mirror \<Rightarrow> field_error list" where
  "check_registry_mirror parse r =
     mirror_upstreams parse 0 (rm_upstreams r) []
     @ nonNegative ''host_services.registry_mirror.storage_limit'' (rm_storage_limit r)
     @ concat (map (\<lambda>(i, img). let f = indexed ''host_services.registry_mirror.prewarm'' i in
         if \<not> given img then required f img
         else case ParseImageRef img of Inl e \<Rightarrow> errorf f (BadImage e) | Inr _ \<Rightarrow> []) (enumerate 0 (rm_prewarm r)))"

definition cache_upstream :: "url_parse \<Rightarrow> nat \<Rightarrow> http_upstream \<Rightarrow> seen \<times> seen \<Rightarrow> field_error list \<times> (seen \<times> seen)" where
  "cache_upstream parse i u t = (case t of (names, envs) \<Rightarrow>
     let f = indexed ''host_services.http_cache.upstreams'' i
     in ((if \<not> given (hu_name u) then required (f @ ''.name'') (hu_name u)
          else case mget names (hu_name u) of Some j \<Rightarrow> errorf (f @ ''.name'') (DuplicateOf j (hu_name u)) | None \<Rightarrow> [])
         @ snd (httpURL parse (f @ ''.url'') (hu_url u))
         @ nonNegative (f @ ''.size_limit'') (hu_size_limit u)
         @ nonNegative (f @ ''.ttl'') (hu_ttl u)
         @ (if \<not> given (hu_env_var u) then required (f @ ''.env_var'') (hu_env_var u)
            else if \<not> envVarName (hu_env_var u) then errorf (f @ ''.env_var'') (NotEnvVar (hu_env_var u))
            else case mget envs (hu_env_var u) of
              Some j \<Rightarrow> errorf (f @ ''.env_var'') (DuplicateOf j (hu_env_var u)) | None \<Rightarrow> []),
         (if given (hu_name u) \<and> mget names (hu_name u) = None then mput (hu_name u) i names else names,
          if given (hu_env_var u) \<and> envVarName (hu_env_var u) \<and> mget envs (hu_env_var u) = None
          then mput (hu_env_var u) i envs else envs)))"

fun check_http_cache :: "url_parse \<Rightarrow> nat \<Rightarrow> http_upstream list \<Rightarrow> seen \<times> seen \<Rightarrow> field_error list" where
  "check_http_cache parse i [] t = []"
| "check_http_cache parse i (u # us) t =
     (case cache_upstream parse i u t of (es, t1) \<Rightarrow> es @ check_http_cache parse (Suc i) us t1)"

text \<open>The storage limits of the enabled services, added up in int64.\<close>

definition storage_limits :: "host_services \<Rightarrow> int" where
  "storage_limits hs =
     (let l1 = (if IsEnabled (bk_service (hs_buildkit hs)) then i64 (0 + bk_storage_limit (hs_buildkit hs)) else 0);
          l2 = (if IsEnabled (gp_service (hs_go_proxy hs)) then i64 (l1 + gp_storage_limit (hs_go_proxy hs)) else l1);
          l3 = (if IsEnabled (rm_service (hs_registry_mirror hs)) then i64 (l2 + rm_storage_limit (hs_registry_mirror hs)) else l2)
      in if IsEnabled (ht_service (hs_http_cache hs))
         then foldl (\<lambda>l u. i64 (l + hu_size_limit u)) l3 (ht_upstreams (hs_http_cache hs)) else l3)"

definition check_host_services :: "url_parse \<Rightarrow> host_services \<Rightarrow> field_error list" where
  "check_host_services parse hs =
     (let cv = hs_cache_volume hs; limits = storage_limits hs
      in check_ports [(''buildkit'', bk_service (hs_buildkit hs)), (''go_proxy'', gp_service (hs_go_proxy hs)),
           (''registry_mirror'', rm_service (hs_registry_mirror hs)), (''http_cache'', ht_service (hs_http_cache hs))] []
         @ check_buildkit (hs_buildkit hs)
         @ check_go_proxy parse (hs_go_proxy hs)
         @ check_registry_mirror parse (hs_registry_mirror hs)
         @ check_http_cache parse 0 (ht_upstreams (hs_http_cache hs)) ([], [])
         @ (if cv_device cv \<noteq> [] \<and> cv_directory cv \<noteq> [] then errorf ''host_services.cache_volume'' DeviceAndDirectory
            else if cv_device cv \<noteq> [] then absPath ''host_services.cache_volume.device'' (cv_device cv)
            else if cv_directory cv \<noteq> [] then absPath ''host_services.cache_volume.directory'' (cv_directory cv)
            else errorf ''host_services.cache_volume'' DeviceOrDirectory)
         @ (if cv_size_cap cv \<le> 0 then errorf ''host_services.cache_volume.size_cap'' (SizeNotPositive (cv_size_cap cv)) else [])
         @ (if cv_size_cap cv > 0 \<and> limits > cv_size_cap cv
            then errorf ''host_services.cache_volume.size_cap'' (CapTooSmall (cv_size_cap cv) limits) else []))"

section \<open>The rest and the whole\<close>

definition check_distributed_cache :: "url_parse \<Rightarrow> distributed_cache option \<Rightarrow> field_error list" where
  "check_distributed_cache parse dc = (case dc of
     None \<Rightarrow> []
   | Some dc \<Rightarrow>
       required ''distributed_cache.bucket'' (dc_bucket dc)
       @ required ''distributed_cache.region'' (dc_region dc)
       @ (if HasPrefix (dc_prefix dc) ''/'' then errorf ''distributed_cache.prefix'' (LeadingSlash (dc_prefix dc)) else [])
       @ (if dc_insecure dc then errorf ''distributed_cache.insecure'' InsecureCache else [])
       @ (if dc_endpoint dc = [] then []
          else case httpURL parse ''distributed_cache.endpoint'' (dc_endpoint dc) of
            (None, es) \<Rightarrow> es
          | (Some u, es) \<Rightarrow> es
              @ (if u_path u \<noteq> [] \<and> u_path u \<noteq> ''/'' then errorf ''distributed_cache.endpoint'' (HasPath (dc_endpoint dc)) else [])
              @ (if u_scheme u = ''http'' then errorf ''distributed_cache.endpoint'' (NotHttps (dc_endpoint dc)) else [])))"

definition check_observability :: "observability \<Rightarrow> field_error list" where
  "check_observability ob =
     (if ob_log_format ob \<in> {''json'', ''text''} then [] else errorf ''observability.log_format'' (BadLogFormat (ob_log_format ob)))
     @ (if ToLower (ob_log_level ob) \<in> {''debug'', ''info'', ''warn'', ''error''} then []
        else errorf ''observability.log_level'' (BadLogLevel (ob_log_level ob)))
     @ checked ''observability.listen_address'' (ob_listen_address ob) (SplitHostPort (ob_listen_address ob) \<noteq> None)
         (BadListenAddress (ob_listen_address ob))"

text \<open>\<open>Validate\<close>: the empty list is nil, any other the \<open>ValidationError\<close>.\<close>

definition Validate :: "url_parse \<Rightarrow> config \<Rightarrow> field_error list" where
  "Validate parse c =
     check_gitlab parse (cf_gitlab c)
     @ check_profiles c
     @ check_inventory c
     @ check_pool_manager (cf_pool_manager c)
     @ check_scheduler (cf_scheduler c)
     @ check_executor (cf_executor c)
     @ check_host_services parse (cf_host_services c)
     @ check_distributed_cache parse (cf_distributed_cache c)
     @ check_observability (cf_observability c)
     @ absPath ''state_dir'' (cf_state_dir c)"

text \<open>\<open>ValidationError.First\<close>.\<close>

definition First :: "field_error list \<Rightarrow> field_error" where
  "First es = hd es"

end
