(* ===== verification/Config_Defaults.thy ===== *)
theory Config_Defaults
  imports Config_Types
begin

text \<open>
  \<open>internal/config/defaults.go\<close>: one function per section, composed as \<open>ApplyDefaults\<close>
  composes them. What \<open>os.Hostname\<close> answers and the architecture the Runner was built for
  are arguments. Integers are int64, so the default concurrency is computed with wrap-around.
\<close>

definition if_zero :: "int \<Rightarrow> int \<Rightarrow> int" where
  "if_zero d n = (if n = 0 then d else n)"

definition if_empty :: "string \<Rightarrow> string \<Rightarrow> string" where
  "if_empty d s = (if s = [] then d else s)"

lemma if_zero_twice [simp]: "if_zero d (if_zero d n) = if_zero d n"
  by (simp add: if_zero_def)

lemma if_empty_twice [simp]: "if_empty d (if_empty d s) = if_empty d s"
  by (simp add: if_empty_def)

abbreviation hour :: duration where "hour \<equiv> 3600 * second"

fun sum_sizes :: "int \<Rightarrow> profile list \<Rightarrow> int" where
  "sum_sizes acc [] = acc"
| "sum_sizes acc (p # ps) = sum_sizes (i64 (acc + ps_size (pr_pool p))) ps"

definition defaultConcurrency :: "profile list \<Rightarrow> int" where
  "defaultConcurrency ps = i64 (2 * sum_sizes 0 ps)"

definition applyGitLabDefaults :: "string option \<Rightarrow> profile list \<Rightarrow> gitlab \<Rightarrow> gitlab" where
  "applyGitLabDefaults hostname ps g = g\<lparr>
     gl_name := (if gl_name g = [] then (case hostname of Some h \<Rightarrow> h | None \<Rightarrow> []) else gl_name g),
     gl_concurrent := if_zero (defaultConcurrency ps) (gl_concurrent g),
     gl_check_interval := if_zero (3 * second) (gl_check_interval g),
     gl_output_limit_kb := if_zero 4096 (gl_output_limit_kb g),
     gl_shutdown_timeout := if_zero (30 * second) (gl_shutdown_timeout g)\<rparr>"

definition applySchedulerDefaults :: "string \<Rightarrow> scheduler_section \<Rightarrow> scheduler_section" where
  "applySchedulerDefaults runner s = s\<lparr>
     ss_namespace := if_empty runner (ss_namespace s),
     ss_allocation_timeout := if_zero (300 * second) (ss_allocation_timeout s),
     ss_host_health_interval := if_zero (10 * second) (ss_host_health_interval s),
     ss_host_unhealthy_threshold := if_zero 3 (ss_host_unhealthy_threshold s),
     ss_host_call_deadline := if_zero (10 * second) (ss_host_call_deadline s),
     ss_keep_duration := (if ss_keep_on_failure s then if_zero hour (ss_keep_duration s) else ss_keep_duration s)\<rparr>"

fun shared_arch :: "string \<Rightarrow> inventory_host list \<Rightarrow> string" where
  "shared_arch sh [] = sh"
| "shared_arch sh (h # hs) =
     (if sh = [] then shared_arch (ih_arch h) hs
      else if ih_arch h \<noteq> sh then [] else shared_arch sh hs)"

definition defaultArch :: "string \<Rightarrow> inventory_host list \<Rightarrow> string" where
  "defaultArch goarch hosts = (let sh = shared_arch [] hosts in if sh \<noteq> [] then sh else goarch)"

definition pool_defaults :: "string \<Rightarrow> string \<Rightarrow> pool_settings \<Rightarrow> pool_settings" where
  "pool_defaults name namespace ps = ps\<lparr>
     ps_name := if_empty name (ps_name ps),
     ps_namespace := if_empty namespace (ps_namespace ps),
     ps_strategy := if_empty ReplenishImmediateOnLease (ps_strategy ps),
     ps_hook_failure_policy :=
       (if ps_hook_failure_policy ps = [] \<and> (ps_create_hooks ps \<noteq> [] \<or> ps_pre_lease_hooks ps \<noteq> [])
        then HookFailureDeleteAndReplace else ps_hook_failure_policy ps),
     ps_heartbeat_interval := if_zero (10 * second) (ps_heartbeat_interval ps),
     ps_heartbeat_expiry := if_zero (30 * second) (ps_heartbeat_expiry ps)\<rparr>"

definition transport_defaults :: "string \<Rightarrow> transport \<Rightarrow> transport" where
  "transport_defaults user t =
     (let t1 = t\<lparr>tp_kind := if_empty TransportExec (tp_kind t)\<rparr>
      in if tp_kind t1 = TransportSSH then t1\<lparr>tp_ssh := (tp_ssh t1)\<lparr>ssh_user := if_empty user (ssh_user (tp_ssh t1))\<rparr>\<rparr> else t1)"

definition profile_defaults :: "string \<Rightarrow> string \<Rightarrow> profile \<Rightarrow> profile" where
  "profile_defaults arch namespace p = p\<lparr>
     pr_arch := if_empty arch (pr_arch p),
     pr_vcpu := if_zero 2 (pr_vcpu p),
     pr_memory_mb := if_zero 2048 (pr_memory_mb p),
     pr_shell := if_empty ''/bin/bash'' (pr_shell p),
     pr_builds_dir := if_empty ''/builds'' (pr_builds_dir p),
     pr_cache_dir := if_empty ''/cache'' (pr_cache_dir p),
     pr_helper_path := if_empty ''/usr/local/bin/gitlab-runner-helper'' (pr_helper_path p),
     pr_transport := transport_defaults (if_empty ''root'' (pr_user p)) (pr_transport p),
     pr_user := if_empty ''root'' (pr_user p),
     pr_ready_timeout := if_zero (60 * second) (pr_ready_timeout p),
     pr_pool := pool_defaults (pr_name p) namespace (pr_pool p)\<rparr>"

definition applyProfileDefaults :: "string \<Rightarrow> inventory_host list \<Rightarrow> string \<Rightarrow> profile list \<Rightarrow> profile list" where
  "applyProfileDefaults goarch hosts namespace ps =
     (let qs = map (profile_defaults (defaultArch goarch hosts) namespace) ps
      in case qs of [q] \<Rightarrow> [q\<lparr>pr_default := True\<rparr>] | _ \<Rightarrow> qs)"

definition applyClaimDefaults :: "pool_manager \<Rightarrow> pool_manager" where
  "applyClaimDefaults pm =
     (let c = (case pm_claim pm of
            Some c \<Rightarrow> c
          | None \<Rightarrow> \<lparr>cp_kubeconfig = [], cp_context = [], cp_namespace = [], cp_holder = [],
              cp_serving_ca = \<lparr>ca_namespace = [], ca_name = [], ca_key = []\<rparr>\<rparr>);
          ca = cp_serving_ca c
      in pm\<lparr>pm_claim := Some (c\<lparr>cp_serving_ca := ca\<lparr>
           ca_namespace := if_empty ''battery-operator-system'' (ca_namespace ca),
           ca_name := if_empty ''flintlockd-ca'' (ca_name ca),
           ca_key := if_empty ''serving-ca.crt'' (ca_key ca)\<rparr>\<rparr>)\<rparr>)"

definition applyPoolManagerDefaults :: "pool_manager \<Rightarrow> pool_manager" where
  "applyPoolManagerDefaults pm =
     (let pm1 = pm\<lparr>
        pm_deadline := if_zero (10 * second) (pm_deadline pm),
        pm_health_backoff := if_zero (30 * second) (pm_health_backoff pm),
        pm_health_interval := if_zero (10 * second) (pm_health_interval pm),
        pm_health_threshold := if_zero 3 (pm_health_threshold pm),
        pm_events_poll := if_zero (5 * second) (pm_events_poll pm),
        pm_declare_retry := if_zero (30 * second) (pm_declare_retry pm),
        pm_release_retry := if_zero 5 (pm_release_retry pm)\<rparr>
      in if IsClaim pm1 then applyClaimDefaults pm1 else pm1)"

definition applyExecutorDefaults :: "executor_section \<Rightarrow> executor_section" where
  "applyExecutorDefaults e = e\<lparr>
     es_prepare_timeout := if_zero (300 * second) (es_prepare_timeout e),
     es_graceful_kill_timeout := if_zero (30 * second) (es_graceful_kill_timeout e),
     es_transport_deadline := if_zero (30 * second) (es_transport_deadline e)\<rparr>"

definition applyServiceDefaults :: "int \<Rightarrow> service \<Rightarrow> service" where
  "applyServiceDefaults port s = s\<lparr>
     sv_enabled := (case sv_enabled s of None \<Rightarrow> Some True | Some b \<Rightarrow> Some b),
     sv_port := if_zero port (sv_port s)\<rparr>"

definition applyHostServicesDefaults :: "host_services \<Rightarrow> host_services" where
  "applyHostServicesDefaults hs =
     (let bk = hs_buildkit hs; gp = hs_go_proxy hs; rm = hs_registry_mirror hs; ht = hs_http_cache hs; cv = hs_cache_volume hs
      in hs\<lparr>
        hs_buildkit := bk\<lparr>bk_service := applyServiceDefaults 1234 (bk_service bk)\<rparr>,
        hs_go_proxy := gp\<lparr>gp_service := applyServiceDefaults 3000 (gp_service gp),
          gp_upstream := if_empty ''https://proxy.golang.org'' (gp_upstream gp),
          gp_private_revalidate := (if gp_private_patterns gp \<noteq> [] then if_zero (24 * hour) (gp_private_revalidate gp)
            else gp_private_revalidate gp)\<rparr>,
        hs_registry_mirror := rm\<lparr>rm_service := applyServiceDefaults 5000 (rm_service rm),
          rm_upstreams := (if rm_upstreams rm = []
            then [\<lparr>ru_url = ''https://registry-1.docker.io'', ru_credential_parameter = []\<rparr>] else rm_upstreams rm)\<rparr>,
        hs_http_cache := ht\<lparr>ht_service := applyServiceDefaults 3128 (ht_service ht),
          ht_upstreams := map (\<lambda>u. u\<lparr>hu_ttl := if_zero (24 * hour) (hu_ttl u)\<rparr>) (ht_upstreams ht)\<rparr>,
        hs_cache_volume := cv\<lparr>
          cv_directory := (if cv_device cv = [] \<and> cv_directory cv = [] then ''/var/lib/flintlock-runner/cache'' else cv_directory cv),
          cv_size_cap := if_zero (200 * 2 ^ 30) (cv_size_cap cv)\<rparr>\<rparr>)"

definition applyDistributedCacheDefaults :: "distributed_cache option \<Rightarrow> distributed_cache option" where
  "applyDistributedCacheDefaults dc = map_option (\<lambda>dc.
     if dc_region dc = [] \<and> dc_endpoint dc \<noteq> [] then dc\<lparr>dc_region := ''us-east-1''\<rparr> else dc) dc"

abbreviation LogJSON :: string where "LogJSON \<equiv> ''json''"
abbreviation LogText :: string where "LogText \<equiv> ''text''"

definition applyObservabilityDefaults :: "observability \<Rightarrow> observability" where
  "applyObservabilityDefaults ob = ob\<lparr>
     ob_log_format := if_empty LogJSON (ob_log_format ob),
     ob_log_level := if_empty ''info'' (ob_log_level ob),
     ob_listen_address := if_empty '':9252'' (ob_listen_address ob)\<rparr>"

text \<open>What the process finds around it: the host name, if it can be read, and \<open>GOARCH\<close>.\<close>

record surroundings =
  su_hostname :: "string option"
  su_goarch :: string

definition ApplyDefaults :: "surroundings \<Rightarrow> config \<Rightarrow> config" where
  "ApplyDefaults su c =
     (let g = applyGitLabDefaults (su_hostname su) (cf_profiles c) (cf_gitlab c);
          s = applySchedulerDefaults (gl_name g) (cf_scheduler c)
      in c\<lparr>cf_gitlab := g,
           cf_scheduler := s,
           cf_profiles := applyProfileDefaults (su_goarch su) (inv_hosts (cf_inventory c)) (ss_namespace s) (cf_profiles c),
           cf_pool_manager := applyPoolManagerDefaults (cf_pool_manager c),
           cf_executor := applyExecutorDefaults (cf_executor c),
           cf_host_services := applyHostServicesDefaults (cf_host_services c),
           cf_distributed_cache := applyDistributedCacheDefaults (cf_distributed_cache c),
           cf_observability := applyObservabilityDefaults (cf_observability c),
           cf_state_dir := if_empty ''/var/lib/flintlock-runner'' (cf_state_dir c)\<rparr>)"

section \<open>Applying them again\<close>

lemmas defaults_defs = applySchedulerDefaults_def pool_defaults_def transport_defaults_def
  applyClaimDefaults_def applyExecutorDefaults_def applyServiceDefaults_def
  applyDistributedCacheDefaults_def applyObservabilityDefaults_def

lemma transport_defaults_twice: "transport_defaults u (transport_defaults u t) = transport_defaults u t"
  by (cases t, cases "tp_ssh t") (simp add: transport_defaults_def Let_def if_empty_def)

lemma pool_defaults_twice: "pool_defaults n ns (pool_defaults n ns ps) = pool_defaults n ns ps"
  by (cases ps) (simp add: pool_defaults_def)

lemma profile_defaults_twice: "profile_defaults a ns (profile_defaults a ns p) = profile_defaults a ns p"
  by (cases p) (simp add: profile_defaults_def transport_defaults_twice pool_defaults_twice)

lemma profile_defaults_default: "profile_defaults a ns (p\<lparr>pr_default := b\<rparr>) = (profile_defaults a ns p)\<lparr>pr_default := b\<rparr>"
  by (cases p) (simp add: profile_defaults_def)

lemma applyProfileDefaults_twice:
  "applyProfileDefaults a hs ns (applyProfileDefaults a hs ns ps) = applyProfileDefaults a hs ns ps"
  by (auto simp: applyProfileDefaults_def Let_def profile_defaults_twice profile_defaults_default split: list.splits)

lemma sum_sizes_foldl: "sum_sizes acc ps = foldl (\<lambda>a n. i64 (a + n)) acc (map (\<lambda>p. ps_size (pr_pool p)) ps)"
  by (induction ps arbitrary: acc) simp_all

lemma profile_defaults_size: "ps_size (pr_pool (profile_defaults a ns p)) = ps_size (pr_pool p)"
  by (simp add: profile_defaults_def pool_defaults_def)

lemma applyProfileDefaults_sizes: "map (\<lambda>p. ps_size (pr_pool p)) (applyProfileDefaults a hs ns ps) = map (\<lambda>p. ps_size (pr_pool p)) ps"
proof -
  consider p where "ps = [p]" | "ps = []" | p q qs where "ps = p # q # qs" by (metis list.exhaust)
  then show ?thesis by cases (simp_all add: applyProfileDefaults_def Let_def profile_defaults_size)
qed

lemma applyGitLabDefaults_twice:
  "defaultConcurrency qs = defaultConcurrency ps \<Longrightarrow>
   applyGitLabDefaults h qs (applyGitLabDefaults h ps g) = applyGitLabDefaults h ps g"
  by (cases g; cases h) (auto simp: applyGitLabDefaults_def)

lemma applyHostServicesDefaults_twice: "applyHostServicesDefaults (applyHostServicesDefaults hs) = applyHostServicesDefaults hs"
  by (auto simp: applyHostServicesDefaults_def applyServiceDefaults_def Let_def split: option.splits)

lemma applyPoolManagerDefaults_twice: "applyPoolManagerDefaults (applyPoolManagerDefaults pm) = applyPoolManagerDefaults pm"
  by (auto simp: applyPoolManagerDefaults_def applyClaimDefaults_def IsClaim_def Let_def)

lemma section_defaults_twice:
  "applySchedulerDefaults r (applySchedulerDefaults r s) = applySchedulerDefaults r s"
  "applyExecutorDefaults (applyExecutorDefaults e) = applyExecutorDefaults e"
  "applyDistributedCacheDefaults (applyDistributedCacheDefaults dc) = applyDistributedCacheDefaults dc"
  "applyObservabilityDefaults (applyObservabilityDefaults ob) = applyObservabilityDefaults ob"
     apply (simp add: defaults_defs)
    apply (simp add: defaults_defs)
   apply (cases dc)
    apply (simp_all add: defaults_defs)
  done

text \<open>
  C29. \<open>ApplyDefaults\<close> is idempotent, as its comment promises: applied to a configuration it
  has completed it changes nothing, in every section and for every input.
\<close>

theorem ApplyDefaults_idempotent: "ApplyDefaults su (ApplyDefaults su c) = ApplyDefaults su c"
proof -
  have conc: "defaultConcurrency (applyProfileDefaults a hs ns ps) = defaultConcurrency ps" for a hs ns ps
    by (simp only: defaultConcurrency_def sum_sizes_foldl applyProfileDefaults_sizes)
  show ?thesis
    by (simp add: ApplyDefaults_def Let_def conc applyGitLabDefaults_twice applyProfileDefaults_twice
        applyHostServicesDefaults_twice applyPoolManagerDefaults_twice section_defaults_twice)
qed

end
