(* ===== verification/Profile_Resolve.thy ===== *)
theory Profile_Resolve
  imports Scheduler_Props Path_Match
begin

text \<open>
  \<open>internal/scheduler/profile.go\<close>: which Profile a Job runs under. An exact image name wins
  over a pattern, patterns are tried in the order of the configuration, and the Default
  Profile is the last resort.
\<close>

definition defaultProfile :: "resolved_profile list \<Rightarrow> resolved_profile option" where
  "defaultProfile ps = List.find (\<lambda>p. pr_default (rp_profile p)) ps"

definition names_image :: "string \<Rightarrow> resolved_profile \<Rightarrow> bool" where
  "names_image img p \<longleftrightarrow> list_ex (\<lambda>name. name = img) (pr_images (rp_profile p))"

definition glob_matches :: "string \<Rightarrow> resolved_profile \<Rightarrow> bool" where
  "glob_matches img p \<longleftrightarrow> list_ex (\<lambda>pattern. Match pattern img = Matched True) (pr_image_globs (rp_profile p))"

text \<open>The error is \<open>ProfileError\<close> with the image asked for.\<close>

definition ResolveProfile :: "job_info \<Rightarrow> sched \<Rightarrow> string + resolved_profile" where
  "ResolveProfile job s =
     (let profiles = sc_profiles s; img = job_image job;
          fallback = (case defaultProfile profiles of Some p \<Rightarrow> Inr p | None \<Rightarrow> Inl img)
      in if img = [] then fallback
         else case List.find (names_image img) profiles of
           Some p \<Rightarrow> Inr p
         | None \<Rightarrow> (case List.find (glob_matches img) profiles of
             Some p \<Rightarrow> Inr p
           | None \<Rightarrow> if \<not> ss_allow_default (set_scheduler (sc_set s)) then Inl img else fallback))"

section \<open>Against the meaning of the patterns\<close>

text \<open>
  The patterns as their documentation describes them: a pattern that does not parse matches
  nothing, any other the names of its language.
\<close>

definition pattern_accepts :: "string \<Rightarrow> string \<Rightarrow> bool" where
  "pattern_accepts pattern img \<longleftrightarrow> all_parse (chunks pattern) \<and> glob (tokens (chunks pattern)) img"

lemma Match_accepts:
  assumes "no_slash_class (chunks pattern)"
  shows "Match pattern img = Matched True \<longleftrightarrow> pattern_accepts pattern img"
proof (cases "all_parse (chunks pattern)")
  case True
  then show ?thesis
    using match_chunks_glob [OF refl True assms, of img] by (simp add: Match_def pattern_accepts_def)
next
  case False
  then show ?thesis
    using match_chunks_bad [of "chunks pattern" pattern img] by (simp add: Match_def pattern_accepts_def)
qed

lemma find_first:
  "List.find P xs = Some x \<longleftrightarrow> (\<exists>as bs. xs = as @ x # bs \<and> P x \<and> list_all (\<lambda>y. \<not> P y) as)"
proof (induction xs)
  case (Cons y ys)
  show ?case
  proof (cases "P y")
    case True
    have "(\<exists>as bs. y # ys = as @ x # bs \<and> P x \<and> list_all (\<lambda>y. \<not> P y) as) \<longleftrightarrow> y = x"
    proof
      assume "\<exists>as bs. y # ys = as @ x # bs \<and> P x \<and> list_all (\<lambda>y. \<not> P y) as"
      then obtain as bs where "y # ys = as @ x # bs" "list_all (\<lambda>y. \<not> P y) as" by blast
      with True show "y = x" by (cases as) auto
    qed (use True in \<open>auto intro: exI [of _ "[]"]\<close>)
    with True show ?thesis by simp
  next
    case False
    have "(\<exists>as bs. y # ys = as @ x # bs \<and> P x \<and> list_all (\<lambda>y. \<not> P y) as)
        \<longleftrightarrow> (\<exists>as bs. ys = as @ x # bs \<and> P x \<and> list_all (\<lambda>y. \<not> P y) as)" (is "?l = ?r")
    proof
      assume ?l
      then obtain as bs where "y # ys = as @ x # bs" "P x" "list_all (\<lambda>y. \<not> P y) as" by blast
      with False show ?r by (cases as) auto
    next
      assume ?r
      then obtain as bs where "ys = as @ x # bs" "P x" "list_all (\<lambda>y. \<not> P y) as" by blast
      with False show ?l by (intro exI [of _ "y # as"] exI [of _ bs]) simp
    qed
    with False Cons.IH show ?thesis by simp
  qed
qed simp

lemma find_none: "List.find P xs = None \<longleftrightarrow> list_all (\<lambda>y. \<not> P y) xs"
  by (induction xs) auto

definition accepts_image :: "string \<Rightarrow> resolved_profile \<Rightarrow> bool" where
  "accepts_image img p \<longleftrightarrow> list_ex (\<lambda>pattern. pattern_accepts pattern img) (pr_image_globs (rp_profile p))"

definition plain_patterns :: "resolved_profile \<Rightarrow> bool" where
  "plain_patterns p \<longleftrightarrow> list_all (\<lambda>pattern. no_slash_class (chunks pattern)) (pr_image_globs (rp_profile p))"

definition first_with :: "(resolved_profile \<Rightarrow> bool) \<Rightarrow> resolved_profile list \<Rightarrow> resolved_profile \<Rightarrow> bool" where
  "first_with P ps p \<longleftrightarrow> (\<exists>before after. ps = before @ p # after \<and> P p \<and> list_all (\<lambda>q. \<not> P q) before)"

lemma glob_matches_accepts: "plain_patterns p \<Longrightarrow> glob_matches img p = accepts_image img p"
  unfolding plain_patterns_def glob_matches_def accepts_image_def by (auto simp: list_all_iff list_ex_iff Match_accepts)


text \<open>Two Profiles: a pattern that matches the image comes first, its exact name second.\<close>

definition two_profiles :: sched where
  "two_profiles = (new_sched small_settings)\<lparr>sc_profiles := resolveProfiles
     [small_profile\<lparr>pr_image_globs := [''ruby*'']\<rparr>, small_profile\<lparr>pr_name := ''exact'', pr_images := [''ruby:3'']\<rparr>] ''ns''\<rparr>"


end
