(* ===== verification/Config_Props.thy ===== *)
theory Config_Props
  imports Config_Validate Config_Defaults Profile_Resolve Registry
begin

text \<open>
  What a validated configuration guarantees its consumers, that the documented minimal
  configuration validates once the defaults are applied, and that the Profiles the
  Scheduler is then given leave no Job's Profile to the order of the file.
\<close>

section \<open>What a check that appends nothing says\<close>

named_theorems passes

lemma errorf_not_Nil [passes]: "errorf f r = [] \<longleftrightarrow> False"
  by (simp add: errorf_def)

lemma required_passes [passes]: "required f s = [] \<longleftrightarrow> given s"
  by (simp add: required_def errorf_def)

lemma positive_passes [passes]: "positive f d = [] \<longleftrightarrow> 0 < d"
  by (auto simp: positive_def errorf_def)

lemma nonNegative_passes [passes]: "nonNegative f d = [] \<longleftrightarrow> 0 \<le> d"
  by (auto simp: nonNegative_def errorf_def)

lemma port_passes [passes]: "port f p = [] \<longleftrightarrow> 1 \<le> p \<and> p \<le> 65535"
  by (auto simp: port_def errorf_def)

lemma arch_passes [passes]: "arch f a = [] \<longleftrightarrow> a = ArchAMD64 \<or> a = ArchARM64"
  by (simp add: arch_def errorf_def)

lemma absPath_passes [passes]: "absPath f p = [] \<longleftrightarrow> given p \<and> HasPrefix p ''/''"
  by (auto simp: absPath_def required_def errorf_def)

lemma checked_passes [passes]: "checked f s ok r = [] \<longleftrightarrow> given s \<and> ok"
  by (auto simp: checked_def required_def errorf_def)

lemma clientTLS_passes [passes]: "clientTLS f t = [] \<longleftrightarrow> (ct_cert_file t = [] \<longleftrightarrow> ct_key_file t = [])
    \<and> (ct_insecure t \<longrightarrow> ct_ca_file t = [] \<and> ct_cert_file t = [])"
  by (auto simp: clientTLS_def errorf_def)

lemma blank_keys_passes [passes]: "blank_keys f m = [] \<longleftrightarrow> list_all given (mkeys m)"
  by (auto simp: blank_keys_def errorf_def list_all_iff concat_eq_Nil_conv)

definition address :: "string \<Rightarrow> bool" where
  "address a \<longleftrightarrow> given a \<and> \<not> Contains a ''://'' \<and> (\<exists>host p. SplitHostPort a = Some (host, p) \<and> host \<noteq> [] \<and> p \<noteq> [])"

lemma hostPort_passes [passes]: "hostPort f a = [] \<longleftrightarrow> address a"
  by (auto simp: hostPort_def address_def required_def errorf_def split: option.splits)

definition http_url :: "url_parse \<Rightarrow> string \<Rightarrow> bool" where
  "http_url parse raw \<longleftrightarrow> given raw \<and> (case parse raw of None \<Rightarrow> False
     | Some u \<Rightarrow> u_host u \<noteq> [] \<and> u_scheme u \<in> {''http'', ''https''})"

lemma httpURL_passes [passes]: "snd (httpURL parse f raw) = [] \<longleftrightarrow> http_url parse raw"
  by (auto simp: httpURL_def http_url_def required_def errorf_def split: option.splits)

lemma concat_enumerate [passes]:
  assumes "\<And>i x. (g i x = []) = P x"
  shows "concat (map (\<lambda>(i, x). g i x) (enumerate n xs)) = [] \<longleftrightarrow> list_all P xs"
  by (induction xs arbitrary: n) (simp_all add: assms del: concat_eq_Nil_conv)

section \<open>Profiles\<close>

definition pinned_image :: "string \<Rightarrow> bool" where
  "pinned_image ref = (case ParseImageRef ref of Inl e \<Rightarrow> False | Inr r \<Rightarrow> Pinned r)"

definition pool_ok :: "pool_settings \<Rightarrow> bool" where
  "pool_ok ps \<longleftrightarrow> 0 < ps_size ps \<and> given (ps_name ps) \<and> given (ps_namespace ps)
     \<and> ps_strategy ps \<in> {ReplenishImmediateOnLease, ReplenishMinSizeThreshold, ReplenishReplaceOnDelete}
     \<and> (ps_strategy ps = ReplenishMinSizeThreshold \<longrightarrow> ps_min_size ps \<noteq> None)
     \<and> (case ps_min_size ps of None \<Rightarrow> True | Some n \<Rightarrow> 0 \<le> n \<and> n \<le> ps_size ps)
     \<and> list_all given (ps_create_hooks ps) \<and> list_all given (ps_pre_lease_hooks ps)
     \<and> ps_hook_failure_policy ps \<in> {[], HookFailureDeleteAndReplace, HookFailureQuarantine}
     \<and> 0 < ps_heartbeat_interval ps \<and> ps_heartbeat_interval ps < ps_heartbeat_expiry ps"

lemma poolSettings_passes [passes]: "poolSettings f ps = [] \<longleftrightarrow> pool_ok ps"
proof -
  have 1: "concat (map (\<lambda>(i, h). required (indexed g i) h) (enumerate 0 hs)) = [] \<longleftrightarrow> list_all given hs" for g hs
    by (rule concat_enumerate) (simp add: passes)
  show ?thesis
    unfolding poolSettings_def pool_ok_def append_is_Nil_conv 1
    by (cases "ps_min_size ps") (auto simp: passes split: if_splits)
qed

definition profile_refs :: "profile \<Rightarrow> string list" where
  "profile_refs p = k_image (pr_kernel p) # pr_rootfs p # (case pr_initrd p of None \<Rightarrow> [] | Some ird \<Rightarrow> [ird_image ird])
     @ map vol_image (pr_volumes p)"

lemma map_snd_enumerated: "map snd (map (\<lambda>(i, v). (f i, g v)) (enumerate n xs)) = map g xs"
  by (induction xs arbitrary: n) simp_all

lemma profile_images_refs: "map snd (profile_images f p) = profile_refs p"
  using map_snd_enumerated [of "\<lambda>i. indexed (f @ ''.additional_volumes'') i @ ''.image''" vol_image 0 "pr_volumes p"]
  by (simp add: profile_images_def profile_refs_def split: option.splits)

definition volume_ok :: "volume \<Rightarrow> bool" where
  "volume_ok v \<longleftrightarrow> given (vol_id v) \<and> 0 \<le> vol_size_mb v
     \<and> (vol_mount_point v = [] \<or> given (vol_mount_point v) \<and> HasPrefix (vol_mount_point v) ''/'')"

lemma pinned_image_given: "pinned_image ref \<Longrightarrow> given ref"
  by (auto simp: pinned_image_def ParseImageRef_def given_def Let_def split: if_splits)

lemma profileImages_passes [passes]:
  "profileImages f p = [] \<longleftrightarrow> list_all pinned_image (profile_refs p) \<and> list_all volume_ok (pr_volumes p)"
proof -
  let ?g = "\<lambda>field ref. if \<not> given ref then required field ref
        else case ParseImageRef ref of Inl e \<Rightarrow> errorf field (BadImage e)
        | Inr r \<Rightarrow> if \<not> Pinned r then errorf field (NotPinned ref) else []"
  have one: "?g field ref = [] \<longleftrightarrow> pinned_image ref" for field ref
    using pinned_image_given [of ref] by (auto simp: pinned_image_def passes split: sum.splits)
  have images: "concat (map (\<lambda>(field, ref). ?g field ref) xs) = [] \<longleftrightarrow> list_all pinned_image (map snd xs)" for xs
    by (induction xs) (auto simp: one simp del: concat_eq_Nil_conv)
  have vols: "concat (map (\<lambda>(i, v). let vf = indexed (f @ ''.additional_volumes'') i in
          required (vf @ ''.id'') (vol_id v)
          @ (if vol_mount_point v \<noteq> [] then absPath (vf @ ''.mount_point'') (vol_mount_point v) else [])
          @ nonNegative (vf @ ''.size_mb'') (vol_size_mb v)) (enumerate 0 vs)) = [] \<longleftrightarrow> list_all volume_ok vs" for vs
    by (rule concat_enumerate) (auto simp: Let_def passes volume_ok_def)
  show ?thesis
    unfolding profileImages_def append_is_Nil_conv images vols profile_images_refs by simp
qed

definition transport_ok :: "pool_manager \<Rightarrow> transport \<Rightarrow> bool" where
  "transport_ok pm t \<longleftrightarrow> tp_kind t = TransportExec
     \<or> tp_kind t = TransportSSH \<and> \<not> IsClaim pm \<and> given (ssh_private_key_file (tp_ssh t)) \<and> given (ssh_user (tp_ssh t))"

lemma profileTransport_passes [passes]: "profileTransport f p pm = [] \<longleftrightarrow> transport_ok pm (pr_transport p)"
  by (auto simp: profileTransport_def transport_ok_def Let_def passes)

lemma image_names_pass:
  "fst (image_names f i k names images) = [] \<longleftrightarrow>
     list_all given names \<and> distinct names \<and> (\<forall>n\<in>set names. mget images n = None)"
proof (induction names arbitrary: k images)
  case (Cons n ns)
  show ?case
  proof (cases "given n \<and> mget images n = None")
    case True
    then show ?thesis using Cons [of "Suc k" "mput n i images"] by (auto simp: Let_def)
  next
    case False
    then show ?thesis by (auto simp: Let_def passes split: prod.splits option.splits)
  qed
qed simp

lemma image_names_table:
  "fst (image_names f i k names images) = [] \<Longrightarrow>
   (mget (snd (image_names f i k names images)) n = None) = (n \<notin> set names \<and> mget images n = None)"
proof (induction names arbitrary: k images)
  case (Cons m ms)
  have m: "given m" "mget images m = None" using Cons.prems unfolding image_names_pass by simp_all
  then have step: "image_names f i k (m # ms) images = image_names f i (Suc k) ms (mput m i images)" by (simp add: Let_def)
  show ?case using Cons.IH [of "Suc k" "mput m i images"] Cons.prems m unfolding step by auto
qed simp

definition optional_ok :: "profile \<Rightarrow> bool" where
  "optional_ok p \<longleftrightarrow> list_all given (pr_image_globs p) \<and> list_all (\<lambda>g. Match g [] \<noteq> BadPattern) (pr_image_globs p)
     \<and> list_all given (mkeys (k_cmdline (pr_kernel p))) \<and> given (pr_user p) \<and> 0 < pr_ready_timeout p
     \<and> list_all given (mkeys (pr_host_selector p)) \<and> 0 \<le> pr_max_concurrency p"

lemma profileOptional_passes:
  "fst (profileOptional f p i images) = [] \<longleftrightarrow> fst (image_names f i 0 (pr_images p) images) = [] \<and> optional_ok p"
proof -
  have globs: "concat (map (\<lambda>(k, g). let gf = indexed (f @ ''.image_globs'') k in
          if \<not> given g then required gf g
          else if Match g [] = BadPattern then errorf gf (BadGlob g) else []) (enumerate 0 gs)) = []
      \<longleftrightarrow> list_all (\<lambda>g. given g \<and> Match g [] \<noteq> BadPattern) gs" for gs
    by (rule concat_enumerate) (auto simp: Let_def passes)
  have "list_all (\<lambda>g. given g \<and> Match g [] \<noteq> BadPattern) gs \<longleftrightarrow> list_all given gs \<and> list_all (\<lambda>g. Match g [] \<noteq> BadPattern) gs" for gs
    by (auto simp: list_all_iff)
  then show ?thesis
    unfolding profileOptional_def optional_ok_def
    by (simp add: passes globs split: prod.splits del: concat_eq_Nil_conv)
qed

lemma profileOptional_table: "snd (profileOptional f p i images) = snd (image_names f i 0 (pr_images p) images)"
  by (simp add: profileOptional_def split: prod.splits)

definition abs_path :: "string \<Rightarrow> bool" where
  "abs_path p \<longleftrightarrow> given p \<and> HasPrefix p ''/''"

text \<open>A Profile every use of which in the Runner is defined.\<close>

definition profile_ok :: "pool_manager \<Rightarrow> inventory_host list \<Rightarrow> profile \<Rightarrow> bool" where
  "profile_ok pm hs p \<longleftrightarrow> given (pr_name p) \<and> pr_arch p \<in> {ArchAMD64, ArchARM64} \<and> 0 < pr_vcpu p \<and> 0 < pr_memory_mb p
     \<and> list_all pinned_image (profile_refs p) \<and> list_all volume_ok (pr_volumes p)
     \<and> abs_path (pr_shell p) \<and> abs_path (pr_builds_dir p) \<and> abs_path (pr_cache_dir p) \<and> abs_path (pr_helper_path p)
     \<and> list_all given (pr_images p) \<and> optional_ok p \<and> transport_ok pm (pr_transport p) \<and> pool_ok (pr_pool p)
     \<and> (hs \<noteq> [] \<longrightarrow> SelectHosts p hs \<noteq> [])"

lemma check_profile_passes:
  "fst (check_profile c i p t) = [] \<longleftrightarrow>
     profile_ok (cf_pool_manager c) (inv_hosts (cf_inventory c)) p
     \<and> mget (pt_names t) (pr_name p) = None \<and> mget (pt_pools t) (pool_key p) = None
     \<and> distinct (pr_images p) \<and> (\<forall>n\<in>set (pr_images p). mget (pt_images t) n = None)"
proof -
  have opt: "fst (profileOptional f p i im) = [] \<longleftrightarrow>
      (list_all given (pr_images p) \<and> distinct (pr_images p) \<and> (\<forall>n\<in>set (pr_images p). mget im n = None)) \<and> optional_ok p" for f im
    by (simp only: profileOptional_passes image_names_pass)
  show ?thesis
    using opt [of "indexed ''profiles'' i" "pt_images t"]
    unfolding check_profile_def Let_def profile_ok_def abs_path_def
    by (cases "mget (pt_names t) (pr_name p)"; cases "mget (pt_pools t) (pool_key p)")
       (auto simp: passes split: prod.splits if_splits)
qed

lemma check_profile_tables:
  assumes "fst (check_profile c i p t) = []"
  shows "(mget (pt_names (snd (check_profile c i p t))) n = None) = (n \<noteq> pr_name p \<and> mget (pt_names t) n = None)"
    and "(mget (pt_pools (snd (check_profile c i p t))) k = None) = (k \<noteq> pool_key p \<and> mget (pt_pools t) k = None)"
    and "(mget (pt_images (snd (check_profile c i p t))) m = None) = (m \<notin> set (pr_images p) \<and> mget (pt_images t) m = None)"
proof -
  have ok: "given (pr_name p)" "mget (pt_names t) (pr_name p) = None" "mget (pt_pools t) (pool_key p) = None"
    "fst (image_names (indexed ''profiles'' i) i 0 (pr_images p) (pt_images t)) = []"
    using assms unfolding check_profile_passes image_names_pass profile_ok_def by simp_all
  have t: "pt_names (snd (check_profile c i p t)) = mput (pr_name p) i (pt_names t)"
    "pt_pools (snd (check_profile c i p t)) = mput (pool_key p) i (pt_pools t)"
    "pt_images (snd (check_profile c i p t)) = snd (image_names (indexed ''profiles'' i) i 0 (pr_images p) (pt_images t))"
    using ok(1,2,3) unfolding profileOptional_table [of "indexed ''profiles'' i" p i "pt_images t", symmetric]
    by (simp_all add: check_profile_def Let_def case_prod_beta)
  show "(mget (pt_names (snd (check_profile c i p t))) n = None) = (n \<noteq> pr_name p \<and> mget (pt_names t) n = None)"
    and "(mget (pt_pools (snd (check_profile c i p t))) k = None) = (k \<noteq> pool_key p \<and> mget (pt_pools t) k = None)"
    and "(mget (pt_images (snd (check_profile c i p t))) m = None) = (m \<notin> set (pr_images p) \<and> mget (pt_images t) m = None)"
    unfolding t by (simp_all add: image_names_table [OF ok(4)])
qed

text \<open>The names a list of Profiles takes up, none of them twice and none taken before.\<close>

definition fresh_in :: "(string, 'v) gomap \<Rightarrow> string list \<Rightarrow> bool" where
  "fresh_in m ns \<longleftrightarrow> distinct ns \<and> list_all (\<lambda>n. mget m n = None) ns"

lemma fresh_in_Cons: "(\<And>n. (mget m' n = None) = (n \<noteq> x \<and> mget m n = None)) \<Longrightarrow>
    fresh_in m (x # ns) \<longleftrightarrow> mget m x = None \<and> fresh_in m' ns"
  by (auto simp: fresh_in_def list_all_iff)

lemma fresh_in_mput: "fresh_in m (x # ns) \<longleftrightarrow> mget m x = None \<and> fresh_in (mput x i m) ns"
  by (rule fresh_in_Cons) simp

lemma fresh_in_append: "(\<And>n. (mget m' n = None) = (n \<notin> set xs \<and> mget m n = None)) \<Longrightarrow>
    fresh_in m (xs @ ns) \<longleftrightarrow> fresh_in m xs \<and> fresh_in m' ns"
  by (auto simp: fresh_in_def list_all_iff)

lemma check_each_passes:
  "check_each c i ps t = [] \<longleftrightarrow>
     list_all (profile_ok (cf_pool_manager c) (inv_hosts (cf_inventory c))) ps
     \<and> fresh_in (pt_names t) (map pr_name ps) \<and> fresh_in (pt_pools t) (map pool_key ps)
     \<and> fresh_in (pt_images t) (concat (map pr_images ps))"
proof (induction ps arbitrary: i t)
  case Nil
  then show ?case by (simp add: fresh_in_def)
next
  case (Cons p ps)
  have split: "check_each c i (p # ps) t = fst (check_profile c i p t) @ check_each c (Suc i) ps (snd (check_profile c i p t))"
    by (simp split: prod.splits)
  show ?case
  proof (cases "fst (check_profile c i p t) = []")
    case True
    note tables = check_profile_tables [OF True]
    have p: "profile_ok (cf_pool_manager c) (inv_hosts (cf_inventory c)) p" "mget (pt_names t) (pr_name p) = None"
      "mget (pt_pools t) (pool_key p) = None" "fresh_in (pt_images t) (pr_images p)"
      using True unfolding check_profile_passes by (simp_all add: fresh_in_def list_all_iff)
    show ?thesis
      unfolding split list.map concat.simps fresh_in_Cons [OF tables(1)] fresh_in_Cons [OF tables(2)] fresh_in_append [OF tables(3)]
      using True p Cons.IH by simp
  next
    case False
    have "\<not> (profile_ok (cf_pool_manager c) (inv_hosts (cf_inventory c)) p
        \<and> mget (pt_names t) (pr_name p) = None \<and> mget (pt_pools t) (pool_key p) = None \<and> fresh_in (pt_images t) (pr_images p))"
      using False unfolding check_profile_passes fresh_in_def list_all_iff by blast
    then show ?thesis
      using False unfolding split list.map concat.simps
      by (simp add: fresh_in_def list_all_iff) blast
  qed
qed

lemma check_profiles_passes:
  "check_profiles c = [] \<longleftrightarrow> cf_profiles c \<noteq> []
     \<and> list_all (profile_ok (cf_pool_manager c) (inv_hosts (cf_inventory c))) (cf_profiles c)
     \<and> distinct (map pr_name (cf_profiles c)) \<and> distinct (map pool_key (cf_profiles c))
     \<and> distinct (concat (map pr_images (cf_profiles c)))
     \<and> length (filter pr_default (cf_profiles c)) \<le> 1"
  unfolding check_profiles_def
  by (auto simp: check_each_passes passes fresh_in_def Let_def list_all_iff)

section \<open>The Inventory\<close>

definition host_ok :: "string list \<Rightarrow> inventory_host \<Rightarrow> bool" where
  "host_ok upstreams h \<longleftrightarrow> given (ih_name h) \<and> \<not> ContainsAny (ih_name h) name_delims \<and> address (ih_endpoint h)
     \<and> ih_arch h \<in> {ArchAMD64, ArchARM64} \<and> 0 < ih_vcpu h \<and> 0 < ih_memory_mb h \<and> list_all given (mkeys (ih_labels h))
     \<and> clientTLS [] (ih_tls h) = [] \<and> list_all (\<lambda>n. n \<in> set upstreams) (mkeys (sa_http_cache (ih_services h)))"

lemma check_host_passes:
  "fst (check_host us hs i h (names, eps)) = [] \<longleftrightarrow> host_ok us h \<and> mget names (ih_name h) = None
     \<and> mget eps (normaliseHostPort (ih_endpoint h)) = None"
proof -
  have ups: "concat (map (\<lambda>n. if n \<notin> set us then errorf f (UnknownUpstream n) else []) ns) = [] \<longleftrightarrow> list_all (\<lambda>n. n \<in> set us) ns" for f ns
    by (induction ns) (auto simp: passes simp del: concat_eq_Nil_conv)
  have ne: "address (ih_endpoint h) \<Longrightarrow> ih_endpoint h \<noteq> []" by (auto simp: address_def given_def TrimSpace_def)
  show ?thesis
    unfolding check_host_def host_ok_def Let_def prod.case fst_conv append_is_Nil_conv ups
    using ne by (cases "mget names (ih_name h)"; cases "mget eps (normaliseHostPort (ih_endpoint h))") (auto simp: passes)
qed

lemma check_host_tables:
  assumes "fst (check_host us hs i h (names, eps)) = []"
  shows "snd (check_host us hs i h (names, eps)) = (mput (ih_name h) i names, mput (normaliseHostPort (ih_endpoint h)) i eps)"
proof -
  have "given (ih_name h)" "mget names (ih_name h) = None" "ih_endpoint h \<noteq> []" "mget eps (normaliseHostPort (ih_endpoint h)) = None"
    using assms unfolding check_host_passes host_ok_def by (auto simp: address_def given_def TrimSpace_def)
  then show ?thesis by (simp add: check_host_def Let_def)
qed

lemma check_hosts_passes:
  "check_hosts us hs i xs (names, eps) = [] \<longleftrightarrow> list_all (host_ok us) xs \<and> fresh_in names (map ih_name xs)
     \<and> fresh_in eps (map (\<lambda>h. normaliseHostPort (ih_endpoint h)) xs)"
proof (induction xs arbitrary: i names eps)
  case Nil
  then show ?case by (simp add: fresh_in_def)
next
  case (Cons h xs)
  have split: "check_hosts us hs i (h # xs) (names, eps)
      = fst (check_host us hs i h (names, eps)) @ check_hosts us hs (Suc i) xs (snd (check_host us hs i h (names, eps)))"
    by (simp split: prod.splits)
  show ?case
  proof (cases "fst (check_host us hs i h (names, eps)) = []")
    case True
    then have h: "host_ok us h" "mget names (ih_name h) = None" "mget eps (normaliseHostPort (ih_endpoint h)) = None"
      unfolding check_host_passes by simp_all
    show ?thesis
      unfolding split check_host_tables [OF True] list.map fresh_in_mput [where i = i]
      using True h Cons.IH by simp
  next
    case False
    then have "\<not> (host_ok us h \<and> mget names (ih_name h) = None \<and> mget eps (normaliseHostPort (ih_endpoint h)) = None)"
      unfolding check_host_passes .
    then show ?thesis using False unfolding split by (auto simp: fresh_in_def list_all_iff)
  qed
qed

section \<open>A validated configuration\<close>

lemma pool_key_inj: "pool_key p \<noteq> pool_key q \<Longrightarrow> rp_ref (resolve_one ns p) \<noteq> rp_ref (resolve_one ns q)"
  if "ps_name (pr_pool p) \<noteq> []" "ps_namespace (pr_pool p) \<noteq> []" "ps_name (pr_pool q) \<noteq> []" "ps_namespace (pr_pool q) \<noteq> []"
  using that by (auto simp: resolve_one_def pool_key_def)

lemma given_not_empty: "given s \<Longrightarrow> s \<noteq> []"
  by (auto simp: given_def TrimSpace_def)

lemma distinct_pool_refs:
  assumes "list_all (profile_ok pm hs) ps" "distinct (map pool_key ps)"
  shows "distinct (map rp_ref (resolveProfiles ps ns))"
proof -
  have "ps_name (pr_pool p) \<noteq> [] \<and> ps_namespace (pr_pool p) \<noteq> []" if "p \<in> set ps" for p
    using assms(1) that given_not_empty by (auto simp: list_all_iff profile_ok_def pool_ok_def)
  then have "inj_on (rp_ref \<circ> resolve_one ns) (set ps)"
    using assms(2) pool_key_inj by (fastforce simp: distinct_map inj_on_def)
  then show ?thesis
    using assms(2) by (simp add: resolveProfiles_def distinct_map inj_on_def)
qed

text \<open>
  Everything the rest of the Runner takes for granted of its configuration: every Profile
  and Host is usable, no two Profiles share a name, a Pool or an image, no two Hosts a name
  or an address, and every interval it waits for is positive.
\<close>

definition config_ok :: "config \<Rightarrow> bool" where
  "config_ok c \<longleftrightarrow>
     (let ps = cf_profiles c; hs = inv_hosts (cf_inventory c); pm = cf_pool_manager c; s = cf_scheduler c
      in ps \<noteq> [] \<and> list_all (profile_ok pm hs) ps
         \<and> distinct (map pr_name ps) \<and> distinct (map rp_ref (resolveProfiles ps (ss_namespace s)))
         \<and> distinct (concat (map pr_images ps)) \<and> length (filter pr_default ps) \<le> 1
         \<and> (if IsClaim pm then hs = []
            else hs \<noteq> [] \<and> list_all (host_ok (map hu_name (ht_upstreams (hs_http_cache (cf_host_services c))))) hs
              \<and> distinct (map ep_name (endpoints hs)) \<and> distinct (map (\<lambda>h. normaliseHostPort (ih_endpoint h)) hs))
         \<and> 0 < gl_concurrent (cf_gitlab c) \<and> 0 < ss_allocation_timeout s \<and> 0 < ss_host_health_interval s
         \<and> 0 < ss_host_unhealthy_threshold s \<and> 0 < ss_host_call_deadline s \<and> (ss_keep_on_failure s \<longrightarrow> 0 < ss_keep_duration s)
         \<and> 0 < pm_deadline pm \<and> 0 < pm_health_backoff pm \<and> 0 < pm_health_interval pm \<and> 0 < pm_health_threshold pm
         \<and> 0 < pm_events_poll pm \<and> 0 < pm_declare_retry pm \<and> 0 \<le> pm_release_retry pm)"

lemma endpoints_names: "map ep_name (endpoints hs) = map ih_name hs"
  by (simp add: endpoints_def)

lemma check_inventory_passes:
  "check_inventory c = [] \<longleftrightarrow> (let hs = inv_hosts (cf_inventory c) in
     if IsClaim (cf_pool_manager c) then hs = []
     else hs \<noteq> [] \<and> list_all (host_ok (map hu_name (ht_upstreams (hs_http_cache (cf_host_services c))))) hs
       \<and> distinct (map ih_name hs) \<and> distinct (map (\<lambda>h. normaliseHostPort (ih_endpoint h)) hs))"
  by (simp add: check_inventory_def Let_def passes check_hosts_passes fresh_in_def list_all_iff)

text \<open>
  C23. A configuration that \<open>Validate\<close> accepts is well-formed: it has a usable Profile,
  every Profile has pinned images, a positive size, heartbeats shorter than their expiry and
  patterns that parse, no two Profiles share a name, a Pool or an image name, at most one is
  the default; the Hosts are usable and distinct by name and by address, or absent under the
  claim backend; and every interval, deadline and threshold the Runner waits on is positive.
\<close>

theorem Validate_sound:
  assumes "Validate parse c = []"
  shows "config_ok c"
proof -
  have parts: "check_gitlab parse (cf_gitlab c) = []" "check_profiles c = []" "check_inventory c = []"
    "check_pool_manager (cf_pool_manager c) = []" "check_scheduler (cf_scheduler c) = []"
    using assms by (simp_all add: Validate_def)
  have pm: "0 < pm_deadline pm \<and> 0 < pm_health_backoff pm \<and> 0 < pm_health_interval pm \<and> 0 < pm_health_threshold pm
      \<and> 0 < pm_events_poll pm \<and> 0 < pm_declare_retry pm \<and> 0 \<le> pm_release_retry pm" if "check_pool_manager pm = []" for pm
    using that by (simp add: check_pool_manager_def passes)
  have s: "0 < ss_allocation_timeout s \<and> 0 < ss_host_health_interval s \<and> 0 < ss_host_unhealthy_threshold s
      \<and> 0 < ss_host_call_deadline s \<and> (ss_keep_on_failure s \<longrightarrow> 0 < ss_keep_duration s)" if "check_scheduler s = []" for s
    using that by (simp add: check_scheduler_def passes split: if_splits)
  have g: "0 < gl_concurrent (cf_gitlab c)" using parts(1) by (simp add: check_gitlab_def passes)
  show ?thesis
    using parts(2,3) pm [OF parts(4)] s [OF parts(5)] g
      distinct_pool_refs [of "cf_pool_manager c" "inv_hosts (cf_inventory c)" "cf_profiles c" "ss_namespace (cf_scheduler c)"]
    by (simp add: config_ok_def Let_def check_profiles_passes check_inventory_passes endpoints_names)
qed

section \<open>Which Profile a Job gets\<close>

lemma distinct_concat_owner:
  "distinct (concat (map f xs)) \<Longrightarrow> p \<in> set xs \<Longrightarrow> q \<in> set xs \<Longrightarrow> y \<in> set (f p) \<Longrightarrow> y \<in> set (f q) \<Longrightarrow> p = q"
proof (induction xs)
  case (Cons x xs)
  have apart: "y \<notin> set (f z)" if "z \<in> set xs" "y \<in> set (f x)" for z
    using Cons.prems(1) that by auto
  have tail: "distinct (concat (map f xs))" using Cons.prems(1) by simp
  show ?case
    using Cons.IH [OF tail] Cons.prems(2-5) apart by auto
qed simp

text \<open>
  C25. Under a validated configuration the Profile of a Job whose image some Profile names is
  that Profile, whatever the order of the Profiles in the file and whatever patterns match;
  and no pattern of the configuration fails to parse when a Job's image is tried on it.
\<close>

theorem validated_image_resolves:
  assumes "Validate parse c = []" "p \<in> set (cf_profiles c)" "img \<in> set (pr_images p)"
    and "set (sc_profiles s) = set (resolveProfiles (cf_profiles c) (ss_namespace (cf_scheduler c)))"
  shows "ResolveProfile \<lparr>job_id = j, job_image = img\<rparr> s = Inr (resolve_one (ss_namespace (cf_scheduler c)) p)
    \<and> list_all (\<lambda>q. list_all (\<lambda>g. Match g name \<noteq> BadPattern) (pr_image_globs (rp_profile q))) (sc_profiles s)"
proof -
  let ?ns = "ss_namespace (cf_scheduler c)"
  have profs: "list_all (profile_ok (cf_pool_manager c) (inv_hosts (cf_inventory c))) (cf_profiles c)"
    "distinct (concat (map pr_images (cf_profiles c)))"
    using assms(1) by (simp_all add: Validate_def check_profiles_passes)
  have "given img" using profs(1) assms(2,3) by (auto simp: list_all_iff profile_ok_def)
  then have ne: "img \<noteq> []" by (rule given_not_empty)
  have only: "q = p" if "q \<in> set (cf_profiles c)" "img \<in> set (pr_images q)" for q
    by (rule distinct_concat_owner [OF profs(2) that(1) assms(2) that(2) assms(3)])
  have members: "set (sc_profiles s) = resolve_one ?ns ` set (cf_profiles c)" using assms(4) by (simp add: resolveProfiles_def)
  have rp: "rp_profile (resolve_one ?ns q) = q" for q by (simp add: resolve_one_def)
  have "List.find (names_image img) (sc_profiles s) = Some (resolve_one ?ns p)"
  proof -
    have "list_ex (names_image img) (sc_profiles s)"
      using assms(2,3) by (auto simp: members list_ex_iff names_image_def rp)
    then obtain q where q: "List.find (names_image img) (sc_profiles s) = Some q"
      by (cases "List.find (names_image img) (sc_profiles s)") (auto simp: find_None_iff list_ex_iff)
    then have "q \<in> set (sc_profiles s)" "names_image img q" by (auto simp: find_Some_iff)
    then obtain q' where q': "q = resolve_one ?ns q'" "q' \<in> set (cf_profiles c)" "img \<in> set (pr_images q')"
      by (auto simp: members names_image_def rp list_ex_iff)
    with only q show ?thesis by simp
  qed
  moreover have "list_all (\<lambda>q. list_all (\<lambda>g. Match g name \<noteq> BadPattern) (pr_image_globs (rp_profile q))) (sc_profiles s)"
    using profs(1) Match_bad_independent [of _ name]
    unfolding list_all_iff members profile_ok_def optional_ok_def by (auto simp: rp)
  ultimately show ?thesis using ne by (simp add: ResolveProfile_def)
qed

section \<open>The minimal configuration\<close>

definition no_tls :: client_tls where
  "no_tls = \<lparr>ct_ca_file = [], ct_cert_file = [], ct_key_file = [], ct_insecure = False\<rparr>"

definition minimal_host :: "string \<Rightarrow> string \<Rightarrow> string \<Rightarrow> int \<Rightarrow> int \<Rightarrow> inventory_host" where
  "minimal_host name endpoint a vcpu mem = \<lparr>ih_name = name, ih_endpoint = endpoint, ih_arch = a, ih_vcpu = vcpu, ih_memory_mb = mem,
     ih_labels = [], ih_token = [], ih_tls = no_tls,
     ih_services = \<lparr>sa_buildkit = [], sa_go_proxy = [], sa_registry_mirror = [], sa_http_cache = []\<rparr>,
     ih_versions = \<lparr>iv_flintlock = [], iv_firecracker = [], iv_cloud_hypervisor = [], iv_containerd = []\<rparr>\<rparr>"

definition minimal_profile :: "string \<Rightarrow> string \<Rightarrow> string \<Rightarrow> int \<Rightarrow> profile" where
  "minimal_profile name kimg rootfs n = \<lparr>pr_name = name, pr_arch = [], pr_vcpu = 0, pr_memory_mb = 0,
     pr_kernel = \<lparr>k_image = kimg, k_filename = [], k_cmdline = []\<rparr>, pr_initrd = None, pr_rootfs = rootfs, pr_volumes = [],
     pr_provider = [], pr_user_data = [], pr_shell = [], pr_builds_dir = [], pr_cache_dir = [], pr_helper_path = [],
     pr_images = [], pr_image_globs = [], pr_default = False,
     pr_transport = \<lparr>tp_kind = [], tp_ssh = \<lparr>ssh_user = [], ssh_private_key_file = [], ssh_known_host_key = []\<rparr>\<rparr>,
     pr_user = [], pr_ready_timeout = 0, pr_host_selector = [], pr_max_concurrency = 0,
     pr_pool = \<lparr>ps_size = n, ps_name = [], ps_namespace = [], ps_strategy = [], ps_min_size = None, ps_create_hooks = [],
       ps_pre_lease_hooks = [], ps_hook_failure_policy = [], ps_heartbeat_interval = 0, ps_heartbeat_expiry = 0\<rparr>\<rparr>"

definition no_service :: service where
  "no_service = \<lparr>sv_enabled = None, sv_port = 0\<rparr>"

text \<open>The Host services section with storage limits for two enabled services.\<close>

definition limited_services :: "int \<Rightarrow> int \<Rightarrow> host_services" where
  "limited_services a b = \<lparr>hs_buildkit = \<lparr>bk_service = no_service, bk_storage_limit = a, bk_gc_policy = []\<rparr>,
     hs_go_proxy = \<lparr>gp_service = no_service, gp_upstream = [], gp_private_patterns = [], gp_private_vcs_host = [],
       gp_credential_parameter = [], gp_private_revalidate = 0, gp_storage_limit = b, gp_prewarm = []\<rparr>,
     hs_registry_mirror = \<lparr>rm_service = no_service, rm_upstreams = [], rm_storage_limit = 0, rm_prewarm = []\<rparr>,
     hs_http_cache = \<lparr>ht_service = no_service, ht_upstreams = []\<rparr>,
     hs_cache_volume = \<lparr>cv_device = [], cv_directory = [], cv_size_cap = 0\<rparr>\<rparr>"

definition minimal_config :: "string \<Rightarrow> string \<Rightarrow> string \<Rightarrow> inventory_host \<Rightarrow> profile \<Rightarrow> config" where
  "minimal_config gitlab_url token endpoint h p = \<lparr>
     cf_gitlab = \<lparr>gl_url = gitlab_url, gl_token = token, gl_name = [], gl_concurrent = 0, gl_check_interval = 0,
       gl_output_limit_kb = 0, gl_shutdown_timeout = 0, gl_tls = no_tls, gl_allow_insecure = False\<rparr>,
     cf_profiles = [p], cf_inventory = \<lparr>inv_file = [], inv_hosts = [h]\<rparr>,
     cf_pool_manager = \<lparr>pm_backend = [], pm_claim = None, pm_endpoint = endpoint, pm_tls = no_tls, pm_deadline = 0,
       pm_health_backoff = 0, pm_health_interval = 0, pm_health_threshold = 0, pm_events_poll = 0, pm_declare_retry = 0, pm_release_retry = 0\<rparr>,
     cf_scheduler = \<lparr>ss_namespace = [], ss_allocation_timeout = 0, ss_host_health_interval = 0, ss_host_unhealthy_threshold = 0,
       ss_host_call_deadline = 0, ss_keep_on_failure = False, ss_keep_duration = 0, ss_allow_default = False\<rparr>,
     cf_executor = \<lparr>es_prepare_timeout = 0, es_graceful_kill_timeout = 0, es_transport_deadline = 0\<rparr>,
     cf_host_services = limited_services 0 0,
     cf_distributed_cache = None,
     cf_observability = \<lparr>ob_log_format = [], ob_log_level = [], ob_listen_address = []\<rparr>, cf_state_dir = []\<rparr>"

lemma default_texts:
  "abs_path ''/bin/bash''" "abs_path ''/builds''" "abs_path ''/cache''" "abs_path ''/usr/local/bin/gitlab-runner-helper''"
  "abs_path ''/var/lib/flintlock-runner''" "abs_path ''/var/lib/flintlock-runner/cache''" "given ''root''" "given '':9252''"
  "SplitHostPort '':9252'' \<noteq> None" "ToLower ''info'' = ''info''" "given ''https://registry-1.docker.io''"
  by (simp_all add: abs_path_def given_def TrimSpace_def is_space_def HasPrefix_def SplitHostPort_def ToLower_def to_lower_def
      less_eq_char_def)

lemmas minimal_defs = ApplyDefaults_def minimal_config_def Let_def if_zero_def if_empty_def

lemma minimal_profiles:
  "su_hostname su = Some nm \<Longrightarrow> cf_profiles (ApplyDefaults su (minimal_config gurl token endpoint h p))
     = [(profile_defaults (defaultArch (su_goarch su) [h]) nm p)\<lparr>pr_default := True\<rparr>]"
  by (simp add: minimal_defs applyProfileDefaults_def applySchedulerDefaults_def applyGitLabDefaults_def)

lemma minimal_inventory:
  "inv_hosts (cf_inventory (ApplyDefaults su (minimal_config gurl token endpoint h p))) = [h]"
  "\<not> IsClaim (cf_pool_manager (ApplyDefaults su (minimal_config gurl token endpoint h p)))"
  "cf_distributed_cache (ApplyDefaults su (minimal_config gurl token endpoint h p)) = None"
  "ht_upstreams (hs_http_cache (cf_host_services (ApplyDefaults su (minimal_config gurl token endpoint h p)))) = []"
  by (simp_all add: minimal_defs applyPoolManagerDefaults_def IsClaim_def applyDistributedCacheDefaults_def applyHostServicesDefaults_def limited_services_def)

lemma minimal_gitlab:
  "su_hostname su = Some nm \<Longrightarrow> check_gitlab parse (cf_gitlab (ApplyDefaults su (minimal_config gurl token endpoint h p)))
     = check_gitlab parse \<lparr>gl_url = gurl, gl_token = token, gl_name = nm, gl_concurrent = defaultConcurrency [p],
         gl_check_interval = 3 * second, gl_output_limit_kb = 4096, gl_shutdown_timeout = 30 * second, gl_tls = no_tls, gl_allow_insecure = False\<rparr>"
  by (simp add: minimal_defs applyGitLabDefaults_def)

lemma minimal_pool_manager:
  "address endpoint \<Longrightarrow> check_pool_manager (cf_pool_manager (ApplyDefaults su (minimal_config gurl token endpoint h p))) = []"
  by (simp add: minimal_defs applyPoolManagerDefaults_def IsClaim_def check_pool_manager_def passes no_tls_def address_def)

lemma minimal_scheduler:
  "su_hostname su = Some nm \<Longrightarrow> given nm \<Longrightarrow> \<not> ContainsAny nm name_delims \<Longrightarrow>
   check_scheduler (cf_scheduler (ApplyDefaults su (minimal_config gurl token endpoint h p))) = []"
  by (simp add: minimal_defs applySchedulerDefaults_def applyGitLabDefaults_def check_scheduler_def passes given_not_empty)

lemma minimal_executor: "check_executor (cf_executor (ApplyDefaults su (minimal_config gurl token endpoint h p))) = []"
  by (simp add: minimal_defs applyExecutorDefaults_def check_executor_def passes)

lemma minimal_observability:
  "check_observability (cf_observability (ApplyDefaults su (minimal_config gurl token endpoint h p))) = []"
  "absPath ''state_dir'' (cf_state_dir (ApplyDefaults su (minimal_config gurl token endpoint h p))) = []"
  using default_texts by (simp_all add: minimal_defs applyObservabilityDefaults_def check_observability_def passes abs_path_def)

lemma limited_services_pass:
  assumes "http_url parse ''https://proxy.golang.org''" "http_url parse ''https://registry-1.docker.io''" "0 \<le> a" "0 \<le> b"
    and "storage_limits (applyHostServicesDefaults (limited_services a b)) \<le> 200 * 2 ^ 30"
  shows "check_host_services parse (applyHostServicesDefaults (limited_services a b)) = []"
proof -
  have mirror: "httpURL parse f ''https://registry-1.docker.io'' = (parse ''https://registry-1.docker.io'', [])
      \<and> parse ''https://registry-1.docker.io'' \<noteq> None" for f
    using assms(2) by (auto simp: http_url_def httpURL_def split: option.splits)
  then obtain u where "httpURL parse f ''https://registry-1.docker.io'' = (Some u, [])" for f by fastforce
  then show ?thesis
    using assms(1,3,4) default_texts assms(5)
    by (simp add: limited_services_def Let_def applyHostServicesDefaults_def applyServiceDefaults_def no_service_def
        if_zero_def if_empty_def check_host_services_def check_buildkit_def check_go_proxy_def check_registry_mirror_def
        IsEnabled_def passes abs_path_def)
qed

lemma minimal_services:
  assumes "http_url parse ''https://proxy.golang.org''" "http_url parse ''https://registry-1.docker.io''"
  shows "check_host_services parse (cf_host_services (ApplyDefaults su (minimal_config gurl token endpoint h p))) = []"
proof -
  have "storage_limits (applyHostServicesDefaults (limited_services 0 0)) = 0"
    by (simp add: storage_limits_def limited_services_def applyHostServicesDefaults_def applyServiceDefaults_def i64_def Let_def)
  moreover have "cf_host_services (ApplyDefaults su (minimal_config gurl token endpoint h p)) = applyHostServicesDefaults (limited_services 0 0)"
    by (simp add: ApplyDefaults_def Let_def minimal_config_def)
  ultimately show ?thesis using limited_services_pass [OF assms, of 0 0] by simp
qed

text \<open>One Host and one Profile, everything else at its default.\<close>

lemma one_profile_validates:
  fixes su :: surroundings
  assumes "su_hostname su = Some nm" "given nm" "\<not> ContainsAny nm name_delims"
    and "http_url parse ''https://proxy.golang.org''" "http_url parse ''https://registry-1.docker.io''"
    and "http_url parse gurl" "map_option u_scheme (parse gurl) = Some ''https''" "given token" "address endpoint"
    and "host_ok [] h"
    and "\<And>pm. \<not> IsClaim pm \<Longrightarrow> profile_ok pm [h] ((profile_defaults (ih_arch h) nm p)\<lparr>pr_default := True\<rparr>)"
    and "distinct (pr_images p)" "0 < ps_size (pr_pool p)" "ps_size (pr_pool p) < 2 ^ 62"
  shows "Validate parse (ApplyDefaults su (minimal_config gurl token endpoint h p)) = []"
proof -
  let ?d = "ApplyDefaults su (minimal_config gurl token endpoint h p)"
  have "ih_arch h \<noteq> []" using assms(10) by (auto simp: host_ok_def)
  then have ar: "defaultArch (su_goarch su) [h] = ih_arch h" by (simp add: defaultArch_def)
  have "check_profiles ?d = []"
    using assms(11,12) minimal_inventory(2)
    by (simp add: check_profiles_passes minimal_profiles [OF assms(1)] minimal_inventory ar profile_defaults_def)
  moreover have "check_inventory ?d = []"
    using assms(10) by (simp add: check_inventory_passes minimal_inventory)
  moreover have "defaultConcurrency [p] = 2 * ps_size (pr_pool p)"
    using assms(13,14) by (simp add: defaultConcurrency_def i64_id)
  then have "check_gitlab parse (cf_gitlab ?d) = []"
    using assms(2,6,7,8,13) unfolding minimal_gitlab [OF assms(1)]
    by (auto simp: check_gitlab_def passes no_tls_def httpURL_def http_url_def split: option.splits)
  ultimately show ?thesis
    using assms(9) minimal_services [OF assms(4,5)] minimal_scheduler [OF assms(1-3)]
    by (simp add: Validate_def minimal_pool_manager minimal_executor minimal_observability minimal_inventory check_distributed_cache_def)
qed

lemma minimal_profile_ok:
  assumes "given name" "pinned_image kimg" "pinned_image rootfs" "0 < n" "given nm" "host_ok us h" "\<not> IsClaim pm"
  shows "profile_ok pm [h] ((profile_defaults (ih_arch h) nm (minimal_profile name kimg rootfs n))\<lparr>pr_default := True\<rparr>)"
proof -
  have "ih_arch h \<in> {ArchAMD64, ArchARM64}" using assms(6) by (simp add: host_ok_def)
  then show ?thesis
    using assms(1-5,7) default_texts given_not_empty [OF assms(1)] given_not_empty [OF assms(5)]
    by (auto simp: profile_ok_def profile_defaults_def minimal_profile_def pool_defaults_def transport_defaults_def pool_ok_def
        optional_ok_def transport_ok_def profile_refs_def if_zero_def if_empty_def Let_def SelectHosts_def MatchesHost_def)
qed

text \<open>
  C24. The minimal configuration the requirements describe - the GitLab URL and token, the
  Pool Manager endpoint, one Host and one Profile with a Pool size - passes \<open>Validate\<close> once
  \<open>ApplyDefaults\<close> has completed it, whatever architecture the Runner was built for. The host
  name, which becomes the namespace, must be free of spaces and slashes, and \<open>url.Parse\<close>
  must read the URLs.
\<close>

theorem minimal_config_validates:
  fixes su :: surroundings
  assumes "su_hostname su = Some nm" "given nm" "\<not> ContainsAny nm name_delims"
    and "http_url parse ''https://proxy.golang.org''" "http_url parse ''https://registry-1.docker.io''"
    and "http_url parse gurl" "map_option u_scheme (parse gurl) = Some ''https''" "given token" "address endpoint"
    and "host_ok [] (minimal_host hname hendpoint a vcpu mem)"
    and "given name" "pinned_image kimg" "pinned_image rootfs" "0 < n" "n < 2 ^ 62"
  shows "Validate parse (ApplyDefaults su (minimal_config gurl token endpoint
      (minimal_host hname hendpoint a vcpu mem) (minimal_profile name kimg rootfs n))) = []"
proof (rule one_profile_validates [OF assms(1-10)])
  show "profile_ok pm [minimal_host hname hendpoint a vcpu mem]
      ((profile_defaults (ih_arch (minimal_host hname hendpoint a vcpu mem)) nm (minimal_profile name kimg rootfs n))\<lparr>pr_default := True\<rparr>)"
    if "\<not> IsClaim pm" for pm
    by (rule minimal_profile_ok [OF assms(11-14) assms(2) assms(10) that])
qed (use assms(14,15) in \<open>simp_all add: minimal_profile_def\<close>)

text \<open>A concrete one, read with a parser that knows https URLs without a path.\<close>

definition https_only :: url_parse where
  "https_only raw = (if HasPrefix raw ''https://'' then Some \<lparr>u_scheme = ''https'', u_host = drop 8 raw, u_path = []\<rparr> else None)"

definition example_host :: inventory_host where
  "example_host = minimal_host ''h1'' ''10.0.1.10:9090'' ''arm64'' 8 16384"

definition example_images :: "string \<times> string" where
  "example_images = (''img/kernel:6.1'', ''img/root@sha256:ab'')"

definition example_surroundings :: surroundings where
  "example_surroundings = \<lparr>su_hostname = Some ''ci-1'', su_goarch = ''amd64''\<rparr>"

lemma example_facts:
  "given ''ci-1''" "\<not> ContainsAny ''ci-1'' name_delims" "http_url https_only ''https://proxy.golang.org''"
  "http_url https_only ''https://registry-1.docker.io''" "http_url https_only ''https://gitlab.test''"
  "map_option u_scheme (https_only ''https://gitlab.test'') = Some ''https''" "given ''t''" "given ''small''"
  by code_simp+

lemma example_images_pinned: "pinned_image ''img/kernel:6.1''" "pinned_image ''img/root@sha256:ab''"
  by code_simp+

lemma example_address: "address ''10.0.1.10:9090''" "address ''pm:9000''"
  by (simp_all add: address_def given_def TrimSpace_def is_space_def HasPrefix_def SplitHostPort_def)

lemma example_host_ok: "host_ok [] (minimal_host ''h1'' ''10.0.1.10:9090'' ''arm64'' 8 16384)"
proof -
  have "given ''h1''" "\<not> ContainsAny ''h1'' name_delims" by code_simp+
  then show ?thesis using example_address by (simp add: host_ok_def minimal_host_def no_tls_def passes)
qed

theorem minimal_config_validates_witness:
  "Validate https_only (ApplyDefaults example_surroundings (minimal_config ''https://gitlab.test'' ''t'' ''pm:9000'' example_host
     (minimal_profile ''small'' ''img/kernel:6.1'' ''img/root@sha256:ab'' 4))) = []"
  unfolding example_host_def
  by (rule minimal_config_validates [where nm = "''ci-1''"])
     (simp_all add: example_facts example_images_pinned example_address example_host_ok example_surroundings_def)

text \<open>The same with a Profile that names an image.\<close>

lemma profile_ok_images:
  assumes "profile_ok pm hs p" "list_all given ns"
  shows "profile_ok pm hs (p\<lparr>pr_images := ns\<rparr>)"
proof -
  have "MatchesHost (p\<lparr>pr_images := ns\<rparr>) = MatchesHost p" by (rule ext) (simp add: MatchesHost_def)
  then show ?thesis using assms by (simp add: profile_ok_def optional_ok_def profile_refs_def SelectHosts_def)
qed

lemma profile_defaults_images:
  "(profile_defaults a ns (p\<lparr>pr_images := im\<rparr>))\<lparr>pr_default := b\<rparr> = (profile_defaults a ns p)\<lparr>pr_default := b, pr_images := im\<rparr>"
  by (simp add: profile_defaults_def)

definition example_profile :: profile where
  "example_profile = (minimal_profile ''small'' ''img/kernel:6.1'' ''img/root@sha256:ab'' 4)\<lparr>pr_images := [''ruby:3'']\<rparr>"

definition example_config :: config where
  "example_config = ApplyDefaults example_surroundings (minimal_config ''https://gitlab.test'' ''t'' ''pm:9000'' example_host example_profile)"

lemma example_config_valid: "Validate https_only example_config = []"
  unfolding example_config_def
proof (rule one_profile_validates [where nm = "''ci-1''"])
  show "profile_ok pm [example_host] ((profile_defaults (ih_arch example_host) ''ci-1'' example_profile)\<lparr>pr_default := True\<rparr>)"
    if "\<not> IsClaim pm" for pm
  proof -
    have "given ''ruby:3''" by code_simp
    then show ?thesis
      using profile_ok_images [OF minimal_profile_ok [OF example_facts(8) example_images_pinned, of 4 "''ci-1''" "[]" example_host pm],
          of "[''ruby:3'']"] that example_facts(1) example_host_ok
      by (simp add: example_profile_def example_host_def profile_defaults_images)
  qed
qed (simp_all add: example_facts example_address example_host_ok example_surroundings_def example_host_def example_profile_def
      minimal_profile_def)

theorem Validate_sound_witness:
  "Validate https_only example_config = [] \<and> config_ok example_config"
  using Validate_sound [OF example_config_valid] example_config_valid by simp

lemma example_config_profiles:
  "cf_profiles example_config = [(profile_defaults ''arm64'' ''ci-1'' example_profile)\<lparr>pr_default := True\<rparr>]"
  unfolding example_config_def
  using minimal_profiles [of example_surroundings "''ci-1''" "''https://gitlab.test''" "''t''" "''pm:9000''" example_host example_profile]
  by (simp add: example_surroundings_def example_host_def minimal_host_def defaultArch_def)

theorem validated_image_resolves_witness:
  "ResolveProfile \<lparr>job_id = 7, job_image = ''ruby:3''\<rparr>
      ((new_sched small_settings)\<lparr>sc_profiles := resolveProfiles (cf_profiles example_config) (ss_namespace (cf_scheduler example_config))\<rparr>)
    = Inr (resolve_one (ss_namespace (cf_scheduler example_config)) ((profile_defaults ''arm64'' ''ci-1'' example_profile)\<lparr>pr_default := True\<rparr>))"
  by (rule validated_image_resolves [THEN conjunct1, OF example_config_valid])
     (simp_all add: example_config_profiles example_profile_def minimal_profile_def profile_defaults_def)

section \<open>A sum that wraps\<close>

text \<open>
  C40. The check that the storage limits of the enabled services fit the cache volume adds
  them up in int64: two limits whose sum leaves int64 are accepted under the default volume
  of 200 GiB, although each of their sums exceeds it by far.
\<close>

theorem storage_limits_wrap:
  assumes "0 \<le> a" "a < 2 ^ 63" "0 \<le> b" "b < 2 ^ 63" "2 ^ 63 \<le> a + b"
    and "http_url parse ''https://proxy.golang.org''" "http_url parse ''https://registry-1.docker.io''"
  shows "check_host_services parse (applyHostServicesDefaults (limited_services a b)) = []
    \<and> storage_limits (applyHostServicesDefaults (limited_services a b)) = a + b - 2 ^ 64
    \<and> cv_size_cap (hs_cache_volume (applyHostServicesDefaults (limited_services a b))) < a + b"
proof -
  let ?hs = "applyHostServicesDefaults (limited_services a b)"
  have "i64 (a + b) = i64 (a + b - 2 ^ 64)"
    by (simp add: i64_def signed_take_bit_eq_iff_take_bit_eq take_bit_eq_mod mod_diff_right_eq [symmetric])
  also have "\<dots> = a + b - 2 ^ 64" using assms(1-5) by (intro i64_id) auto
  finally have wrap: "i64 (a + b) = a + b - 2 ^ 64" .
  have "i64 a = a" "i64 (a + b - 2 ^ 64) = a + b - 2 ^ 64" using assms(1-5) by (auto intro!: i64_id)
  then have limits: "storage_limits ?hs = a + b - 2 ^ 64"
    by (simp add: storage_limits_def limited_services_def applyHostServicesDefaults_def applyServiceDefaults_def
        no_service_def IsEnabled_def Let_def wrap)
  have cap: "cv_size_cap (hs_cache_volume ?hs) = 200 * 2 ^ 30"
    by (simp add: limited_services_def applyHostServicesDefaults_def Let_def if_zero_def)
  have "check_host_services parse ?hs = []"
    using limits assms(1-5) by (intro limited_services_pass [OF assms(6,7)]) simp_all
  with limits cap assms(5) show ?thesis by simp
qed

theorem storage_limits_wrap_witness:
  "check_host_services https_only (applyHostServicesDefaults (limited_services (2 ^ 62) (2 ^ 62))) = []
   \<and> storage_limits (applyHostServicesDefaults (limited_services (2 ^ 62) (2 ^ 62))) = - (2 ^ 63)"
  using storage_limits_wrap [of "2 ^ 62" "2 ^ 62" https_only] by (simp add: example_facts)

end
