(* ===== verification/Host_Services.thy ===== *)
theory Host_Services
  imports Go_Text
begin

text \<open>
  The publisher of the Host Services (\<open>internal/hostservices/hostservices.go\<close>) with the
  annotation keys it shares with the Executor (\<open>internal/kubelabels/kubelabels.go\<close>) and
  \<open>net.ParseIP\<close>. A Node is its annotations; \<open>Publish\<close> merges a patch into them, where a null
  removes the key.
\<close>

section \<open>net.ParseIP\<close>

text \<open>The dotted form: four decimal fields of at most 255 with no leading zero.\<close>

fun split_on :: "char \<Rightarrow> string \<Rightarrow> string list" where
  "split_on c [] = [[]]"
| "split_on c (x # xs) = (if x = c then [] # split_on c xs
     else case split_on c xs of [] \<Rightarrow> [[x]] | f # fs \<Rightarrow> (x # f) # fs)"

definition ipv4_field :: "string \<Rightarrow> bool" where
  "ipv4_field f \<longleftrightarrow> f \<noteq> [] \<and> list_all is_digit f \<and> (hd f = CHR ''0'' \<longrightarrow> length f = 1) \<and> length f \<le> 3 \<and> nat_of_digits f \<le> 255"

definition parseIPv4 :: "string \<Rightarrow> bool" where
  "parseIPv4 s = (let fs = split_on (CHR ''.'') s in length fs = 4 \<and> list_all ipv4_field fs)"

definition hex_digit :: "char \<Rightarrow> bool" where
  "hex_digit c \<longleftrightarrow> is_digit c \<or> c \<in> set ''abcdefABCDEF''"

text \<open>
  The groups of an IPv6 address: \<open>n\<close> groups of two bytes are still free and \<open>ell\<close> says
  whether the double colon has been read. The first line of a result is the loop's end.
\<close>

fun v6_groups :: "nat \<Rightarrow> bool \<Rightarrow> string \<Rightarrow> bool" where
  "v6_groups 0 ell s = (s = [] \<and> \<not> ell)"
| "v6_groups (Suc n) ell s =
     (let g = takeWhile hex_digit s; r = dropWhile hex_digit s
      in if g = [] \<or> 4 < length g then False
         else case r of
           [] \<Rightarrow> if n = 0 then \<not> ell else ell
         | c # r1 \<Rightarrow>
             if c = CHR ''.'' then
               (\<not> ell \<longrightarrow> Suc n = 2) \<and> 2 \<le> Suc n \<and> parseIPv4 s \<and> (if n = 1 then \<not> ell else ell)
             else if c \<noteq> CHR '':'' \<or> r1 = [] then False
             else if hd r1 = CHR '':'' then
               (if ell then False else if tl r1 = [] then n \<noteq> 0 else v6_groups n True (tl r1))
             else v6_groups n ell r1)"

definition parseIPv6 :: "string \<Rightarrow> bool" where
  "parseIPv6 s = (if HasPrefix s ''::'' then drop 2 s = [] \<or> v6_groups 8 True (drop 2 s) else v6_groups 8 False s)"

text \<open>Whether \<open>net.ParseIP\<close> gives an address; one with a zone gives none.\<close>

definition ParseIP :: "string \<Rightarrow> bool" where
  "ParseIP s \<longleftrightarrow> CHR ''%'' \<notin> set s \<and>
     (case dropWhile (\<lambda>c. c \<noteq> CHR ''.'' \<and> c \<noteq> CHR '':'') s of
        [] \<Rightarrow> False
      | c # _ \<Rightarrow> if c = CHR ''.'' then parseIPv4 s else parseIPv6 s)"

lemma ParseIP_examples:
  "ParseIP ''192.168.100.1''" "ParseIP ''::''" "ParseIP ''fd00::1''" "ParseIP ''::ffff:10.0.0.1''" "ParseIP ''1:2:3:4:5:6:7:8''"
  "\<not> ParseIP ''''" "\<not> ParseIP ''10.0.0''" "\<not> ParseIP ''10.0.0.01''" "\<not> ParseIP ''10.0.0.256''" "\<not> ParseIP ''1::2::3''"
  "\<not> ParseIP ''1:2:3:4:5:6:7''" "\<not> ParseIP ''1:2:3:4:5:6:7::8''" "\<not> ParseIP ''fe80::1%eth0''" "\<not> ParseIP ''[::1]''" "\<not> ParseIP ''host''"
  by code_simp+

text \<open>An address has no bracket in it, so \<open>net.JoinHostPort\<close> can be undone.\<close>

definition ip_char :: "char \<Rightarrow> bool" where
  "ip_char c \<longleftrightarrow> hex_digit c \<or> c = CHR ''.'' \<or> c = CHR '':''"

lemma split_on_not_Nil: "split_on c s \<noteq> []"
  by (cases s) (auto split: list.splits)

lemma split_on_chars: "(\<forall>f \<in> set (split_on c s). list_all P f) \<Longrightarrow> list_all (\<lambda>x. P x \<or> x = c) s"
proof (induction s)
  case (Cons x xs)
  then show ?case
    using split_on_not_Nil [of c xs] by (cases "split_on c xs") (auto split: if_splits)
qed simp

lemma parseIPv4_chars:
  assumes "parseIPv4 s"
  shows "list_all ip_char s"
proof -
  from assms have "\<forall>f \<in> set (split_on (CHR ''.'') s). list_all is_digit f"
    unfolding parseIPv4_def Let_def ipv4_field_def list_all_iff by blast
  from split_on_chars [OF this] show ?thesis
    by (rule list.pred_mono_strong) (auto simp: ip_char_def hex_digit_def)
qed

lemma group_chars: "list_all ip_char (dropWhile hex_digit s) \<Longrightarrow> list_all ip_char s"
proof -
  assume "list_all ip_char (dropWhile hex_digit s)"
  moreover have "list_all ip_char (takeWhile hex_digit s)"
    by (auto simp: list_all_iff ip_char_def dest: set_takeWhileD)
  ultimately have "list_all ip_char (takeWhile hex_digit s @ dropWhile hex_digit s)"
    unfolding list_all_append by blast
  then show ?thesis by simp
qed

lemma v6_chars: "v6_groups n ell s \<Longrightarrow> list_all ip_char s"
proof (induction n ell s rule: v6_groups.induct)
  case (2 n ell s)
  show ?case
  proof (cases "dropWhile hex_digit s")
    case Nil
    then have "list_all ip_char (dropWhile hex_digit s)" by (simp only: list.pred_inject)
    then show ?thesis by (rule group_chars)
  next
    case (Cons c r1)
    show ?thesis
    proof (cases "c = CHR ''.''")
      case True
      then show ?thesis using 2 Cons parseIPv4_chars by (simp add: Let_def split: if_splits)
    next
      case False
      from 2(3) Cons False have colon: "c = CHR '':''" "r1 \<noteq> []" by (auto simp: Let_def split: if_splits)
      have "list_all ip_char r1"
      proof (cases "hd r1 = CHR '':''")
        case True
        then have "list_all ip_char (tl r1)"
          using 2 Cons False by (cases "tl r1") (auto simp: Let_def split: if_splits)
        then show ?thesis using True colon by (cases r1) (auto simp: ip_char_def)
      next
        case hd: False
        then show ?thesis using 2 Cons False by (auto simp: Let_def split: if_splits)
      qed
      then have "list_all ip_char (dropWhile hex_digit s)"
        unfolding Cons colon(1) list.pred_inject by (simp add: ip_char_def)
      then show ?thesis by (rule group_chars)
    qed
  qed
qed simp

lemma ParseIP_chars: "ParseIP s \<Longrightarrow> list_all ip_char s"
proof -
  assume ip: "ParseIP s"
  have v6: "list_all ip_char s" if "parseIPv6 s"
  proof (cases "HasPrefix s ''::''")
    case True
    then obtain r where r: "s = CHR '':'' # CHR '':'' # r"
      by (cases s; cases "tl s") (auto simp: HasPrefix_def)
    then have "list_all ip_char r" using that v6_chars True by (auto simp: parseIPv6_def)
    then show ?thesis using r by (simp add: ip_char_def)
  next
    case False
    then show ?thesis using that v6_chars by (simp add: parseIPv6_def)
  qed
  from ip parseIPv4_chars v6 show ?thesis
    by (auto simp: ParseIP_def split: list.splits if_splits)
qed

lemma ParseIP_no_bracket: "ParseIP s \<Longrightarrow> CHR ''['' \<notin> set s \<and> CHR '']'' \<notin> set s"
  using ParseIP_chars [of s] by (auto simp: list_all_iff ip_char_def hex_digit_def is_digit_def)

section \<open>Names and annotation keys\<close>

abbreviation Prefix :: string where
  "Prefix \<equiv> ''gitlab-runner.flintlock.dev/''"

abbreviation AnnotationHostServicePrefix :: string where
  "AnnotationHostServicePrefix \<equiv> ''host-service.'' @ Prefix"

abbreviation HostServiceBuildkit :: string where "HostServiceBuildkit \<equiv> ''buildkit''"
abbreviation HostServiceGoProxy :: string where "HostServiceGoProxy \<equiv> ''go_proxy''"
abbreviation HostServiceRegistryMirror :: string where "HostServiceRegistryMirror \<equiv> ''registry_mirror''"
abbreviation HostServiceHTTPCache :: string where "HostServiceHTTPCache \<equiv> ''http_cache''"

definition HostServiceNames :: "string list" where
  "HostServiceNames = [HostServiceBuildkit, HostServiceGoProxy, HostServiceHTTPCache, HostServiceRegistryMirror]"

definition HostServiceAnnotation :: "string \<Rightarrow> string" where
  "HostServiceAnnotation service = AnnotationHostServicePrefix @ service"

lemma HostServiceAnnotation_eq [simp]: "HostServiceAnnotation a = HostServiceAnnotation b \<longleftrightarrow> a = b"
  by (simp add: HostServiceAnnotation_def)

section \<open>The configuration of the publisher\<close>

record host_service =
  hsv_enabled :: bool
  hsv_port :: int

record hs_config =
  hc_host_node :: string
  hc_kubeconfig :: string
  hc_bridge_gateway :: string
  hc_host_services :: "(string, host_service) gomap"
  hc_resync_interval :: duration

abbreviation DefaultResyncInterval :: duration where "DefaultResyncInterval \<equiv> 60 * second"
abbreviation retryInterval :: duration where "retryInterval \<equiv> 5 * second"

datatype hs_error =
    HostNodeRequired
  | NotAHostService string
  | GatewayNotAnIP string
  | NotAPort string int
  | ResyncNotPositive

definition EnabledHostServices :: "hs_config \<Rightarrow> string list" where
  "EnabledHostServices c = sort (map fst (filter (\<lambda>(name, svc). hsv_enabled svc) (hc_host_services c)))"

text \<open>The port of a service, the zero value when the name is not in the map.\<close>

definition service_port :: "hs_config \<Rightarrow> string \<Rightarrow> int" where
  "service_port c name = (case mget (hc_host_services c) name of None \<Rightarrow> 0 | Some svc \<Rightarrow> hsv_port svc)"

text \<open>
  \<open>Validate\<close>: every invalid field, sorted by the text of its error; \<open>render\<close> is the
  \<open>fmt\<close> text of an error.
\<close>

definition hs_Validate :: "(hs_error \<Rightarrow> string) \<Rightarrow> hs_config \<Rightarrow> hs_error list" where
  "hs_Validate render c = sort_key render
     ((if hc_host_node c = [] then [HostNodeRequired] else [])
      @ map NotAHostService (filter (\<lambda>name. name \<notin> set HostServiceNames) (sort (mkeys (hc_host_services c))))
      @ (if EnabledHostServices c \<noteq> [] \<and> \<not> ParseIP (hc_bridge_gateway c) then [GatewayNotAnIP (hc_bridge_gateway c)] else [])
      @ map (\<lambda>name. NotAPort name (service_port c name))
          (filter (\<lambda>name. service_port c name \<le> 0 \<or> 65535 < service_port c name) (EnabledHostServices c))
      @ (if hc_resync_interval c \<le> 0 then [ResyncNotPositive] else []))"

text \<open>\<open>LoadConfig\<close> from the decoded file: the override, the default interval, the checks.\<close>

definition hs_LoadConfig :: "(hs_error \<Rightarrow> string) \<Rightarrow> (hs_config \<Rightarrow> hs_config) option \<Rightarrow> hs_config \<Rightarrow> hs_error list + hs_config" where
  "hs_LoadConfig render override decoded =
     (let c = (case override of None \<Rightarrow> decoded | Some f \<Rightarrow> f decoded);
          c1 = (if hc_resync_interval c = 0 then c\<lparr>hc_resync_interval := DefaultResyncInterval\<rparr> else c)
      in if hs_Validate render c1 = [] then Inr c1 else Inl (hs_Validate render c1))"

text \<open>\<open>Annotations\<close>: the merge patch, a null for each known service that is not enabled.\<close>

definition Annotations :: "hs_config \<Rightarrow> (string, string option) gomap" where
  "Annotations c =
     fold (\<lambda>name. mput (HostServiceAnnotation name) (Some (JoinHostPort (hc_bridge_gateway c) (Itoa (service_port c name)))))
       (EnabledHostServices c)
       (fold (\<lambda>name. mput (HostServiceAnnotation name) None) HostServiceNames [])"

text \<open>What the API server makes of a merge patch of a Node's annotations.\<close>

definition merge_patch :: "(string, string option) gomap \<Rightarrow> (string, string) gomap \<Rightarrow> (string, string) gomap" where
  "merge_patch patch node = fold (\<lambda>(k, v). case v of None \<Rightarrow> mdel k | Some x \<Rightarrow> mput k x) patch node"

text \<open>\<open>Publish\<close>: whether the API server accepts the patch decides the annotations after it.\<close>

definition Publish :: "bool \<Rightarrow> (string, string option) gomap \<Rightarrow> (string, string) gomap \<Rightarrow> bool \<times> (string, string) gomap" where
  "Publish accepted patch node = (if accepted then (True, merge_patch patch node) else (False, node))"

text \<open>
  One turn of the loop of \<open>Run\<close>: what something else patched on the Node before it,
  whether the write is accepted, and whether the context ended during the call or in the
  wait. The result is the annotations, the waits, and whether \<open>Run\<close> returned.
\<close>

record publish_turn =
  pt_others :: "(string, string option) gomap"
  pt_accepted :: bool
  pt_ended_in_call :: bool
  pt_ended_in_wait :: bool

fun hs_Run :: "hs_config \<Rightarrow> publish_turn list \<Rightarrow> (string, string) gomap \<Rightarrow> (string, string) gomap \<times> duration list \<times> bool" where
  "hs_Run c [] node = (node, [], False)"
| "hs_Run c (t # ts) node =
     (case Publish (pt_accepted t) (Annotations c) (merge_patch (pt_others t) node) of (ok, node1) \<Rightarrow>
      if pt_ended_in_call t then (node1, [], True)
      else let wait = (if ok then hc_resync_interval c else min (hc_resync_interval c) retryInterval)
        in if pt_ended_in_wait t then (node1, [wait], True)
           else case hs_Run c ts node1 of (node2, waits, returned) \<Rightarrow> (node2, wait # waits, returned))"

section \<open>What is published\<close>

lemma mget_fold_mput:
  assumes "inj k"
  shows "mget (fold (\<lambda>n. mput (k n) (v n)) ns m) (k x) = (if x \<in> set ns then Some (v x) else mget m (k x))"
  by (induction ns arbitrary: m) (auto simp: inj_eq [OF assms])

lemma mget_fold_other: "(\<forall>n \<in> set ns. key \<noteq> k n) \<Longrightarrow> mget (fold (\<lambda>n. mput (k n) (v n)) ns m) key = mget m key"
  by (induction ns arbitrary: m) auto

lemma gomap_ok_fold_mput: "gomap_ok m \<Longrightarrow> gomap_ok (fold (\<lambda>n. mput (k n) (v n)) ns m)"
  by (induction ns arbitrary: m) auto

lemma inj_HostServiceAnnotation: "inj HostServiceAnnotation"
  by (simp add: inj_def)

lemma gomap_ok_Annotations [simp]: "gomap_ok (Annotations c)"
  unfolding Annotations_def by (intro gomap_ok_fold_mput gomap_ok_Nil)

lemma mget_Annotations:
  "mget (Annotations c) (HostServiceAnnotation name) =
     (if name \<in> set (EnabledHostServices c) then Some (Some (JoinHostPort (hc_bridge_gateway c) (Itoa (service_port c name))))
      else if name \<in> set HostServiceNames then Some None else None)"
  by (simp add: Annotations_def mget_fold_mput [OF inj_HostServiceAnnotation])

lemma mget_Annotations_other: "(\<forall>name. key \<noteq> HostServiceAnnotation name) \<Longrightarrow> mget (Annotations c) key = None"
  by (simp add: Annotations_def mget_fold_other)

lemma mget_merge_patch:
  "gomap_ok patch \<Longrightarrow> mget (merge_patch patch node) key = (case mget patch key of None \<Rightarrow> mget node key | Some v \<Rightarrow> v)"
proof (induction patch arbitrary: node)
  case (Cons kv patch)
  obtain k v where kv: "kv = (k, v)" by (cases kv)
  from Cons.prems kv have ok: "gomap_ok patch" and absent: "mget patch k = None"
    by (auto simp: gomap_ok_def map_of_eq_None_iff)
  show ?case using Cons.IH [OF ok] absent kv
    by (cases v) (auto simp: merge_patch_def split: option.splits)
qed (simp add: merge_patch_def)

lemma sort_key_Nil_iff: "sort_key f xs = [] \<longleftrightarrow> xs = []"
  using set_sort [of f xs] by (cases xs) auto

lemma EnabledHostServices_iff:
  "gomap_ok (hc_host_services c) \<Longrightarrow>
   name \<in> set (EnabledHostServices c) \<longleftrightarrow> (\<exists>svc. mget (hc_host_services c) name = Some svc \<and> hsv_enabled svc)"
  by (force simp: EnabledHostServices_def mget_in_set [symmetric])

text \<open>What a configuration that validates guarantees of every service it publishes.\<close>

lemma hs_Validate_sound:
  assumes "hs_Validate render c = []" "name \<in> set (EnabledHostServices c)"
  shows "ParseIP (hc_bridge_gateway c) \<and> 0 < service_port c name \<and> service_port c name \<le> 65535"
proof -
  from assms(1) have "\<not> (EnabledHostServices c \<noteq> [] \<and> \<not> ParseIP (hc_bridge_gateway c))"
    "filter (\<lambda>name. service_port c name \<le> 0 \<or> 65535 < service_port c name) (EnabledHostServices c) = []"
    unfolding hs_Validate_def by (auto simp: sort_key_Nil_iff split: if_splits)
  with assms(2) show ?thesis by (auto simp: filter_empty_conv)
qed

lemma hs_Validate_names:
  assumes "hs_Validate render c = []" "mhas (hc_host_services c) name"
  shows "name \<in> set HostServiceNames"
proof -
  from assms(1) have "filter (\<lambda>name. name \<notin> set HostServiceNames) (sort (mkeys (hc_host_services c))) = []"
    unfolding hs_Validate_def by (auto simp: sort_key_Nil_iff)
  with assms(2) show ?thesis by (fastforce simp: filter_empty_conv dest: map_of_SomeD)
qed

lemma Itoa_port: "0 \<le> n \<Longrightarrow> list_all is_digit (Itoa n)"
  using format_nat_digits [of "nat n"] by (simp add: Itoa_def)

lemma published_address:
  assumes "hs_Validate render c = []" "name \<in> set (EnabledHostServices c)"
  shows "SplitHostPort (JoinHostPort (hc_bridge_gateway c) (Itoa (service_port c name)))
           = Some (hc_bridge_gateway c, Itoa (service_port c name))"
proof (rule SplitHostPort_Join)
  note ok = hs_Validate_sound [OF assms]
  have digits: "list_all is_digit (Itoa (service_port c name))" using ok by (intro Itoa_port) simp
  then show "CHR '':'' \<notin> set (Itoa (service_port c name))" by (auto simp: list_all_iff is_digit_def)
  show "CHR ''['' \<notin> set (hc_bridge_gateway c @ Itoa (service_port c name))"
    "CHR '']'' \<notin> set (hc_bridge_gateway c @ Itoa (service_port c name))"
    using digits ParseIP_no_bracket [of "hc_bridge_gateway c"] ok by (auto simp: list_all_iff is_digit_def)
qed

text \<open>
  The Node after \<open>Run\<close>: whatever else was patched in between, a run that ends with an
  accepted write leaves the services' annotations as the configuration has them.
\<close>

lemma hs_Run_snoc:
  assumes "\<not> list_ex (\<lambda>t. pt_ended_in_call t \<or> pt_ended_in_wait t) ts"
  shows "fst (hs_Run c (ts @ [t]) node)
         = snd (Publish (pt_accepted t) (Annotations c) (merge_patch (pt_others t) (fst (hs_Run c ts node))))"
  using assms
proof (induction ts arbitrary: node)
  case (Cons a ts)
  obtain ok node1 where "Publish (pt_accepted a) (Annotations c) (merge_patch (pt_others a) node) = (ok, node1)"
    by (metis prod.exhaust)
  with Cons show ?case by (simp add: Let_def case_prod_unfold)
qed (simp add: Let_def case_prod_unfold)

end
