(* ===== verification/Host_Env.thy ===== *)
theory Host_Env
  imports Host_Services Config_Types
begin

text \<open>
  The Host Service environment of a Job (\<open>internal/executor/hostenv.go\<close>, \<open>hostnode.go\<close>): the
  variables a Host's addresses give, how the Executor merges them into the Job's own, and
  how the claim design reads the addresses from the annotations of the Host's Node.
\<close>

section \<open>The resolver\<close>

fun strings_Join :: "string list \<Rightarrow> string \<Rightarrow> string" where
  "strings_Join [] sep = []"
| "strings_Join [x] sep = x"
| "strings_Join (x # y # zs) sep = x @ sep @ strings_Join (y # zs) sep"

record host_service_env =
  he_vars :: "(string, string) gomap"
  he_services :: "string list"

abbreviation ServiceBuildkit :: string where "ServiceBuildkit \<equiv> HostServiceBuildkit"
abbreviation ServiceGoProxy :: string where "ServiceGoProxy \<equiv> HostServiceGoProxy"
abbreviation ServiceRegistryMirror :: string where "ServiceRegistryMirror \<equiv> HostServiceRegistryMirror"
abbreviation ServiceHTTPCache :: string where "ServiceHTTPCache \<equiv> HostServiceHTTPCache"

text \<open>A lookup in a Go map of strings, the empty string when the key is absent.\<close>

definition mstr :: "(string, string) gomap \<Rightarrow> string \<Rightarrow> string" where
  "mstr m k = (case mget m k of None \<Rightarrow> [] | Some v \<Rightarrow> v)"

definition put_service :: "string \<Rightarrow> (string \<times> string) list \<Rightarrow> host_service_env \<Rightarrow> host_service_env" where
  "put_service name vars env = env\<lparr>he_vars := fold (\<lambda>(k, v). mput k v) vars (he_vars env), he_services := he_services env @ [name]\<rparr>"

text \<open>The HTTP cache variables of the upstreams that have both a name for one and an address.\<close>

definition cache_vars :: "http_upstream list \<Rightarrow> (string, string) gomap \<Rightarrow> (string \<times> string) list" where
  "cache_vars ups addrs = map (\<lambda>u. (hu_env_var u, mstr addrs (hu_name u)))
     (filter (\<lambda>u. hu_env_var u \<noteq> [] \<and> mstr addrs (hu_name u) \<noteq> []) ups)"

definition go_proxy_vars :: "go_proxy \<Rightarrow> string \<Rightarrow> (string \<times> string) list" where
  "go_proxy_vars gp addr = [(''GOPROXY'', addr), (''GOFLAGS'', ''-modcacherw'')]
     @ (if gp_private_patterns gp \<noteq> [] then [(''GONOSUMDB'', strings_Join (gp_private_patterns gp) '',''), (''GONOPROXY'', '''')] else [])"

definition Resolve :: "host_services \<Rightarrow> inventory_host option \<Rightarrow> host_service_env" where
  "Resolve cfg h = (case h of
     None \<Rightarrow> \<lparr>he_vars = [], he_services = []\<rparr>
   | Some entry \<Rightarrow>
       let addrs = ih_services entry;
           e0 = \<lparr>he_vars = [], he_services = []\<rparr>;
           e1 = (if IsEnabled (bk_service (hs_buildkit cfg)) \<and> sa_buildkit addrs \<noteq> []
                 then put_service ServiceBuildkit [(''BUILDKIT_HOST'', sa_buildkit addrs)] e0 else e0);
           e2 = (if IsEnabled (gp_service (hs_go_proxy cfg)) \<and> sa_go_proxy addrs \<noteq> []
                 then put_service ServiceGoProxy (go_proxy_vars (hs_go_proxy cfg) (sa_go_proxy addrs)) e1 else e1);
           e3 = (if IsEnabled (rm_service (hs_registry_mirror cfg)) \<and> sa_registry_mirror addrs \<noteq> []
                 then put_service ServiceRegistryMirror [(''CI_REGISTRY_MIRROR'', sa_registry_mirror addrs)] e2 else e2);
           cache = cache_vars (ht_upstreams (hs_http_cache cfg)) (sa_http_cache addrs)
       in if IsEnabled (ht_service (hs_http_cache cfg)) \<and> cache \<noteq> [] then put_service ServiceHTTPCache cache e3 else e3)"

section \<open>Merging into the Job's variables\<close>

record variable =
  var_key :: string
  var_value :: string
  var_public :: bool

definition HostServiceVarNames :: "string list" where
  "HostServiceVarNames = [''BUILDKIT_HOST'', ''GOPROXY'', ''GOFLAGS'', ''GONOSUMDB'', ''GONOPROXY'', ''CI_REGISTRY_MIRROR'']"

text \<open>\<open>WithHTTPCacheUpstreams\<close>: the names it adds to the closed list.\<close>

definition WithHTTPCacheUpstreams :: "http_upstream list \<Rightarrow> (string, bool) gomap \<Rightarrow> (string, bool) gomap" where
  "WithHTTPCacheUpstreams ups vars = fold (\<lambda>u m. if hu_env_var u \<noteq> [] then mput (hu_env_var u) True m else m) ups vars"

definition allowedVarNames :: "(string, bool) gomap \<Rightarrow> (string, bool) gomap" where
  "allowedVarNames cacheVars = mdel ''GOPRIVATE''
     (fold (\<lambda>n. mput n True) (mkeys cacheVars) (fold (\<lambda>n. mput n True) HostServiceVarNames []))"

text \<open>
  \<open>addHostServiceEnv\<close>: the Job's variables with the Host's added, and the names of the
  services for the log. \<open>resolver\<close> and \<open>lookup\<close> are the \<open>Env\<close> and \<open>Inventory\<close> dependencies.
\<close>

definition addHostServiceEnv ::
  "(inventory_host option \<Rightarrow> host_service_env) option \<Rightarrow> (string \<Rightarrow> inventory_host option) option \<Rightarrow> (string, bool) gomap
     \<Rightarrow> string \<Rightarrow> variable list \<Rightarrow> variable list \<times> string list" where
  "addHostServiceEnv resolver lookup cacheVars host vars =
     (let env = (case (resolver, lookup) of
            (Some r, Some l) \<Rightarrow> r (l host)
          | _ \<Rightarrow> \<lparr>he_vars = [], he_services = []\<rparr>);
          allowed = allowedVarNames cacheVars;
          jobSets = map var_key vars;
          names = filter (\<lambda>k. mget allowed k = Some True \<and> k \<notin> set jobSets) (sort (mkeys (he_vars env)))
      in (vars @ map (\<lambda>k. \<lparr>var_key = k, var_value = mstr (he_vars env) k, var_public = True\<rparr>) names, he_services env))"

definition servicesLine :: "string list \<Rightarrow> string" where
  "servicesLine services = (if services = [] then ''Host services: none'' else ''Host services: '' @ strings_Join services '', '')"

section \<open>The addresses on a Node\<close>

definition node_address :: "(string, string) gomap \<Rightarrow> string \<Rightarrow> string" where
  "node_address annotations service =
     (let a = mstr annotations (HostServiceAnnotation service) in if SplitHostPort a = None then [] else a)"

definition node_services :: "http_upstream list \<Rightarrow> (string, string) gomap \<Rightarrow> service_addresses" where
  "node_services ups annotations =
     (let url = (\<lambda>scheme service. if node_address annotations service \<noteq> [] then scheme @ node_address annotations service else [])
      in \<lparr>sa_buildkit = url ''tcp://'' ServiceBuildkit,
          sa_go_proxy = url ''http://'' ServiceGoProxy,
          sa_registry_mirror = url ''http://'' ServiceRegistryMirror,
          sa_http_cache =
            (if node_address annotations ServiceHTTPCache \<noteq> [] \<and> ups \<noteq> []
             then fold (\<lambda>u. mput (hu_name u) (''http://'' @ node_address annotations ServiceHTTPCache @ ''/'' @ hu_name u)) ups []
             else [])\<rparr>)"

text \<open>
  \<open>hostNodes.Host\<close>: \<open>nodes\<close> is the API server's answer, the Node's name and annotations. The
  entry carries the zero value in every other field.
\<close>

definition node_entry :: "string \<Rightarrow> service_addresses \<Rightarrow> inventory_host" where
  "node_entry name addrs = \<lparr>ih_name = name, ih_endpoint = [], ih_arch = [], ih_vcpu = 0, ih_memory_mb = 0, ih_labels = [], ih_token = [],
     ih_tls = \<lparr>ct_ca_file = [], ct_cert_file = [], ct_key_file = [], ct_insecure = False\<rparr>, ih_services = addrs,
     ih_versions = \<lparr>iv_flintlock = [], iv_firecracker = [], iv_cloud_hypervisor = [], iv_containerd = []\<rparr>\<rparr>"

definition node_Host :: "(string \<Rightarrow> (string \<times> (string, string) gomap) option) \<Rightarrow> http_upstream list \<Rightarrow> string \<Rightarrow> inventory_host option" where
  "node_Host nodes ups name = (case nodes name of
     None \<Rightarrow> None
   | Some (node, annotations) \<Rightarrow> Some (node_entry node (node_services ups annotations)))"

section \<open>What is added\<close>

lemma mget_fold_True: "mget (fold (\<lambda>n. mput n True) ns m) k = (if k \<in> set ns then Some True else mget m k)"
  by (induction ns arbitrary: m) auto

lemma allowed_iff:
  "mget (allowedVarNames cacheVars) k = Some True
     \<longleftrightarrow> k \<noteq> ''GOPRIVATE'' \<and> (k \<in> set HostServiceVarNames \<or> k \<in> set (mkeys cacheVars))"
  by (simp add: allowedVarNames_def mget_fold_True)

lemma mstr_of: "mget m k = Some v \<Longrightarrow> mstr m k = v"
  by (simp add: mstr_def)

text \<open>
  C18. The variables a Job runs with are its own, unchanged and in order, then one public
  variable for each name the Host's services give that the closed list allows and the Job
  does not set itself. \<open>GOPRIVATE\<close> is never among them, whatever the resolver answers and
  whatever names the configuration lists, and no name is added twice.
\<close>

theorem host_env_never_overrides:
  assumes "gomap_ok (he_vars (resolver (lookup host)))"
    and "addHostServiceEnv (Some resolver) (Some lookup) cacheVars host vars = (vars', services)"
  shows "\<exists>added. vars' = vars @ added
    \<and> distinct (map var_key added)
    \<and> (\<forall>v. v \<in> set added \<longleftrightarrow>
         var_public v \<and> mget (he_vars (resolver (lookup host))) (var_key v) = Some (var_value v)
         \<and> var_key v \<noteq> ''GOPRIVATE''
         \<and> (var_key v \<in> set HostServiceVarNames \<or> var_key v \<in> set (mkeys cacheVars))
         \<and> var_key v \<notin> set (map var_key vars))"
proof -
  let ?env = "resolver (lookup host)"
  let ?names = "filter (\<lambda>k. mget (allowedVarNames cacheVars) k = Some True \<and> k \<notin> set (map var_key vars)) (sort (mkeys (he_vars ?env)))"
  let ?added = "map (\<lambda>k. \<lparr>var_key = k, var_value = mstr (he_vars ?env) k, var_public = True\<rparr>) ?names"
  have vars': "vars' = vars @ ?added" using assms(2) by (simp add: addHostServiceEnv_def Let_def)
  have keys: "map var_key ?added = ?names" by (simp add: comp_def)
  have "distinct ?names" using assms(1) by (simp add: gomap_ok_def)
  then have "distinct (map var_key ?added)" unfolding keys .
  moreover have "v \<in> set ?added \<longleftrightarrow>
      var_public v \<and> mget (he_vars ?env) (var_key v) = Some (var_value v)
      \<and> var_key v \<noteq> ''GOPRIVATE''
      \<and> (var_key v \<in> set HostServiceVarNames \<or> var_key v \<in> set (mkeys cacheVars))
      \<and> var_key v \<notin> set (map var_key vars)" for v :: variable
  proof -
    have "v \<in> set ?added \<longleftrightarrow> var_key v \<in> set ?names \<and> var_value v = mstr (he_vars ?env) (var_key v) \<and> var_public v"
      by (cases v) auto
    then show ?thesis
      using mkeys_mget [of "var_key v" "he_vars ?env"] by (auto simp: mstr_def allowed_iff)
  qed
  ultimately show ?thesis using vars' by blast
qed

text \<open>A resolver that offers the proxy the Job has chosen itself, a mirror, and \<open>GOPRIVATE\<close>.\<close>

definition sample_env :: host_service_env where
  "sample_env = \<lparr>he_vars = [(''GOPROXY'', ''http://10.0.0.1:3000''), (''GOPRIVATE'', ''*''), (''CI_REGISTRY_MIRROR'', ''http://10.0.0.1:5000'')],
     he_services = [ServiceGoProxy, ServiceRegistryMirror]\<rparr>"

definition sample_var :: variable where
  "sample_var = \<lparr>var_key = ''GOPROXY'', var_value = ''off'', var_public = False\<rparr>"

definition sample_mirror :: variable where
  "sample_mirror = \<lparr>var_key = ''CI_REGISTRY_MIRROR'', var_value = ''http://10.0.0.1:5000'', var_public = True\<rparr>"

lemma sample_env_ok: "gomap_ok (he_vars sample_env)"
  by code_simp

lemma sample_env_added:
  "addHostServiceEnv (Some (\<lambda>h. sample_env)) (Some (\<lambda>name. None)) [(''GOPRIVATE'', True)] ''h'' [sample_var]
     = ([sample_var, sample_mirror], [ServiceGoProxy, ServiceRegistryMirror])"
  by code_simp

theorem host_env_never_overrides_witness:
  "\<exists>added. [sample_var, sample_mirror] = [sample_var] @ added \<and> distinct (map var_key added)"
  using host_env_never_overrides [where resolver = "\<lambda>h. sample_env" and lookup = "\<lambda>name. None" and host = "''h''", OF sample_env_ok sample_env_added]
  by blast

text \<open>What a published configuration reads back as, over every service the Executor knows.\<close>

definition published_url :: "hs_config \<Rightarrow> string \<Rightarrow> string \<Rightarrow> string" where
  "published_url c scheme name =
     (if name \<in> set (EnabledHostServices c) then scheme @ JoinHostPort (hc_bridge_gateway c) (Itoa (service_port c name)) else [])"

lemma node_address_published:
  assumes "hs_Validate render c = []" "name \<in> set HostServiceNames" "Publish True (Annotations c) node = (True, node')"
  shows "node_address node' name = published_url c [] name"
proof -
  have "node' = merge_patch (Annotations c) node" using assms(3) by (simp add: Publish_def)
  then have "mget node' (HostServiceAnnotation name) =
      (if name \<in> set (EnabledHostServices c) then Some (JoinHostPort (hc_bridge_gateway c) (Itoa (service_port c name))) else None)"
    using assms(2) by (simp add: mget_merge_patch mget_Annotations)
  then show ?thesis
    using published_address [OF assms(1)]
    by (simp add: node_address_def published_url_def mstr_def Let_def JoinHostPort_def split: if_splits)
qed

lemma published_url_scheme:
  "(if published_url c [] name \<noteq> [] then scheme @ published_url c [] name else []) = published_url c scheme name"
  by (simp add: published_url_def JoinHostPort_def)

lemma node_services_published:
  assumes "hs_Validate render c = []" "Publish True (Annotations c) node = (True, node')"
  shows "sa_buildkit (node_services ups node') = published_url c ''tcp://'' ServiceBuildkit"
    and "sa_go_proxy (node_services ups node') = published_url c ''http://'' ServiceGoProxy"
    and "sa_registry_mirror (node_services ups node') = published_url c ''http://'' ServiceRegistryMirror"
    and "u \<in> set ups \<Longrightarrow> mstr (sa_http_cache (node_services ups node')) (hu_name u)
           = (if published_url c [] ServiceHTTPCache = [] then [] else published_url c ''http://'' ServiceHTTPCache @ ''/'' @ hu_name u)"
proof -
  note addr = node_address_published [OF assms(1) _ assms(2)]
  have names: "ServiceBuildkit \<in> set HostServiceNames" "ServiceGoProxy \<in> set HostServiceNames"
    "ServiceRegistryMirror \<in> set HostServiceNames" "ServiceHTTPCache \<in> set HostServiceNames"
    by (simp_all add: HostServiceNames_def)
  show "sa_buildkit (node_services ups node') = published_url c ''tcp://'' ServiceBuildkit"
    "sa_go_proxy (node_services ups node') = published_url c ''http://'' ServiceGoProxy"
    "sa_registry_mirror (node_services ups node') = published_url c ''http://'' ServiceRegistryMirror"
    unfolding node_services_def Let_def service_addresses.simps addr [OF names(1)] addr [OF names(2)] addr [OF names(3)]
    by (simp_all only: published_url_scheme)
  assume u: "u \<in> set ups"
  have "mstr (fold (\<lambda>u. mput (hu_name u) (''http://'' @ a @ ''/'' @ hu_name u)) us m) (hu_name u) = ''http://'' @ a @ ''/'' @ hu_name u"
    if "u \<in> set us \<or> mget m (hu_name u) = Some (''http://'' @ a @ ''/'' @ hu_name u)" for a us and m :: "(string, string) gomap"
    using that by (induction us arbitrary: m) (auto simp: mstr_def)
  then show "mstr (sa_http_cache (node_services ups node')) (hu_name u)
           = (if published_url c [] ServiceHTTPCache = [] then [] else published_url c ''http://'' ServiceHTTPCache @ ''/'' @ hu_name u)"
    using u addr [OF names(4)]
    by (cases ups) (auto simp: node_services_def Let_def mstr_def published_url_def split: if_splits)
qed

section \<open>From the publisher to the Job\<close>

lemma mget_fold_pairs: "mget (fold (\<lambda>(k, v). mput k v) vs m) key = (case mget (rev vs) key of None \<Rightarrow> mget m key | Some v \<Rightarrow> Some v)"
  by (induction vs arbitrary: m) (auto simp: map_add_def split: option.splits)

lemma he_vars_put_service:
  "mget (he_vars (put_service name vs e)) key = (case mget (rev vs) key of None \<Rightarrow> mget (he_vars e) key | Some v \<Rightarrow> Some v)"
  by (simp add: put_service_def mget_fold_pairs)

lemma he_vars_put_if:
  "mget (he_vars (if b then put_service name vs e else e)) key
     = (case if b then mget (rev vs) key else None of None \<Rightarrow> mget (he_vars e) key | Some v \<Rightarrow> Some v)"
  by (simp add: he_vars_put_service)

lemma he_services_put_service [simp]: "he_services (put_service name vs e) = he_services e @ [name]"
  by (simp add: put_service_def)

lemma gomap_ok_put_service: "gomap_ok (he_vars e) \<Longrightarrow> gomap_ok (he_vars (put_service name vs e))"
proof -
  have "gomap_ok m \<Longrightarrow> gomap_ok (fold (\<lambda>(k, v). mput k v) vs m)" for m :: "(string, string) gomap"
    by (induction vs arbitrary: m) auto
  then show "gomap_ok (he_vars e) \<Longrightarrow> ?thesis" by (simp add: put_service_def)
qed

lemma gomap_ok_Resolve: "gomap_ok (he_vars (Resolve cfg h))"
  by (cases h) (auto simp: Resolve_def Let_def intro!: gomap_ok_put_service)

lemma cache_vars_keys: "key \<notin> hu_env_var ` set ups \<Longrightarrow> mget (rev (cache_vars ups addrs)) key = None"
  by (auto simp: cache_vars_def map_of_eq_None_iff)

lemma cache_vars_get:
  assumes "distinct (map hu_env_var ups)" "u \<in> set ups" "hu_env_var u \<noteq> []"
  shows "mget (rev (cache_vars ups addrs)) (hu_env_var u) = (if mstr addrs (hu_name u) = [] then None else Some (mstr addrs (hu_name u)))"
proof -
  have keys: "map fst (cache_vars ups addrs) = map hu_env_var (filter (\<lambda>u. hu_env_var u \<noteq> [] \<and> mstr addrs (hu_name u) \<noteq> []) ups)"
    by (simp add: cache_vars_def)
  have dist: "distinct (map fst (rev (cache_vars ups addrs)))"
    using assms(1) unfolding rev_map [symmetric] keys by (simp add: distinct_map_filter)
  show ?thesis
  proof (cases "mstr addrs (hu_name u) = []")
    case True
    have "hu_env_var u \<notin> set (map fst (cache_vars ups addrs))"
      using True assms by (auto simp: keys dest: inj_onD [OF conjunct2 [OF iffD1 [OF distinct_map]]])
    then show ?thesis using True by (simp add: map_of_eq_None_iff)
  next
    case False
    then have "(hu_env_var u, mstr addrs (hu_name u)) \<in> set (rev (cache_vars ups addrs))"
      using assms by (auto simp: cache_vars_def)
    then show ?thesis using False map_of_is_SomeI [OF dist] by simp
  qed
qed

lemma go_proxy_vars_rev: "mget (rev (go_proxy_vars gp addr)) key = mget (go_proxy_vars gp addr) key"
  by (simp add: go_proxy_vars_def)

lemma Resolve_get:
  assumes "key \<notin> hu_env_var ` set (ht_upstreams (hs_http_cache cfg))"
  shows "mget (he_vars (Resolve cfg (Some entry))) key =
    (if key = ''BUILDKIT_HOST'' \<and> IsEnabled (bk_service (hs_buildkit cfg)) \<and> sa_buildkit (ih_services entry) \<noteq> []
       then Some (sa_buildkit (ih_services entry))
     else if key = ''CI_REGISTRY_MIRROR'' \<and> IsEnabled (rm_service (hs_registry_mirror cfg)) \<and> sa_registry_mirror (ih_services entry) \<noteq> []
       then Some (sa_registry_mirror (ih_services entry))
     else if IsEnabled (gp_service (hs_go_proxy cfg)) \<and> sa_go_proxy (ih_services entry) \<noteq> []
       then mget (go_proxy_vars (hs_go_proxy cfg) (sa_go_proxy (ih_services entry))) key
     else None)"
  unfolding Resolve_def Let_def option.case he_vars_put_if cache_vars_keys [OF assms] go_proxy_vars_rev
  by (auto simp: go_proxy_vars_def split: if_splits)

lemma Resolve_get_cache:
  assumes "hu_env_var ` set (ht_upstreams (hs_http_cache cfg)) \<inter> set HostServiceVarNames = {}"
    and "distinct (map hu_env_var (ht_upstreams (hs_http_cache cfg)))"
    and "u \<in> set (ht_upstreams (hs_http_cache cfg))" "hu_env_var u \<noteq> []"
  shows "mget (he_vars (Resolve cfg (Some entry))) (hu_env_var u) =
    (if IsEnabled (ht_service (hs_http_cache cfg)) \<and> mstr (sa_http_cache (ih_services entry)) (hu_name u) \<noteq> []
     then Some (mstr (sa_http_cache (ih_services entry)) (hu_name u)) else None)"
proof -
  have "hu_env_var u \<notin> set HostServiceVarNames" using assms(1,3) by blast
  then have other: "hu_env_var u \<noteq> ''BUILDKIT_HOST''" "hu_env_var u \<noteq> ''GOPROXY''" "hu_env_var u \<noteq> ''GOFLAGS''"
    "hu_env_var u \<noteq> ''GONOSUMDB''" "hu_env_var u \<noteq> ''GONOPROXY''" "hu_env_var u \<noteq> ''CI_REGISTRY_MIRROR''"
    by (simp_all add: HostServiceVarNames_def)
  show ?thesis
    unfolding Resolve_def Let_def option.case he_vars_put_if cache_vars_get [OF assms(2,3,4)] go_proxy_vars_rev
    using other cache_vars_get [OF assms(2,3,4), of "sa_http_cache (ih_services entry)"]
    by (auto simp: go_proxy_vars_def split: if_splits)
qed


text \<open>A Host Agent with BuildKit and the HTTP cache on, and a Runner with one cache upstream.\<close>

definition sample_publisher :: hs_config where
  "sample_publisher = \<lparr>hc_host_node = ''node-1'', hc_kubeconfig = [], hc_bridge_gateway = ''fd00::1'',
     hc_host_services = [(''buildkit'', \<lparr>hsv_enabled = True, hsv_port = 1234\<rparr>), (''go_proxy'', \<lparr>hsv_enabled = False, hsv_port = 3000\<rparr>),
       (''http_cache'', \<lparr>hsv_enabled = True, hsv_port = 8080\<rparr>)], hc_resync_interval = 60 * second\<rparr>"

definition sample_upstream :: http_upstream where
  "sample_upstream = \<lparr>hu_name = ''pypi'', hu_url = ''https://pypi.org'', hu_size_limit = 0, hu_ttl = 0, hu_env_var = ''PIP_INDEX_URL''\<rparr>"

definition sample_services :: host_services where
  "sample_services = (let on = \<lparr>sv_enabled = None, sv_port = 0\<rparr> in
     \<lparr>hs_buildkit = \<lparr>bk_service = on, bk_storage_limit = 0, bk_gc_policy = []\<rparr>,
      hs_go_proxy = \<lparr>gp_service = on, gp_upstream = [], gp_private_patterns = [], gp_private_vcs_host = [], gp_credential_parameter = [],
        gp_private_revalidate = 0, gp_storage_limit = 0, gp_prewarm = []\<rparr>,
      hs_registry_mirror = \<lparr>rm_service = on, rm_upstreams = [], rm_storage_limit = 0, rm_prewarm = []\<rparr>,
      hs_http_cache = \<lparr>ht_service = on, ht_upstreams = [sample_upstream]\<rparr>,
      hs_cache_volume = \<lparr>cv_device = [], cv_directory = [], cv_size_cap = 0\<rparr>\<rparr>)"

definition sample_node :: "string \<Rightarrow> (string \<times> (string, string) gomap) option" where
  "sample_node host = (if host = ''node-1''
     then Some (host, snd (Publish True (Annotations sample_publisher) [(HostServiceAnnotation ''go_proxy'', ''old:1'')])) else None)"

lemma sample_publisher_valid: "hs_Validate (\<lambda>e. []) sample_publisher = []"
  by code_simp

lemma sample_upstreams: "ht_upstreams (hs_http_cache sample_services) = [sample_upstream]"
  by (simp add: sample_services_def Let_def)

lemma sample_published:
  "IsEnabled (bk_service (hs_buildkit sample_services)) = True" "IsEnabled (ht_service (hs_http_cache sample_services)) = True"
  "EnabledHostServices sample_publisher = [''buildkit'', ''http_cache'']"
  "hc_bridge_gateway sample_publisher = ''fd00::1''"
  "Itoa (service_port sample_publisher ''buildkit'') = ''1234''" "Itoa (service_port sample_publisher ''http_cache'') = ''8080''"
  "hu_env_var sample_upstream = ''PIP_INDEX_URL''" "hu_name sample_upstream = ''pypi''"
proof -
  show "EnabledHostServices sample_publisher = [''buildkit'', ''http_cache'']" by code_simp
qed (simp_all add: sample_services_def IsEnabled_def Let_def sample_publisher_def sample_upstream_def service_port_def Itoa_def
  format_nat.simps digit_char_def char_of_def bit_0)


end
