(* ===== verification/Transport.thy ===== *)
theory Transport
  imports Config_Text Pool_Types
begin

text \<open>
  The Guest Transports (\<open>internal/transport\<close>): the framing of one \<open>ExecCommand\<close> exchange
  (\<open>exec.go\<close>), the liveness watch beside it (\<open>watchdog.go\<close>), the \<open>ssh\<close> transport's command
  line and outcome (\<open>ssh.go\<close>) and the factory that picks one (\<open>factory.go\<close>). What the Host
  sends and when its calls fail is the environment an operation is given.
\<close>

section \<open>Commands and errors\<close>

text \<open>A command, without the streams its output goes to; no standard input is \<open>None\<close>.\<close>

record command =
  cmd_path :: string
  cmd_args :: "string list"
  cmd_dir :: string
  cmd_env :: "(string, string) gomap"
  cmd_user :: string
  cmd_stdin :: "string option"

datatype tr_error =
    NoPath
  | StreamFailure string string
  | ExecReported string
  | SessionCancelled ctx_error
  | HandshakeCancelled ctx_error
  | SSHClosed
  | KeyUnparsable
  | HostKeyUnparsable
  | NotReadyBecause tr_error
  | ReadyExited int

text \<open>\<open>errors.Is(err, ErrStreamFailed)\<close>.\<close>

fun stream_failed :: "tr_error \<Rightarrow> bool" where
  "stream_failed (StreamFailure what because) = True"
| "stream_failed (ExecReported payload) = True"
| "stream_failed (SessionCancelled e) = True"
| "stream_failed (HandshakeCancelled e) = True"
| "stream_failed (NotReadyBecause e) = stream_failed e"
| "stream_failed _ = False"

text \<open>\<open>errors.Is(err, ErrNotReady)\<close>.\<close>

fun not_ready :: "tr_error \<Rightarrow> bool" where
  "not_ready (NotReadyBecause e) = True"
| "not_ready (ReadyExited status) = True"
| "not_ready _ = False"

type_synonym outcome = "int \<times> tr_error option"

section \<open>The exec exchange\<close>

datatype exec_frame = StdoutChunk string | StderrChunk string | ErrorPayload string | ExitCode int | OtherFrame

datatype stream_end = EndOfStream | StreamBroke string

definition execError :: "string \<Rightarrow> tr_error" where
  "execError payload = ExecReported (if payload = [] then ''no reason given'' else payload)"

text \<open>\<open>write\<close>: nothing is written to a nil writer or of an empty chunk; \<open>refused\<close> is the writer's error.\<close>

definition write_chunk :: "bool \<Rightarrow> string \<Rightarrow> string option \<Rightarrow> string option" where
  "write_chunk discard chunk refused = (if discard \<or> chunk = [] then None else refused)"

datatype out_chunk = Out string | Err string

text \<open>
  \<open>receive\<close>: each frame comes with the answer of the writer its chunk goes to. The result is
  the exit status or the failure, and the chunks delivered.
\<close>

fun receive :: "bool \<times> bool \<Rightarrow> string option \<Rightarrow> stream_end \<Rightarrow> tr_error option \<Rightarrow> (exec_frame \<times> string option) list \<Rightarrow> outcome \<times> out_chunk list" where
  "receive nil unreachable fin reported [] =
     ((- 1, Some (case unreachable of
         Some u \<Rightarrow> StreamFailure ''host stopped answering'' u
       | None \<Rightarrow> (case reported of
           Some r \<Rightarrow> r
         | None \<Rightarrow> (case fin of
             EndOfStream \<Rightarrow> StreamFailure ''exec stream ended before the exit code'' ''no exit_code payload''
           | StreamBroke e \<Rightarrow> StreamFailure ''exec stream failed'' e)))), [])"
| "receive nil unreachable fin reported ((f, refused) # fs) = (case f of
     StdoutChunk d \<Rightarrow> (case write_chunk (fst nil) d refused of
       Some e \<Rightarrow> ((- 1, Some (StreamFailure ''writing stdout'' e)), [])
     | None \<Rightarrow> (case receive nil unreachable fin reported fs of (r, outs) \<Rightarrow> (r, Out d # outs)))
   | StderrChunk d \<Rightarrow> (case write_chunk (snd nil) d refused of
       Some e \<Rightarrow> ((- 1, Some (StreamFailure ''writing stderr'' e)), [])
     | None \<Rightarrow> (case receive nil unreachable fin reported fs of (r, outs) \<Rightarrow> (r, Err d # outs)))
   | ErrorPayload p \<Rightarrow> receive nil unreachable fin (Some (execError p)) fs
   | ExitCode c \<Rightarrow> ((c, None), [])
   | OtherFrame \<Rightarrow> receive nil unreachable fin reported fs)"

text \<open>The messages the client sends; \<open>HalfClose\<close> is \<open>CloseSend\<close>.\<close>

record exec_start =
  st_uid :: string
  st_cmd :: string
  st_args :: "string list"
  st_cwd :: string
  st_env :: "(string, string) gomap"
  st_user :: string
  st_has_stdin :: bool
  st_shell :: bool
  st_timeout :: int

datatype exec_message = StartMsg exec_start | StdinMsg string | StdinEofMsg | HalfClose

text \<open>What \<open>Send\<close> answers: sent, \<open>io.EOF\<close> because the stream has failed already, or an error.\<close>

datatype send_answer = Sent | SendEOF | SendError string

datatype read_end = More | ReadEOF | ReadError string

definition next_answer :: "send_answer list \<Rightarrow> send_answer \<times> send_answer list" where
  "next_answer answers = (case answers of [] \<Rightarrow> (Sent, []) | a # as \<Rightarrow> (a, as))"

definition send_eof :: "send_answer list \<Rightarrow> exec_message list \<times> string option" where
  "send_eof answers = (case fst (next_answer answers) of
     SendError e \<Rightarrow> ([StdinEofMsg], Some e)
   | _ \<Rightarrow> ([StdinEofMsg], None))"

text \<open>
  \<open>sendStdin\<close>: \<open>reads\<close> is what each \<open>Read\<close> of the input gives and \<open>answers\<close> what each
  \<open>Send\<close> answers; past the list a \<open>Send\<close> succeeds and a \<open>Read\<close> is at the end. A message is
  listed when it was handed to \<open>Send\<close>.
\<close>

fun send_loop :: "(string \<times> read_end) list \<Rightarrow> send_answer list \<Rightarrow> exec_message list \<times> string option" where
  "send_loop [] answers = send_eof answers"
| "send_loop ((chunk, end) # reads) answers =
     (let sent = (if chunk = [] then (Sent, answers) else next_answer answers);
          msgs = (if chunk = [] then [] else [StdinMsg chunk])
      in case fst sent of
           SendEOF \<Rightarrow> (msgs, None)
         | SendError e \<Rightarrow> (msgs, Some e)
         | Sent \<Rightarrow> (case end of
             More \<Rightarrow> (case send_loop reads (snd sent) of (rest, e) \<Rightarrow> (msgs @ rest, e))
           | ReadEOF \<Rightarrow> (case send_eof (snd sent) of (rest, e) \<Rightarrow> (msgs @ rest, e))
           | ReadError e \<Rightarrow> (msgs, Some (''reading stdin: '' @ e))))"

definition sendStdin :: "(string \<times> read_end) list option \<Rightarrow> send_answer list \<Rightarrow> exec_message list \<times> string option" where
  "sendStdin reader answers = (case reader of
     None \<Rightarrow> ([HalfClose], None)
   | Some reads \<Rightarrow> (case send_loop reads answers of (msgs, e) \<Rightarrow> (msgs @ [HalfClose], e)))"

abbreviation stdinChunk :: nat where "stdinChunk \<equiv> 32 * 1024"

text \<open>How a \<open>strings.Reader\<close> gives its text to a buffer of \<open>stdinChunk\<close> bytes.\<close>

function string_reads :: "string \<Rightarrow> (string \<times> read_end) list" where
  "string_reads s = (if s = [] then [([], ReadEOF)] else (take stdinChunk s, More) # string_reads (drop stdinChunk s))"
  by auto
termination by (relation "measure length") auto

declare string_reads.simps [simp del]

text \<open>
  \<open>remainingSeconds\<close>: the whole seconds left, rounded up in float64 as \<open>Duration.Seconds\<close>
  computes them.
\<close>

definition float_ceil :: "float64 \<Rightarrow> nat" where
  "float_ceil f = (case f of (m, s) \<Rightarrow> if s \<ge> 0 then m * 2 ^ nat s else (m + 2 ^ nat (- s) - 1) div 2 ^ nat (- s))"

definition seconds_of :: "nat \<Rightarrow> float64 option" where
  "seconds_of d = (case float_of (d mod 1000000000) 1000000000 of
     None \<Rightarrow> None
   | Some (m, s) \<Rightarrow> if s \<ge> 0 then float_of (d div 1000000000 + m * 2 ^ nat s) 1
       else float_of (d div 1000000000 * 2 ^ nat (- s) + m) (2 ^ nat (- s)))"

definition remainingSeconds :: "duration option \<Rightarrow> int" where
  "remainingSeconds left = (case left of
     None \<Rightarrow> 0
   | Some d \<Rightarrow>
       if d \<le> 0 then 1
       else case seconds_of (nat d) of
         None \<Rightarrow> 2 ^ 31 - 1
       | Some f \<Rightarrow> if float_ceil f > 2 ^ 31 - 1 then 2 ^ 31 - 1 else int (float_ceil f))"

text \<open>What happens around one exchange.\<close>

record exchange_env =
  xe_left :: "duration option"
  xe_open :: "string option"
  xe_start :: send_answer
  xe_recv_after_eof :: "string option"
  xe_sends :: "send_answer list"
  xe_reads :: "(string \<times> read_end) list option"
  xe_nil :: "bool \<times> bool"
  xe_frames :: "(exec_frame \<times> string option) list"
  xe_end :: stream_end
  xe_unreachable :: "string option"
  xe_stdin_finished :: bool

text \<open>\<open>firstError\<close>: the status on the response stream explains an \<open>io.EOF\<close> from \<open>Send\<close>.\<close>

definition firstError :: "send_answer \<Rightarrow> string option \<Rightarrow> string option" where
  "firstError a recv = (case a of
     Sent \<Rightarrow> None
   | SendError e \<Rightarrow> Some e
   | SendEOF \<Rightarrow> Some (case recv of Some r \<Rightarrow> r | None \<Rightarrow> ''EOF''))"

definition exchange :: "exec_start \<Rightarrow> exchange_env \<Rightarrow> outcome \<times> out_chunk list \<times> exec_message list" where
  "exchange start env =
     (let start1 = start\<lparr>st_timeout := remainingSeconds (xe_left env)\<rparr>
      in case xe_open env of
        Some e \<Rightarrow> ((- 1, Some (StreamFailure ''opening exec stream'' e)), [], [])
      | None \<Rightarrow> (case firstError (xe_start env) (xe_recv_after_eof env) of
          Some e \<Rightarrow> ((- 1, Some (StreamFailure ''sending exec start'' e)), [], [StartMsg start1])
        | None \<Rightarrow>
            let stdin = (if st_has_stdin start then sendStdin (xe_reads env) (xe_sends env) else ([HalfClose], None))
            in case receive (xe_nil env) (xe_unreachable env) (xe_end env) None (xe_frames env) of
                 ((status, None), outs) \<Rightarrow> ((status, None), outs, StartMsg start1 # fst stdin)
               | ((status, Some e), outs) \<Rightarrow>
                   ((- 1, Some (case (xe_stdin_finished env \<or> \<not> st_has_stdin start, snd stdin) of
                       (True, Some x) \<Rightarrow> StreamFailure ''sending stdin'' x
                     | _ \<Rightarrow> e)), outs, StartMsg start1 # fst stdin)))"

definition exec_start_of :: "string \<Rightarrow> command \<Rightarrow> exec_start" where
  "exec_start_of uid cmd = \<lparr>st_uid = uid, st_cmd = cmd_path cmd, st_args = cmd_args cmd, st_cwd = cmd_dir cmd, st_env = cmd_env cmd,
     st_user = cmd_user cmd, st_has_stdin = cmd_stdin cmd \<noteq> None, st_shell = False, st_timeout = 0\<rparr>"

definition exec_Run :: "string \<Rightarrow> command \<Rightarrow> exchange_env \<Rightarrow> outcome \<times> out_chunk list \<times> exec_message list" where
  "exec_Run uid cmd env =
     (if cmd_path cmd = [] then ((- 1, Some NoPath), [], [])
      else exchange (exec_start_of uid cmd) (env\<lparr>xe_reads := map_option string_reads (cmd_stdin cmd)\<rparr>))"

abbreviation readyCommand :: string where "readyCommand \<equiv> ''true''"

definition ready_of :: "outcome \<Rightarrow> tr_error option" where
  "ready_of r = (case r of
     (status, Some e) \<Rightarrow> Some (NotReadyBecause e)
   | (status, None) \<Rightarrow> if status \<noteq> 0 then Some (ReadyExited status) else None)"

definition exec_Ready :: "string \<Rightarrow> exchange_env \<Rightarrow> tr_error option" where
  "exec_Ready uid env = ready_of (fst (exchange
     \<lparr>st_uid = uid, st_cmd = readyCommand, st_args = [], st_cwd = [], st_env = [], st_user = [], st_has_stdin = False, st_shell = True, st_timeout = 0\<rparr>
     (env\<lparr>xe_nil := (True, True)\<rparr>)))"

section \<open>The liveness watch\<close>

text \<open>\<open>watchHost\<close>'s two bounds: how long silence lasts before a probe, and how long the probe may take.\<close>

definition watch_interval :: "duration \<Rightarrow> duration" where
  "watch_interval deadline = (let i = deadline div 2 in if i \<le> 0 then deadline else i)"

definition probe_timeout :: "duration \<Rightarrow> duration" where
  "probe_timeout deadline = (let t = deadline - watch_interval deadline in if t \<le> 0 then watch_interval deadline else t)"

text \<open>
  The watch: when its timer is due, or that it has ended; when the Host was last heard from;
  and the failure it recorded with the time it cancelled the operation.
\<close>

record watch =
  wa_due :: "time option"
  wa_heard :: time
  wa_failure :: "(string \<times> time) option"

text \<open>
  What can happen next: a response arrives, the operation ends, or the timer fires and the
  probe answers or fails after a while, with whether the operation ended under a failing one.
\<close>

datatype watch_event = Heard time | OperationEnds | ProbeAnswers duration | ProbeFails string duration bool

definition watchHost :: "duration \<Rightarrow> bool \<Rightarrow> time \<Rightarrow> watch" where
  "watchHost deadline has_host now =
     \<lparr>wa_due = (if deadline \<le> 0 \<or> \<not> has_host then None else Some (now + watch_interval deadline)), wa_heard = now, wa_failure = None\<rparr>"

fun watch_step :: "duration \<Rightarrow> watch_event \<Rightarrow> watch \<Rightarrow> watch" where
  "watch_step deadline (Heard t) w = (case wa_due w of
     None \<Rightarrow> w
   | Some due \<Rightarrow> w\<lparr>wa_due := Some (t + watch_interval deadline), wa_heard := t\<rparr>)"
| "watch_step deadline OperationEnds w = w\<lparr>wa_due := None\<rparr>"
| "watch_step deadline (ProbeAnswers took) w = (case wa_due w of
     None \<Rightarrow> w
   | Some due \<Rightarrow> w\<lparr>wa_due := Some (due + took + watch_interval deadline), wa_heard := due + took\<rparr>)"
| "watch_step deadline (ProbeFails e took ended) w = (case wa_due w of
     None \<Rightarrow> w
   | Some due \<Rightarrow> if ended then w\<lparr>wa_due := None\<rparr> else w\<lparr>wa_due := None, wa_failure := Some (e, due + took)\<rparr>)"

definition watch_run :: "duration \<Rightarrow> watch_event list \<Rightarrow> watch \<Rightarrow> watch" where
  "watch_run deadline evs w = fold (watch_step deadline) evs w"

section \<open>The ssh transport\<close>

fun replace_quotes :: "string \<Rightarrow> string" where
  "replace_quotes [] = []"
| "replace_quotes (c # cs) = (if c = CHR 0x27 then [CHR 0x27, CHR 0x5C, CHR 0x27, CHR 0x27] else [c]) @ replace_quotes cs"

definition shellQuote :: "string \<Rightarrow> string" where
  "shellQuote s = CHR 0x27 # replace_quotes s @ [CHR 0x27]"

definition export_text :: "(string, string) gomap \<Rightarrow> string \<Rightarrow> string" where
  "export_text env k = ''export '' @ k @ ''='' @ shellQuote (case mget env k of None \<Rightarrow> [] | Some v \<Rightarrow> v) @ '' && ''"

definition commandLine :: "command \<Rightarrow> string" where
  "commandLine cmd =
     (if cmd_dir cmd \<noteq> [] then ''cd '' @ shellQuote (cmd_dir cmd) @ '' && '' else [])
     @ concat (map (export_text (cmd_env cmd)) (sort (mkeys (cmd_env cmd))))
     @ ''exec '' @ shellQuote (cmd_path cmd) @ concat (map (\<lambda>a. CHR '' '' # shellQuote a) (cmd_args cmd))"

definition loginUser :: "string \<Rightarrow> string \<Rightarrow> string" where
  "loginUser login commandUser = (if login \<noteq> [] then login else if commandUser \<noteq> [] then commandUser else ''root'')"

text \<open>The connection an \<open>sshTransport\<close> holds, and what it does with proxy streams and clients.\<close>

record ssh_state =
  sh_connected :: bool
  sh_closed :: bool

datatype ssh_call = OpenProxy | CloseClient | CloseProxy | RunLine string string

datatype handshake = ShakeDone | ShakeFailed string | ShakeCancelled ctx_error bool

text \<open>What happens around \<open>dial\<close>; \<open>sd_closed_meanwhile\<close> says that \<open>Close\<close> ran during the handshake.\<close>

record dial_env =
  sd_key_parses :: bool
  sd_known_parses :: bool
  sd_proxy :: "string option"
  sd_handshake :: handshake
  sd_closed_meanwhile :: bool

text \<open>\<open>hostKeyCallback\<close>: no known key means none is verified.\<close>

definition hostKeyCallback :: "string \<Rightarrow> bool \<Rightarrow> tr_error option" where
  "hostKeyCallback known parses = (if TrimSpace known = [] \<or> parses then None else Some HostKeyUnparsable)"

definition ssh_dial :: "string \<Rightarrow> dial_env \<Rightarrow> ssh_state \<Rightarrow> ssh_state \<times> ssh_call list \<times> tr_error option" where
  "ssh_dial known env s =
     (if sh_closed s then (s, [], Some SSHClosed)
      else if sh_connected s then (s, [], None)
      else if \<not> sd_key_parses env then (s, [], Some KeyUnparsable)
      else case hostKeyCallback known (sd_known_parses env) of
        Some e \<Rightarrow> (s, [], Some e)
      | None \<Rightarrow> (case sd_proxy env of
          Some e \<Rightarrow> (s, [], Some (StreamFailure ''opening the ssh proxy stream'' e))
        | None \<Rightarrow>
            let s1 = (if sd_closed_meanwhile env then s\<lparr>sh_closed := True\<rparr> else s)
            in case sd_handshake env of
                 ShakeFailed e \<Rightarrow> (s1, [OpenProxy, CloseProxy], Some (StreamFailure ''ssh handshake'' e))
               | ShakeCancelled e late \<Rightarrow>
                   (s1, [OpenProxy, CloseProxy] @ (if late then [CloseClient] else []), Some (HandshakeCancelled e))
               | ShakeDone \<Rightarrow>
                   if sh_closed s1 then (s1, [OpenProxy, CloseClient, CloseProxy], Some SSHClosed)
                   else (s1\<lparr>sh_connected := True\<rparr>, [OpenProxy], None)))"

definition ssh_Close :: "ssh_state \<Rightarrow> ssh_state \<times> ssh_call list" where
  "ssh_Close s = (if sh_closed s then (s, [])
     else (\<lparr>sh_connected = False, sh_closed = True\<rparr>, if sh_connected s then [CloseClient, CloseProxy] else []))"

datatype session_end = SessionOk | SessionExited int | SessionFailed string

record ssh_run =
  sr_dial :: dial_env
  sr_unreachable :: "string option"
  sr_session :: "string option"
  sr_end :: session_end
  sr_ctx :: "ctx_error option"

definition ssh_Run :: "string \<Rightarrow> string \<Rightarrow> command \<Rightarrow> ssh_run \<Rightarrow> ssh_state \<Rightarrow> ssh_state \<times> ssh_call list \<times> outcome" where
  "ssh_Run login known cmd env s =
     (if cmd_path cmd = [] then (s, [], (- 1, Some NoPath))
      else case ssh_dial known (sr_dial env) s of
        (s1, calls, Some e) \<Rightarrow> (s1, calls, (- 1, Some (case sr_unreachable env of
            Some u \<Rightarrow> StreamFailure ''host stopped answering'' u | None \<Rightarrow> e)))
      | (s1, calls, None) \<Rightarrow> (case sr_session env of
          Some e \<Rightarrow> (s1, calls, (- 1, Some (StreamFailure ''opening ssh session'' e)))
        | None \<Rightarrow> (s1, calls @ [RunLine (loginUser login (cmd_user cmd)) (commandLine cmd)], (case sr_end env of
            SessionOk \<Rightarrow> (0, None)
          | SessionExited status \<Rightarrow> (status, None)
          | SessionFailed e \<Rightarrow> (- 1, Some (case sr_unreachable env of
              Some u \<Rightarrow> StreamFailure ''host stopped answering'' u
            | None \<Rightarrow> (case sr_ctx env of
                Some c \<Rightarrow> SessionCancelled c
              | None \<Rightarrow> StreamFailure ''ssh session failed before the exit status'' e)))))))"

definition ssh_Ready :: "string \<Rightarrow> string \<Rightarrow> ssh_run \<Rightarrow> ssh_state \<Rightarrow> ssh_state \<times> ssh_call list \<times> tr_error option" where
  "ssh_Ready login known env s = (case ssh_Run login known
      \<lparr>cmd_path = readyCommand, cmd_args = [], cmd_dir = [], cmd_env = [], cmd_user = [], cmd_stdin = None\<rparr> env s of
     (s1, calls, r) \<Rightarrow> (s1, calls, ready_of r))"

section \<open>The factory\<close>

abbreviation KindExec :: string where "KindExec \<equiv> ''exec''"
abbreviation KindSSH :: string where "KindSSH \<equiv> ''ssh''"
abbreviation KindAgentExec :: string where "KindAgentExec \<equiv> ''agent-exec''"

datatype service_info = ServiceInfoUnimplemented | ServiceInfoFailed string | ServiceInfo bool bool

datatype factory_error = NoHostClient | NoMicroVMUid | ServiceDisabled string | UnknownKind string | NeedsPrivateKey | PrivateKeyUnparsable

datatype transport_impl = ExecTransport | SSHTransport

definition checkService :: "service_info \<Rightarrow> string \<Rightarrow> factory_error option" where
  "checkService info kind = (case info of
     ServiceInfo exec_on ssh_on \<Rightarrow>
       (let (on, name) = (if kind = KindSSH then (ssh_on, ''ssh proxy'') else (exec_on, ''exec''))
        in if on then None else Some (ServiceDisabled name))
   | _ \<Rightarrow> None)"

definition newSSHTransport :: "bool \<Rightarrow> bool \<Rightarrow> factory_error + transport_impl" where
  "newSSHTransport has_key parses = (if \<not> has_key then Inl NeedsPrivateKey else if \<not> parses then Inl PrivateKeyUnparsable else Inr SSHTransport)"

definition factory_New :: "bool \<Rightarrow> string \<Rightarrow> string \<Rightarrow> service_info \<Rightarrow> bool \<Rightarrow> bool \<Rightarrow> factory_error + transport_impl" where
  "factory_New has_host uid kind info has_key parses =
     (if \<not> has_host then Inl NoHostClient
      else if uid = [] then Inl NoMicroVMUid
      else if kind = KindExec \<or> kind = [] \<or> kind = KindAgentExec then
        (case checkService info KindExec of Some e \<Rightarrow> Inl e | None \<Rightarrow> Inr ExecTransport)
      else if kind = KindSSH then
        (case checkService info KindSSH of Some e \<Rightarrow> Inl e | None \<Rightarrow> newSSHTransport has_key parses)
      else Inl (UnknownKind kind))"

section \<open>The clients of Exec Agents\<close>

record agent_claim =
  ac_lease :: string
  ac_vm :: string
  ac_host :: string
  ac_address :: string

record agent_hosts =
  ah_clients :: "nat list"
  ah_closed :: bool
  ah_next :: nat

datatype agent_error = ClaimWithoutLease string | AgentsClosed | DialFailed string string string | NoAnswer string

datatype agent_call = DialAgent nat string | CloseAgent nat

text \<open>
  \<open>Lease\<close>: the dialler's error, and whether \<open>Close\<close> ran while it dialled. A connection is
  numbered by the order of the dials.
\<close>

definition agents_Close :: "agent_hosts \<Rightarrow> agent_hosts \<times> agent_call list" where
  "agents_Close a = (a\<lparr>ah_clients := [], ah_closed := True\<rparr>, map CloseAgent (ah_clients a))"

definition agents_Lease :: "agent_claim \<Rightarrow> string option \<Rightarrow> bool \<Rightarrow> agent_hosts \<Rightarrow> agent_hosts \<times> agent_call list \<times> (agent_error + nat)" where
  "agents_Lease claim dial closed_meanwhile a =
     (if ac_lease claim = [] then (a, [], Inl (ClaimWithoutLease (ac_host claim)))
      else if ah_closed a then (a, [], Inl AgentsClosed)
      else case dial of
        Some e \<Rightarrow> (a, [], Inl (DialFailed (ac_lease claim) (ac_host claim) e))
      | None \<Rightarrow>
          let c = ah_next a; dialled = DialAgent c (ac_lease claim)
          in if closed_meanwhile then
               (case agents_Close (a\<lparr>ah_next := Suc c\<rparr>) of (a1, closes) \<Rightarrow> (a1, dialled # closes @ [CloseAgent c], Inl AgentsClosed))
             else (a\<lparr>ah_clients := c # ah_clients a, ah_next := Suc c\<rparr>, [dialled], Inr c))"

definition agents_release :: "nat \<Rightarrow> agent_hosts \<Rightarrow> agent_hosts \<times> agent_call list" where
  "agents_release c a = (a\<lparr>ah_clients := filter (\<lambda>x. x \<noteq> c) (ah_clients a)\<rparr>, [CloseAgent c])"

definition agents_Probe :: "agent_claim \<Rightarrow> string option \<Rightarrow> bool \<Rightarrow> string option \<Rightarrow> agent_hosts \<Rightarrow> agent_hosts \<times> agent_call list \<times> agent_error option" where
  "agents_Probe claim dial closed_meanwhile answer a = (case agents_Lease claim dial closed_meanwhile a of
     (a1, calls, Inl e) \<Rightarrow> (a1, calls, Some e)
   | (a1, calls, Inr c) \<Rightarrow> (case agents_release c a1 of (a2, closes) \<Rightarrow> (a2, calls @ closes, map_option NoAnswer answer)))"

end
