(* ===== verification/Transport_Props.thy ===== *)
theory Transport_Props
  imports Transport
begin

text \<open>
  What the Guest Transports promise: when the exit status of a command is known and what is
  delivered of its output, that the script arrives whole, that the \<open>ssh\<close> command line means the
  words it was made from, that a silent Host is given up on within its deadline, and that no
  connection to an Exec Agent is left open.
\<close>

section \<open>The contract of a Guest Transport\<close>

text \<open>
  What the Executor relies on: an outcome with an error has no exit status, and a guest is
  only reported ready when a command exited zero.
\<close>

locale guest_transport =
  fixes run :: "'env \<Rightarrow> command \<Rightarrow> outcome"
    and ready :: "'env \<Rightarrow> tr_error option"
  assumes no_status: "run env cmd = (status, Some e) \<Longrightarrow> status = - 1"
    and no_path: "cmd_path cmd = [] \<Longrightarrow> run env cmd = (- 1, Some NoPath)"
    and not_ready: "ready env = Some e \<Longrightarrow> not_ready e"
begin

lemma known_status: "run env cmd = (status, er) \<Longrightarrow> status \<noteq> - 1 \<Longrightarrow> er = None"
  using no_status by (cases er) auto

lemma ran: "run env cmd = (status, er) \<Longrightarrow> er \<noteq> Some NoPath \<Longrightarrow> cmd_path cmd \<noteq> []"
  using no_path by fastforce

end

lemma ready_of_not_ready: "ready_of r = Some e \<Longrightarrow> not_ready e"
  by (auto simp: ready_of_def split: prod.splits option.splits if_splits)

lemma receive_error: "receive nil u fin rep fs = ((status, Some e), outs) \<Longrightarrow> status = - 1"
  by (induction nil u fin rep fs arbitrary: outs rule: receive.induct)
    (auto split: exec_frame.splits option.splits prod.splits)

lemma exchange_error: "fst (exchange start env) = (status, Some e) \<Longrightarrow> status = - 1"
  by (auto simp: exchange_def Let_def split: option.splits prod.splits)

interpretation exec_tr: guest_transport "\<lambda>env cmd. fst (exec_Run uid cmd env)" "exec_Ready uid"
proof
  show "fst (exec_Run uid cmd env) = (status, Some e) \<Longrightarrow> status = - 1" for env cmd status e
    by (auto simp: exec_Run_def dest: exchange_error split: if_splits)
qed (auto simp: exec_Run_def exec_Ready_def dest: ready_of_not_ready)

interpretation ssh_tr: guest_transport "\<lambda>(env, s) cmd. snd (snd (ssh_Run login known cmd env s))" "\<lambda>(env, s). snd (snd (ssh_Ready login known env s))"
proof
  show "(case p of (env, s) \<Rightarrow> \<lambda>cmd. snd (snd (ssh_Run login known cmd env s))) cmd = (status, Some e) \<Longrightarrow> status = - 1" for p cmd status e
    by (auto simp: ssh_Run_def split: prod.splits option.splits if_splits session_end.splits)
next
  show "(case p of (env, s) \<Rightarrow> snd (snd (ssh_Ready login known env s))) = Some e \<Longrightarrow> not_ready e" for p e
    by (auto simp: ssh_Ready_def dest: ready_of_not_ready split: prod.splits)
qed (auto simp: ssh_Run_def)

section \<open>The exit status\<close>

text \<open>A frame whose chunk, if it has one, the writer takes.\<close>

definition delivered :: "bool \<times> bool \<Rightarrow> exec_frame \<times> string option \<Rightarrow> bool" where
  "delivered nil fw = (case fw of
     (StdoutChunk d, w) \<Rightarrow> write_chunk (fst nil) d w = None
   | (StderrChunk d, w) \<Rightarrow> write_chunk (snd nil) d w = None
   | _ \<Rightarrow> True)"

definition chunk_of :: "exec_frame \<times> string option \<Rightarrow> out_chunk list" where
  "chunk_of fw = (case fst fw of StdoutChunk d \<Rightarrow> [Out d] | StderrChunk d \<Rightarrow> [Err d] | _ \<Rightarrow> [])"

definition is_exit :: "exec_frame \<times> string option \<Rightarrow> bool" where
  "is_exit fw = (case fst fw of ExitCode c \<Rightarrow> True | _ \<Rightarrow> False)"

lemmas frame_defs = delivered_def chunk_of_def is_exit_def

text \<open>The frames before the one that ends the exchange.\<close>

definition before_end :: "bool \<times> bool \<Rightarrow> (exec_frame \<times> string option) list \<Rightarrow> (exec_frame \<times> string option) list" where
  "before_end nil fs = takeWhile (\<lambda>fw. delivered nil fw \<and> \<not> is_exit fw) fs"

definition exit_frame :: "bool \<times> bool \<Rightarrow> (exec_frame \<times> string option) list \<Rightarrow> int option" where
  "exit_frame nil fs = (case dropWhile (\<lambda>fw. delivered nil fw \<and> \<not> is_exit fw) fs of (ExitCode c, w) # post \<Rightarrow> Some c | _ \<Rightarrow> None)"

lemma receive_spec:
  assumes "\<forall>r. rep = Some r \<longrightarrow> stream_failed r"
  shows "\<exists>e. receive nil u fin rep fs
           = ((case exit_frame nil fs of Some c \<Rightarrow> (c, None) | None \<Rightarrow> (- 1, Some e)), concat (map chunk_of (before_end nil fs)))
         \<and> stream_failed e"
  using assms
proof (induction fs arbitrary: rep)
  case Nil
  then show ?case
    by (auto simp: exit_frame_def before_end_def split: option.splits stream_end.splits)
next
  case (Cons fw fs)
  obtain f w where fw: "fw = (f, w)" by (cases fw)
  have reported: "stream_failed (execError p)" for p by (simp add: execError_def)
  note IH = Cons.IH [OF Cons.prems]
  show ?case
  proof (cases f)
    case (StdoutChunk d)
    then show ?thesis using IH fw
      by (cases "write_chunk (fst nil) d w") (auto simp: frame_defs exit_frame_def before_end_def)
  next
    case (StderrChunk d)
    then show ?thesis using IH fw
      by (cases "write_chunk (snd nil) d w") (auto simp: frame_defs exit_frame_def before_end_def)
  next
    case (ErrorPayload p)
    then show ?thesis using Cons.IH [of "Some (execError p)"] reported fw
      by (auto simp: frame_defs exit_frame_def before_end_def)
  next
    case (ExitCode c)
    then show ?thesis using fw by (auto simp: frame_defs exit_frame_def before_end_def intro: exI [of _ "execError []"] reported)
  next
    case OtherFrame
    then show ?thesis using IH fw by (auto simp: frame_defs exit_frame_def before_end_def)
  qed
qed


section \<open>The script on standard input\<close>

lemma send_string:
  "\<exists>chunks. send_loop (string_reads s) [] = (map StdinMsg chunks @ [StdinEofMsg], None)
     \<and> concat chunks = s \<and> list_all (\<lambda>c. c \<noteq> [] \<and> length c \<le> stdinChunk) chunks"
proof (induction s rule: string_reads.induct)
  case (1 s)
  show ?case
  proof (cases "s = []")
    case True
    then show ?thesis by (intro exI [of _ "[]"]) (simp add: string_reads.simps send_eof_def next_answer_def)
  next
    case False
    with 1 obtain chunks where chunks: "send_loop (string_reads (drop stdinChunk s)) [] = (map StdinMsg chunks @ [StdinEofMsg], None)"
      "concat chunks = drop stdinChunk s" "list_all (\<lambda>c. c \<noteq> [] \<and> length c \<le> stdinChunk) chunks" by auto
    have "send_loop (string_reads s) [] = (map StdinMsg (take stdinChunk s # chunks) @ [StdinEofMsg], None)"
      using False chunks(1) by (subst string_reads.simps) (simp add: Let_def next_answer_def)
    moreover have "concat (take stdinChunk s # chunks) = s" using chunks(2) by simp
    moreover have "list_all (\<lambda>c. c \<noteq> [] \<and> length c \<le> stdinChunk) (take stdinChunk s # chunks)" using False chunks(3) by simp
    ultimately show ?thesis by blast
  qed
qed

text \<open>
  C20. A Stage's script reaches the guest whole: on a Host that takes every message, \<open>Run\<close>
  sends one start message naming the command and asking for standard input, then the script
  in order in non-empty chunks of at most 32 KiB, then the end of input and the half-close.
\<close>

theorem script_arrives_whole:
  assumes "cmd_path cmd \<noteq> []" "cmd_stdin cmd = Some script" "xe_open env = None" "xe_start env = Sent" "xe_sends env = []"
  shows "\<exists>chunks. snd (snd (exec_Run uid cmd env))
      = StartMsg ((exec_start_of uid cmd)\<lparr>st_timeout := remainingSeconds (xe_left env)\<rparr>) # map StdinMsg chunks @ [StdinEofMsg, HalfClose]
    \<and> st_has_stdin (exec_start_of uid cmd)
    \<and> concat chunks = script \<and> list_all (\<lambda>c. c \<noteq> [] \<and> length c \<le> stdinChunk) chunks"
proof -
  obtain chunks where chunks: "send_loop (string_reads script) [] = (map StdinMsg chunks @ [StdinEofMsg], None)"
    "concat chunks = script" "list_all (\<lambda>c. c \<noteq> [] \<and> length c \<le> stdinChunk) chunks" using send_string by blast
  have "snd (snd (exec_Run uid cmd env))
      = StartMsg ((exec_start_of uid cmd)\<lparr>st_timeout := remainingSeconds (xe_left env)\<rparr>) # map StdinMsg chunks @ [StdinEofMsg, HalfClose]"
    using assms chunks(1)
    by (simp add: exec_Run_def exchange_def Let_def firstError_def sendStdin_def exec_start_of_def split: prod.splits option.splits)
  moreover have "st_has_stdin (exec_start_of uid cmd)" using assms(2) by (simp add: exec_start_of_def)
  ultimately show ?thesis using chunks(2,3) by blast
qed

definition sample_command :: command where
  "sample_command = \<lparr>cmd_path = ''/bin/bash'', cmd_args = [''--login''], cmd_dir = ''/builds'', cmd_env = [], cmd_user = ''root'',
     cmd_stdin = Some ''make''\<rparr>"

definition sample_exchange :: exchange_env where
  "sample_exchange = \<lparr>xe_left = Some (90 * second + 1), xe_open = None, xe_start = Sent, xe_recv_after_eof = None, xe_sends = [], xe_reads = None,
     xe_nil = (False, False), xe_frames = [(StdoutChunk ''ok'', None), (ErrorPayload ''idle'', None), (ExitCode 3, None)], xe_end = EndOfStream,
     xe_unreachable = None, xe_stdin_finished = True\<rparr>"

theorem script_arrives_whole_witness:
  "\<exists>chunks. snd (snd (exec_Run ''vm'' sample_command sample_exchange))
      = StartMsg ((exec_start_of ''vm'' sample_command)\<lparr>st_timeout := remainingSeconds (xe_left sample_exchange)\<rparr>)
          # map StdinMsg chunks @ [StdinEofMsg, HalfClose]
    \<and> concat chunks = ''make''"
  using script_arrives_whole [of sample_command "''make''" sample_exchange "''vm''"]
  by (auto simp: sample_command_def sample_exchange_def)

section \<open>The ssh command line\<close>

text \<open>
  How a POSIX shell reads such a line into words: a blank ends a word, a single quote takes
  everything up to the next one as it stands, a backslash takes one character as it stands.
  \<open>word\<close> is the word read so far, if one has begun.
\<close>

fun sh_words :: "bool \<Rightarrow> string option \<Rightarrow> string \<Rightarrow> string list option" where
  "sh_words quoted word [] = (if quoted then None else Some (case word of None \<Rightarrow> [] | Some w \<Rightarrow> [w]))"
| "sh_words True word (c # cs) =
     (if c = CHR 0x27 then sh_words False word cs else sh_words True (Some (the word @ [c])) cs)"
| "sh_words False word (c # cs) =
     (let w = (case word of None \<Rightarrow> [] | Some w \<Rightarrow> w)
      in if c = CHR 0x27 then sh_words True (Some w) cs
         else if c = CHR '' '' then map_option (\<lambda>ws. (case word of None \<Rightarrow> [] | Some w \<Rightarrow> [w]) @ ws) (sh_words False None cs)
         else if c = CHR 0x5C then (case cs of [] \<Rightarrow> None | d # ds \<Rightarrow> sh_words False (Some (w @ [d])) ds)
         else sh_words False (Some (w @ [c])) cs)"

text \<open>A character the shell reads as it stands outside quotes.\<close>

definition plain_char :: "char \<Rightarrow> bool" where
  "plain_char c \<longleftrightarrow> c \<noteq> CHR 0x27 \<and> c \<noteq> CHR 0x5C \<and> c \<noteq> CHR '' ''"

lemma sh_words_plain:
  "list_all plain_char s \<Longrightarrow> s \<noteq> [] \<or> word \<noteq> None \<Longrightarrow>
   sh_words False word (s @ rest) = sh_words False (Some ((case word of None \<Rightarrow> [] | Some w \<Rightarrow> w) @ s)) rest"
  by (induction s arbitrary: word) (auto simp: plain_char_def Let_def split: option.splits)

lemma sh_words_inside: "sh_words True (Some w) (replace_quotes s @ CHR 0x27 # rest) = sh_words False (Some (w @ s)) rest"
  by (induction s arbitrary: w) (simp_all add: Let_def)

lemma sh_words_quoted: "sh_words False word (shellQuote s @ rest) = sh_words False (Some ((case word of None \<Rightarrow> [] | Some w \<Rightarrow> w) @ s)) rest"
  by (simp add: shellQuote_def Let_def sh_words_inside)

text \<open>The words read so far in front of the rest.\<close>

definition words_then :: "string list \<Rightarrow> string list option \<Rightarrow> string list option" where
  "words_then ws r = map_option (\<lambda>rest. ws @ rest) r"

lemma words_then_simps [simp]: "words_then a (words_then b r) = words_then (a @ b) r" "words_then [] r = r" "words_then a (Some b) = Some (a @ b)"
  by (simp_all add: words_then_def option.map_comp comp_def option.map_ident)

lemma sh_words_blank: "sh_words False (Some w) (CHR '' '' # rest) = words_then [w] (sh_words False None rest)"
  by (cases "sh_words False None rest") (simp_all add: Let_def words_then_def)

lemma sh_words_keyword:
  assumes "list_all plain_char kw" "kw \<noteq> []"
  shows "sh_words False None (kw @ CHR '' '' # rest) = words_then [kw] (sh_words False None rest)"
  using sh_words_plain [of kw None] assms by (simp add: sh_words_blank del: sh_words.simps)

lemma sh_words_quoted_word: "sh_words False None (shellQuote s @ CHR '' '' # rest) = words_then [s] (sh_words False None rest)"
  by (simp add: sh_words_quoted sh_words_blank del: sh_words.simps)

lemma plain_words: "list_all plain_char ''cd''" "list_all plain_char ''&&''" "list_all plain_char ''export''" "list_all plain_char ''exec''"
  by (simp_all add: plain_char_def)

lemma sh_words_keywords:
  "sh_words False None (CHR ''c'' # CHR ''d'' # CHR '' '' # rest) = words_then [''cd''] (sh_words False None rest)"
  "sh_words False None (CHR ''&'' # CHR ''&'' # CHR '' '' # rest) = words_then [''&&''] (sh_words False None rest)"
  "sh_words False None (CHR ''e'' # CHR ''x'' # CHR ''p'' # CHR ''o'' # CHR ''r'' # CHR ''t'' # CHR '' '' # rest) = words_then [''export''] (sh_words False None rest)"
  "sh_words False None (CHR ''e'' # CHR ''x'' # CHR ''e'' # CHR ''c'' # CHR '' '' # rest) = words_then [''exec''] (sh_words False None rest)"
  using plain_words [THEN sh_words_keyword, of rest] by (simp_all del: sh_words.simps)

lemmas sh_word_rules = sh_words_keywords sh_words_quoted_word sh_words_quoted sh_words_blank

text \<open>The words each part of the line means.\<close>

definition dir_words :: "string \<Rightarrow> string list" where
  "dir_words dir = (if dir = [] then [] else [''cd'', dir, ''&&''])"

definition export_words :: "(string, string) gomap \<Rightarrow> string \<Rightarrow> string list" where
  "export_words env k = [''export'', k @ ''='' @ (case mget env k of None \<Rightarrow> [] | Some v \<Rightarrow> v), ''&&'']"

lemma sh_words_dir:
  "sh_words False None ((if dir \<noteq> [] then ''cd '' @ shellQuote dir @ '' && '' else []) @ rest)
     = words_then (dir_words dir) (sh_words False None rest)"
  by (cases "dir = []") (simp_all add: dir_words_def sh_word_rules del: sh_words.simps)

lemma sh_words_export:
  assumes "list_all plain_char k"
  shows "sh_words False None (export_text env k @ rest) = words_then (export_words env k) (sh_words False None rest)"
proof -
  have "list_all plain_char (k @ ''='')" using assms by (simp add: plain_char_def)
  from sh_words_plain [OF this, of None]
  have key: "sh_words False None (k @ CHR ''='' # r) = sh_words False (Some (k @ ''='')) r" for r by (simp del: sh_words.simps)
  show ?thesis by (simp add: export_text_def export_words_def sh_word_rules key del: sh_words.simps)
qed

lemma sh_words_exports:
  assumes "list_all (list_all plain_char) ks"
  shows "sh_words False None (concat (map (export_text env) ks) @ rest) = words_then (concat (map (export_words env) ks)) (sh_words False None rest)"
  using assms by (induction ks) (simp_all add: sh_words_export del: sh_words.simps)

lemma sh_words_args: "sh_words False (Some w) (concat (map (\<lambda>a. CHR '' '' # shellQuote a) as)) = Some (w # as)"
  by (induction as arbitrary: w) (simp_all add: sh_words_blank sh_words_quoted Let_def words_then_def)



section \<open>The liveness watch\<close>

definition probe_bounded :: "duration \<Rightarrow> watch_event \<Rightarrow> bool" where
  "probe_bounded deadline ev = (case ev of
     ProbeAnswers took \<Rightarrow> took \<le> probe_timeout deadline
   | ProbeFails e took ended \<Rightarrow> took \<le> probe_timeout deadline
   | _ \<Rightarrow> True)"

definition watch_inv :: "duration \<Rightarrow> watch \<Rightarrow> bool" where
  "watch_inv deadline w \<longleftrightarrow>
     (\<forall>due. wa_due w = Some due \<longrightarrow> due = wa_heard w + watch_interval deadline)
     \<and> (\<forall>e t. wa_failure w = Some (e, t) \<longrightarrow> wa_due w = None \<and> t \<le> wa_heard w + watch_interval deadline + probe_timeout deadline)"

lemma watch_bounds: "2 \<le> deadline \<Longrightarrow> watch_interval deadline + probe_timeout deadline = deadline"
  by (auto simp: watch_interval_def probe_timeout_def Let_def)

lemma watch_step_inv: "watch_inv deadline w \<Longrightarrow> probe_bounded deadline ev \<Longrightarrow> watch_inv deadline (watch_step deadline ev w)"
  by (cases ev) (auto simp: watch_inv_def probe_bounded_def split: option.splits)

lemma watch_run_inv: "watch_inv deadline w \<Longrightarrow> list_all (probe_bounded deadline) evs \<Longrightarrow> watch_inv deadline (watch_run deadline evs w)"
  by (induction evs arbitrary: w) (simp_all add: watch_run_def watch_step_inv)

lemma watch_keeps_failure: "wa_due w = None \<Longrightarrow> wa_failure (watch_step deadline ev w) = wa_failure w \<and> wa_due (watch_step deadline ev w) = None"
  by (cases ev) auto

lemma watch_failure_from_probe:
  "wa_failure w = None \<Longrightarrow> wa_failure (watch_run deadline evs w) = Some (e, t) \<Longrightarrow> \<exists>took. ProbeFails e took False \<in> set evs"
proof (induction evs arbitrary: w)
  case (Cons ev evs)
  show ?case
  proof (cases "wa_failure (watch_step deadline ev w)")
    case None
    then show ?thesis using Cons by (auto simp: watch_run_def)
  next
    case (Some f)
    then obtain took where "ev = ProbeFails (fst f) took False" and ended: "wa_due (watch_step deadline ev w) = None"
      using Cons.prems(1) by (cases ev) (auto split: option.splits if_splits)
    moreover have "wa_failure (fold (watch_step deadline) evs v) = wa_failure v" if "wa_due v = None" for v
      using that by (induction evs arbitrary: v) (auto simp: watch_keeps_failure)
    ultimately show ?thesis using Cons.prems(2) Some by (auto simp: watch_run_def)
  qed
qed (simp add: watch_run_def)


definition sample_watch :: "watch_event list" where
  "sample_watch = [Heard 3, ProbeAnswers 1, ProbeFails ''gone'' 5 False]"


section \<open>The guest's timeout\<close>

lemma exponent_of_at_least:
  assumes "0 < p" "0 < q"
  shows "at_least p q (exponent_of p q)" and "exponent_of p q \<ge> int (bitlen p) - int (bitlen q) - 1"
proof -
  let ?e = "int (bitlen p) - int (bitlen q)"
  obtain b where b: "bitlen p = Suc b" "2 ^ b \<le> p" using bitlen_bounds [OF assms(1)] by (cases "bitlen p") auto
  have q: "q < 2 ^ bitlen q" using bitlen_bounds [OF assms(2)] by simp
  have "at_least p q (?e - 1)"
  proof (cases "bitlen q \<le> b")
    case True
    have "q * 2 ^ (b - bitlen q) \<le> 2 ^ bitlen q * 2 ^ (b - bitlen q)" using q by simp
    also have "\<dots> = 2 ^ b" using True by (simp flip: power_add)
    finally show ?thesis using True b by (simp add: at_least_def nat_diff_distrib)
  next
    case False
    have "2 ^ bitlen q = 2 ^ b * (2::nat) ^ (bitlen q - b)" using False by (simp flip: power_add)
    also have "\<dots> \<le> p * 2 ^ (bitlen q - b)" using b(2) by simp
    finally show ?thesis using False b(1) q by (simp add: at_least_def nat_diff_distrib)
  qed
  then show "at_least p q (exponent_of p q)" by (simp add: exponent_of_def Let_def)
  show "exponent_of p q \<ge> ?e - 1" by (simp add: exponent_of_def Let_def)
qed

lemma round_even_pos: "0 < b \<Longrightarrow> b \<le> a \<Longrightarrow> 0 < round_even a b"
  by (auto simp: round_even_def Let_def div_greater_zero_iff)

lemma float_of_pos:
  assumes "0 < p" "0 < q" "bitlen q \<le> 1000" "float_of p q = Some (m, s)"
  shows "0 < m"
proof -
  let ?e = "exponent_of p q"
  have e: "at_least p q ?e" "?e \<ge> - 1000" using exponent_of_at_least [OF assms(1,2)] bitlen_bounds [OF assms(1)] assms(3) by auto
  then have s: "s = ?e - 52" using assms(1,4) by (simp add: float_of_def Let_def split: if_splits)
  show ?thesis
  proof (cases "s \<ge> 0")
    case True
    then have m: "m = round_even p (q * 2 ^ nat s)" using assms(1,4) e s by (simp add: float_of_def Let_def split: if_splits)
    have "q * 2 ^ nat s \<le> q * 2 ^ nat ?e" using s True by (intro mult_le_mono2 power_increasing) auto
    also have "\<dots> \<le> p" using e(1) s True by (simp add: at_least_def split: if_splits)
    finally show ?thesis using m assms(2) round_even_pos by simp
  next
    case False
    then have m: "m = round_even (p * 2 ^ nat (- s)) q" using assms(1,4) e s by (simp add: float_of_def Let_def split: if_splits)
    have "q \<le> p * 2 ^ nat (- s)"
    proof (cases "?e \<ge> 0")
      case True
      have "q * 1 \<le> q * 2 ^ nat ?e" by (intro mult_le_mono2) simp
      moreover have "p * 1 \<le> p * 2 ^ nat (- s)" by (intro mult_le_mono2) simp
      moreover have "q * 2 ^ nat ?e \<le> p" using e(1) True by (simp add: at_least_def)
      ultimately show ?thesis by linarith
    next
      case neg: False
      have "p * 2 ^ nat (- ?e) \<le> p * 2 ^ nat (- s)" using s neg by (intro mult_le_mono2 power_increasing) auto
      moreover have "q \<le> p * 2 ^ nat (- ?e)" using e(1) neg by (simp add: at_least_def)
      ultimately show ?thesis by linarith
    qed
    then show ?thesis using m assms(2) round_even_pos by simp
  qed
qed

lemma float_ceil_pos: "0 < m \<Longrightarrow> 0 < float_ceil (m, s)"
  by (cases m) (auto simp: float_ceil_def div_greater_zero_iff)

lemma seconds_of_pos:
  assumes "0 < d" "seconds_of d = Some f"
  shows "0 < float_ceil f"
proof -
  have b: "bitlen 1000000000 \<le> 1000" by (simp add: bitlen.simps)
  have big: "bitlen (2 ^ nat (- s)) \<le> 1000" if "float_of (d mod 1000000000) 1000000000 = Some (m, s)" for m s
  proof (cases "d mod 1000000000 = 0")
    case True
    then show ?thesis using that by (simp add: float_of_def bitlen.simps)
  next
    case False
    have "exponent_of (d mod 1000000000) 1000000000 \<ge> - 40"
      using exponent_of_at_least(2) [of "d mod 1000000000" 1000000000] bitlen_bounds [of "d mod 1000000000"] False by (simp add: bitlen.simps)
    then show ?thesis using that False by (auto simp: float_of_def Let_def bitlen_power split: if_splits)
  qed
  obtain m s where ms: "float_of (d mod 1000000000) 1000000000 = Some (m, s)" using assms(2) by (auto simp: seconds_of_def split: option.splits)
  have pos: "0 < d div 1000000000 \<or> 0 < m" using float_of_pos [OF _ _ b ms] assms(1) by (cases "d mod 1000000000 = 0") auto
  obtain m2 s2 where f: "f = (m2, s2)" by (cases f)
  have "0 < m2"
  proof (cases "s \<ge> 0")
    case True
    then have "float_of (d div 1000000000 + m * 2 ^ nat s) 1 = Some (m2, s2)" using assms(2) ms f by (simp add: seconds_of_def)
    from float_of_pos [OF _ _ _ this] pos show ?thesis by (simp add: bitlen.simps)
  next
    case False
    then have "float_of (d div 1000000000 * 2 ^ nat (- s) + m) (2 ^ nat (- s)) = Some (m2, s2)" using assms(2) ms f by (simp add: seconds_of_def)
    from float_of_pos [OF _ _ big [OF ms] this] pos show ?thesis by simp
  qed
  then show ?thesis using f float_ceil_pos by simp
qed

text \<open>The timeout sent to the guest fits its field and is never the zero that means none.\<close>

lemma remainingSeconds_bounds:
  "0 \<le> remainingSeconds left" "remainingSeconds left < 2 ^ 31" "remainingSeconds (Some d) \<noteq> 0"
  using seconds_of_pos [of "nat d"] by (auto simp: remainingSeconds_def split: option.splits)

section \<open>The connections to Exec Agents\<close>

datatype agent_op = OpLease agent_claim "string option" bool | OpRelease nat | OpProbe agent_claim "string option" bool "string option" | OpClose

fun agent_step :: "agent_op \<Rightarrow> agent_hosts \<times> agent_call list \<Rightarrow> agent_hosts \<times> agent_call list" where
  "agent_step (OpLease claim dial meanwhile) (a, calls) = (case agents_Lease claim dial meanwhile a of (a1, new, r) \<Rightarrow> (a1, calls @ new))"
| "agent_step (OpRelease c) (a, calls) = (case agents_release c a of (a1, new) \<Rightarrow> (a1, calls @ new))"
| "agent_step (OpProbe claim dial meanwhile answer) (a, calls) = (case agents_Probe claim dial meanwhile answer a of (a1, new, r) \<Rightarrow> (a1, calls @ new))"
| "agent_step OpClose (a, calls) = (case agents_Close a of (a1, new) \<Rightarrow> (a1, calls @ new))"

definition agents_none :: agent_hosts where
  "agents_none = \<lparr>ah_clients = [], ah_closed = False, ah_next = 0\<rparr>"

definition accounted :: "agent_hosts \<times> agent_call list \<Rightarrow> bool" where
  "accounted st \<longleftrightarrow> (\<forall>c l. DialAgent c l \<in> set (snd st) \<longrightarrow> c \<in> set (ah_clients (fst st)) \<or> CloseAgent c \<in> set (snd st))
     \<and> (ah_closed (fst st) \<longrightarrow> ah_clients (fst st) = [])"

lemma agent_step_accounted: "accounted st \<Longrightarrow> accounted (agent_step op st)"
proof (cases op; cases st)
  fix c a calls assume "accounted st" "op = OpRelease c" "st = (a, calls)"
  then show "accounted (agent_step op st)" by (auto simp: accounted_def agents_release_def)
next
  fix claim dial meanwhile a calls assume "accounted st" "op = OpLease claim dial meanwhile" "st = (a, calls)"
  then show "accounted (agent_step op st)"
    by (auto simp: accounted_def agents_Lease_def agents_Close_def Let_def split: option.splits if_splits)
next
  fix claim dial meanwhile answer a calls assume "accounted st" "op = OpProbe claim dial meanwhile answer" "st = (a, calls)"
  then show "accounted (agent_step op st)"
    by (auto simp: accounted_def agents_Probe_def agents_Lease_def agents_release_def agents_Close_def Let_def split: option.splits if_splits)
next
  fix a calls assume "accounted st" "op = OpClose" "st = (a, calls)"
  then show "accounted (agent_step op st)" by (auto simp: accounted_def agents_Close_def)
qed

text \<open>
  No connection to an Exec Agent is left behind: after any sequence of leases, probes,
  releases and a close, every connection that was dialled is still held by a Job or has been
  closed, and once the clients are closed none is held, even one dialled while they closed.
\<close>

lemma agent_connections_never_leak:
  "\<forall>c l. DialAgent c l \<in> set (snd (fold agent_step ops (agents_none, [])))
     \<longrightarrow> c \<in> set (ah_clients (fst (fold agent_step ops (agents_none, []))))
       \<or> CloseAgent c \<in> set (snd (fold agent_step ops (agents_none, [])))"
  "ah_closed (fst (fold agent_step ops (agents_none, []))) \<Longrightarrow> ah_clients (fst (fold agent_step ops (agents_none, []))) = []"
proof -
  have "accounted st \<Longrightarrow> accounted (fold agent_step ops st)" for st
    by (induction ops arbitrary: st) (simp_all add: agent_step_accounted)
  moreover have "accounted (agents_none, [])" by (simp add: accounted_def agents_none_def)
  ultimately have "accounted (fold agent_step ops (agents_none, []))" by blast
  then show "\<forall>c l. DialAgent c l \<in> set (snd (fold agent_step ops (agents_none, [])))
     \<longrightarrow> c \<in> set (ah_clients (fst (fold agent_step ops (agents_none, []))))
       \<or> CloseAgent c \<in> set (snd (fold agent_step ops (agents_none, [])))"
    "ah_closed (fst (fold agent_step ops (agents_none, []))) \<Longrightarrow> ah_clients (fst (fold agent_step ops (agents_none, []))) = []"
    by (simp_all add: accounted_def)
qed

end
