(* ===== verification/Executor.thy ===== *)
theory Executor
  imports Profile_Resolve Host_Env Transport
begin

text \<open>
  The executor of one Job (\<open>internal/executor/executor.go\<close>) and its provider
  (\<open>provider.go\<close>). An executor is a record that \<open>Prepare\<close>, \<open>Run\<close>, \<open>Finish\<close> and
  \<open>Cleanup\<close> step, each with the calls it makes on the Scheduler, the Host Registry, the guest
  and the Job log in their order. What the gitlab-runner library, the guest and the contexts
  do is part of the environment a step is given.
\<close>

section \<open>Errors\<close>

datatype failure_reason =
    RunnerSystemFailure | RunnerUnsupported | ConfigurationError | ScriptFailure | JobExecutionTimeout

datatype (plugins only: code) cause =
    AlreadyPrepared
  | NoReservation
  | ServicesRefused
  | CacheRefused
  | NoProfile string
  | ShellNotPrepared string
  | NotAllocated alloc_error
  | HostRefused string string
  | KeyUnreadable string
  | NoAgentClients
  | AgentRefused string string
  | TransportRefused string factory_error
  | NotReady string duration
  | ProbeFailed tr_error
  | DirsNotMade tr_error
  | DirsExited int
  | RunBeforePrepare
  | StreamFailed tr_error
  | UnknownStatus int
  | LeaseIsLost handle_error
  | ExitStatus int
  | HandleEnded "handle_error option"
  | AbortedByRunner
  | PrepareTimedOut duration
  | ContextError ctx_error

text \<open>
  An error is a cause, a \<open>BuildError\<close> around one with its reason and exit code, or two
  errors wrapped by one message.
\<close>

datatype err = Plain cause | Build err failure_reason int | Both err err

text \<open>\<open>errors.As\<close> for a \<open>BuildError\<close>: the first one met in depth.\<close>

fun as_build :: "err \<Rightarrow> (err \<times> failure_reason \<times> int) option" where
  "as_build (Plain c) = None"
| "as_build (Build e r x) = Some (e, r, x)"
| "as_build (Both a b) = (case as_build a of Some t \<Rightarrow> Some t | None \<Rightarrow> as_build b)"

text \<open>
  \<open>errors.Is\<close>: an error in the tree equals the target or says so itself. \<open>BuildError.Is\<close>
  belongs to gitlab-runner and is the argument \<open>bis\<close>.
\<close>

fun is_err :: "(err \<Rightarrow> err \<Rightarrow> bool) \<Rightarrow> err \<Rightarrow> err \<Rightarrow> bool" where
  "is_err bis t (Plain c) = (t = Plain c)"
| "is_err bis t (Build e r x) = (t = Build e r x \<or> bis (Build e r x) t \<or> is_err bis t e)"
| "is_err bis t (Both a b) = (t = Both a b \<or> is_err bis t a \<or> is_err bis t b)"

definition buildErr :: "failure_reason \<Rightarrow> cause \<Rightarrow> err" where
  "buildErr reason c = Build (Plain c) reason 0"

section \<open>Contexts\<close>

text \<open>
  What a context reports: the error and the cause it has ended with, whether the clock has
  passed its deadline, and what it ends with during the expiry wait, if it does.
\<close>

type_synonym ended = "ctx_error \<times> err"

record job_ctx =
  jc_ended :: "ended option"
  jc_past_deadline :: bool
  jc_fires :: "ended option"

text \<open>\<open>expired\<close>: what the context has ended with once the wait is over, or that it has not.\<close>

definition expired :: "job_ctx \<Rightarrow> ended option" where
  "expired cx = (case jc_ended cx of
     Some e \<Rightarrow> Some e
   | None \<Rightarrow> if jc_past_deadline cx then jc_fires cx else None)"

definition jobTimedOut :: "(err \<Rightarrow> err \<Rightarrow> bool) \<Rightarrow> ended \<Rightarrow> bool" where
  "jobTimedOut bis e \<longleftrightarrow> fst e = DeadlineExceeded \<and> is_err bis (Plain (ContextError DeadlineExceeded)) (snd e)"

definition prepareErr :: "(err \<Rightarrow> err \<Rightarrow> bool) \<Rightarrow> job_ctx \<Rightarrow> err \<Rightarrow> err" where
  "prepareErr bis cx e = (case expired cx of
     None \<Rightarrow> e
   | Some fin \<Rightarrow> (case as_build e of
       None \<Rightarrow> e
     | Some (inner, reason, code) \<Rightarrow>
         Build (if is_err bis (snd fin) e then inner else Both inner (snd fin))
           (if jobTimedOut bis fin then JobExecutionTimeout else reason) code))"

definition stageCancelled :: "ended \<Rightarrow> err" where
  "stageCancelled fin = (case as_build (snd fin) of
     Some (inner, reason, code) \<Rightarrow> Build inner reason code
   | None \<Rightarrow> snd fin)"

text \<open>What can end the context of \<open>Prepare\<close>, which it derives from the Job's.\<close>

datatype prepare_end = JobEnds ctx_error err | PrepareTimeout | PrepareAborted

definition prepare_ended :: "duration \<Rightarrow> prepare_end \<Rightarrow> ended" where
  "prepare_ended timeout x = (case x of
     JobEnds e c \<Rightarrow> (e, c)
   | PrepareTimeout \<Rightarrow> (DeadlineExceeded, Plain (PrepareTimedOut timeout))
   | PrepareAborted \<Rightarrow> (Canceled, Plain AbortedByRunner))"

text \<open>What can end the context of a Stage; a Handle or an abort cancels it with a \<open>BuildError\<close>.\<close>

datatype stage_stop = StageContext ctx_error err | HandleDone "handle_error option" | StageAborted

definition stage_ended :: "stage_stop \<Rightarrow> ended" where
  "stage_ended x = (case x of
     StageContext e c \<Rightarrow> (e, c)
   | HandleDone h \<Rightarrow> (Canceled, Build (Plain (HandleEnded h)) RunnerSystemFailure 0)
   | StageAborted \<Rightarrow> (Canceled, Build (Plain AbortedByRunner) RunnerSystemFailure 0))"

section \<open>The Job and the dependencies\<close>

record cache_entry =
  ce_key :: string
  ce_paths :: "string list"
  ce_untracked :: bool

record job =
  jb_id :: int
  jb_image :: string
  jb_services :: "string list"
  jb_cache :: "cache_entry list"
  jb_vars :: "variable list"

record deps =
  dp_prepare_timeout :: duration
  dp_graceful_kill :: duration
  dp_keep_on_failure :: bool
  dp_cache_configured :: bool
  dp_transport :: string
  dp_agents :: bool
  dp_env :: "(inventory_host option \<Rightarrow> host_service_env) option"
  dp_inventory :: "(string \<Rightarrow> inventory_host option) option"
  dp_cache_vars :: "(string, bool) gomap"
  dp_normalise :: "int \<Rightarrow> int"
  dp_build_is :: "err \<Rightarrow> err \<Rightarrow> bool"

text \<open>The lines of the \<open>flintlock_prepare\<close> section and the warnings of a Stage.\<close>

datatype (plugins only: code) log_line =
    SectionStart
  | UsingProfile string pool_ref
  | AllocatedOn string string duration
  | GuestReady duration
  | HostServices string
  | PrepareError err
  | SectionEnd
  | StageNotStopped string duration
  | KeepingMicroVM string string

text \<open>The calls the executor makes on the outside; a take says whether it was granted.\<close>

datatype (plugins only: code) exec_call =
    CallAllocate nat "alloc_error + nat"
  | CallRelease nat
  | CallRetain nat
  | CallCheckLease nat
  | TakeHost string bool
  | TakeAgent string string string string bool
  | ReturnHost
  | OpenGuest
  | CloseGuest
  | RunCommand command
  | Log log_line

record executor =
  ex_reservation :: "nat option"
  ex_profile :: "resolved_profile option"
  ex_handle :: "nat option"
  ex_alloc :: "allocation option"
  ex_tr :: bool
  ex_host :: bool
  ex_prepared :: bool
  ex_job_failed :: bool
  ex_failed :: "(string, err) gomap"
  ex_vars :: "variable list"

definition Create :: executor where
  "Create = \<lparr>ex_reservation = None, ex_profile = None, ex_handle = None, ex_alloc = None, ex_tr = False, ex_host = False,
     ex_prepared = False, ex_job_failed = False, ex_failed = [], ex_vars = []\<rparr>"

section \<open>Prepare\<close>

definition usesCache :: "job \<Rightarrow> bool" where
  "usesCache b \<longleftrightarrow> list_ex (\<lambda>c. ce_key c \<noteq> [] \<or> ce_paths c \<noteq> [] \<or> ce_untracked c) (jb_cache b)"

definition checkJob :: "deps \<Rightarrow> job \<Rightarrow> err option" where
  "checkJob d b =
     (if jb_services b \<noteq> [] then Some (buildErr RunnerUnsupported ServicesRefused)
      else if \<not> dp_cache_configured d \<and> usesCache b then Some (buildErr RunnerUnsupported CacheRefused)
      else None)"

definition jobInfo :: "job \<Rightarrow> job_info" where
  "jobInfo b = \<lparr>job_id = jb_id b, job_image = jb_image b\<rparr>"

definition resolveProfile :: "job \<Rightarrow> sched \<Rightarrow> err + resolved_profile" where
  "resolveProfile b s = (case ResolveProfile (jobInfo b) s of
     Inl im \<Rightarrow> Inl (buildErr RunnerUnsupported (NoProfile im))
   | Inr p \<Rightarrow> Inr p)"

text \<open>\<open>configureShell\<close>, given the error of gitlab-runner's \<open>PrepareBuildAndShell\<close>.\<close>

definition configureShell :: "err option \<Rightarrow> err option" where
  "configureShell res = (case res of
     None \<Rightarrow> None
   | Some e \<Rightarrow> if as_build e \<noteq> None then Some e else Some (Build e ConfigurationError 0))"

definition transportKind :: "deps \<Rightarrow> resolved_profile \<Rightarrow> string" where
  "transportKind d p = (if dp_transport d \<noteq> [] then dp_transport d else tp_kind (pr_transport (rp_profile p)))"

definition guest_shell :: "resolved_profile \<Rightarrow> string" where
  "guest_shell p = (if pr_shell (rp_profile p) \<noteq> [] then pr_shell (rp_profile p) else ''/bin/bash'')"

definition guest_user :: "resolved_profile \<Rightarrow> string" where
  "guest_user p = (if pr_user (rp_profile p) \<noteq> [] then pr_user (rp_profile p) else ''root'')"

text \<open>\<open>sshOptions\<close>: whether the key could be read, and the login user.\<close>

definition sshOptions :: "bool \<Rightarrow> resolved_profile \<Rightarrow> cause + string" where
  "sshOptions readable p =
     (let cfg = tp_ssh (pr_transport (rp_profile p))
      in if \<not> readable then Inl (KeyUnreadable (ssh_private_key_file cfg))
         else Inr (if ssh_user cfg \<noteq> [] then ssh_user cfg else pr_user (rp_profile p)))"

text \<open>One round of \<open>waitReady\<close>: the probe's answer and whether the context ended after it or in the wait.\<close>

record ready_turn =
  rt_answer :: "tr_error option"
  rt_ended_after_probe :: bool
  rt_ended_after_wait :: bool

text \<open>Ready, or the last error when the context ended; \<open>None\<close> while it is still probing.\<close>

fun wait_ready :: "ready_turn list \<Rightarrow> (tr_error option) option" where
  "wait_ready [] = None"
| "wait_ready (t # ts) = (case rt_answer t of
     None \<Rightarrow> Some None
   | Some e \<Rightarrow> if rt_ended_after_probe t \<or> rt_ended_after_wait t then Some (Some e) else wait_ready ts)"

definition ready_timeout :: "resolved_profile \<Rightarrow> duration" where
  "ready_timeout p = (if pr_ready_timeout (rp_profile p) \<le> 0 then 60 * second else pr_ready_timeout (rp_profile p))"

definition waitReady :: "resolved_profile \<Rightarrow> string \<Rightarrow> ready_turn list \<Rightarrow> (err option) option" where
  "waitReady p uid turns = map_option (map_option
     (\<lambda>last. Build (Both (Plain (NotReady uid (ready_timeout p))) (Plain (ProbeFailed last))) RunnerSystemFailure 0)) (wait_ready turns)"

definition relToRoot :: "string \<Rightarrow> string" where
  "relToRoot dir = shellQuote (''./'' @ dropWhile (\<lambda>c. c = CHR ''/'') dir)"

definition dirs_command :: "resolved_profile \<Rightarrow> command" where
  "dirs_command p = \<lparr>cmd_path = guest_shell p, cmd_args = [], cmd_dir = ''/'', cmd_env = [], cmd_user = guest_user p,
     cmd_stdin = Some (''mkdir -p -- '' @ relToRoot (pr_builds_dir (rp_profile p)) @ '' '' @ relToRoot (pr_cache_dir (rp_profile p)) @ [CHR 0x0A])\<rparr>"

definition makeDirs :: "outcome \<Rightarrow> err option" where
  "makeDirs res = (case res of
     (status, Some e) \<Rightarrow> Some (buildErr RunnerSystemFailure (DirsNotMade e))
   | (status, None) \<Rightarrow> if status \<noteq> 0 then Some (buildErr RunnerSystemFailure (DirsExited status)) else None)"

text \<open>\<open>roundDuration\<close>, with \<open>Duration.Round\<close> of a positive multiple: half away from zero.\<close>

definition round_to :: "duration \<Rightarrow> duration \<Rightarrow> duration" where
  "round_to d m = (let r = d mod m in if r + r < m then d - r else d - r + m)"

definition roundDuration :: "duration \<Rightarrow> duration" where
  "roundDuration d = (if second \<le> d then round_to d (100 * millisecond) else if millisecond \<le> d then round_to d millisecond else d)"

text \<open>What happens around one call of \<open>Prepare\<close>.\<close>

record prepare_env =
  pe_data :: "nat option option"
  pe_job :: job
  pe_sched :: sched
  pe_shell :: "err option"
  pe_alloc :: "alloc_error + nat"
  pe_allocation :: allocation
  pe_alloc_took :: duration
  pe_ended :: "prepare_end option"
  pe_past_deadline :: bool
  pe_fires :: "prepare_end option"
  pe_host :: "string option"
  pe_key_readable :: bool
  pe_transport :: "factory_error option"
  pe_probes :: "ready_turn list"
  pe_ready_took :: duration
  pe_dirs :: outcome

definition prepare_ctx :: "deps \<Rightarrow> prepare_env \<Rightarrow> job_ctx" where
  "prepare_ctx d env = \<lparr>jc_ended = map_option (prepare_ended (dp_prepare_timeout d)) (pe_ended env), jc_past_deadline = pe_past_deadline env,
     jc_fires = map_option (prepare_ended (dp_prepare_timeout d)) (pe_fires env)\<rparr>"

text \<open>
  \<open>guestTarget\<close> with \<open>agentTarget\<close>: the error, whether a lease on the Host or its agent is
  now held, and the call made.
\<close>

definition agentTarget :: "deps \<Rightarrow> prepare_env \<Rightarrow> err option \<times> bool \<times> exec_call list" where
  "agentTarget d env =
     (let a = pe_allocation env; name = host_name (al_host a)
      in if \<not> dp_agents d then (Some (buildErr ConfigurationError NoAgentClients), False, [])
         else let asked = TakeAgent (ls_id (al_lease a)) (al_vm a) name (host_address (al_host a))
              in case pe_host env of
                   Some e \<Rightarrow> (Some (buildErr RunnerSystemFailure (AgentRefused name e)), False, [asked False])
                 | None \<Rightarrow> (None, True, [asked True]))"

definition guestTarget :: "deps \<Rightarrow> prepare_env \<Rightarrow> resolved_profile \<Rightarrow> err option \<times> bool \<times> exec_call list" where
  "guestTarget d env p =
     (let kind = transportKind d p; host = pl_host (al_placement (pe_allocation env))
      in if kind = KindAgentExec then agentTarget d env
         else case pe_host env of
           Some e \<Rightarrow> (Some (buildErr RunnerSystemFailure (HostRefused host e)), False, [TakeHost host False])
         | None \<Rightarrow>
             if kind = KindSSH then (case sshOptions (pe_key_readable env) p of
               Inl c \<Rightarrow> (Some (buildErr ConfigurationError c), True, [TakeHost host True])
             | Inr login \<Rightarrow> (None, True, [TakeHost host True]))
             else (None, True, [TakeHost host True]))"

text \<open>
  \<open>startGuest\<close>: the executor with what it now holds, the calls and the error; \<open>None\<close> while
  the guest is still being probed.
\<close>

definition startGuest :: "deps \<Rightarrow> prepare_env \<Rightarrow> resolved_profile \<Rightarrow> executor \<Rightarrow> (executor \<times> exec_call list \<times> err option) option" where
  "startGuest d env p e = (case guestTarget d env p of (er, held, calls) \<Rightarrow>
     let e1 = e\<lparr>ex_host := held\<rparr>
     in case er of
       Some x \<Rightarrow> Some (e1, calls, Some x)
     | None \<Rightarrow> (case pe_transport env of
         Some x \<Rightarrow> Some (e1, calls, Some (buildErr RunnerSystemFailure (TransportRefused (al_vm (pe_allocation env)) x)))
       | None \<Rightarrow>
           let e2 = e1\<lparr>ex_tr := True\<rparr>; calls2 = calls @ [OpenGuest]
           in case waitReady p (al_vm (pe_allocation env)) (pe_probes env) of
                None \<Rightarrow> None
              | Some (Some x) \<Rightarrow> Some (e2, calls2, Some x)
              | Some None \<Rightarrow> Some (e2, calls2 @ [Log (GuestReady (roundDuration (pe_ready_took env))), RunCommand (dirs_command p)],
                  makeDirs (pe_dirs env))))"

definition closeGuest :: "executor \<Rightarrow> executor \<times> exec_call list" where
  "closeGuest e = (e\<lparr>ex_tr := False, ex_host := False\<rparr>,
     (if ex_tr e then [CloseGuest] else []) @ (if ex_host e then [ReturnHost] else []))"

definition releaseAfterFailedPrepare :: "executor \<Rightarrow> executor \<times> exec_call list" where
  "releaseAfterFailedPrepare e = (case closeGuest e of (e1, calls) \<Rightarrow>
     case ex_handle e1 of
       Some h \<Rightarrow> (e1\<lparr>ex_handle := None\<rparr>, calls @ [CallRelease h])
     | None \<Rightarrow> (e1, calls))"

text \<open>\<open>allocate\<close>: the executor with its Handle, the calls and the error.\<close>

definition allocate :: "prepare_env \<Rightarrow> nat \<Rightarrow> executor \<Rightarrow> executor \<times> exec_call list \<times> err option" where
  "allocate env r e = (case pe_alloc env of
     Inl x \<Rightarrow> (e, [CallAllocate r (Inl x)], Some (buildErr RunnerSystemFailure (NotAllocated x)))
   | Inr h \<Rightarrow> (e\<lparr>ex_handle := Some h, ex_alloc := Some (pe_allocation env)\<rparr>,
       [CallAllocate r (Inr h),
        Log (AllocatedOn (al_vm (pe_allocation env)) (pl_host (al_placement (pe_allocation env))) (roundDuration (pe_alloc_took env)))], None))"

text \<open>The steps of \<open>Prepare\<close> before the allocation: the Profile and the shell, from the Reservation on.\<close>

definition prepare_profile :: "deps \<Rightarrow> prepare_env \<Rightarrow> executor \<Rightarrow> executor \<times> exec_call list \<times> (err + nat \<times> resolved_profile)" where
  "prepare_profile d env e = (case pe_data env of
     Some (Some r) \<Rightarrow>
       (let e1 = e\<lparr>ex_reservation := Some r\<rparr> in case checkJob d (pe_job env) of
          Some x \<Rightarrow> (e1, [], Inl x)
        | None \<Rightarrow> (case resolveProfile (pe_job env) (pe_sched env) of
            Inl x \<Rightarrow> (e1, [], Inl x)
          | Inr p \<Rightarrow>
              let e2 = e1\<lparr>ex_profile := Some p\<rparr>; logged = [Log (UsingProfile (rp_name p) (rp_ref p))]
              in case configureShell (pe_shell env) of
                   Some x \<Rightarrow> (e2, logged, Inl x)
                 | None \<Rightarrow> (e2, logged, Inr (r, p))))
   | _ \<Rightarrow> (e, [], Inl (buildErr RunnerSystemFailure NoReservation)))"

text \<open>The body of \<open>Prepare\<close>, between the opening and the closing of the log section.\<close>

definition prepare_body :: "deps \<Rightarrow> prepare_env \<Rightarrow> executor \<Rightarrow> (executor \<times> exec_call list \<times> err option) option" where
  "prepare_body d env e =
     (if ex_prepared e then Some (e, [], Some (buildErr RunnerSystemFailure AlreadyPrepared))
      else case prepare_profile d env (e\<lparr>ex_prepared := True\<rparr>) of
        (e1, calls1, Inl x) \<Rightarrow> Some (e1, calls1, Some x)
      | (e1, calls1, Inr (r, p)) \<Rightarrow> (case allocate env r e1 of
          (e2, calls2, Some x) \<Rightarrow> Some (e2, calls1 @ calls2, Some (prepareErr (dp_build_is d) (prepare_ctx d env) x))
        | (e2, calls2, None) \<Rightarrow> (case startGuest d env p e2 of
            None \<Rightarrow> None
          | Some (e3, calls3, Some x) \<Rightarrow> (case releaseAfterFailedPrepare e3 of (e4, back) \<Rightarrow>
              Some (e4, calls1 @ calls2 @ calls3 @ back, Some (prepareErr (dp_build_is d) (prepare_ctx d env) x)))
          | Some (e3, calls3, None) \<Rightarrow>
              (case addHostServiceEnv (dp_env d) (dp_inventory d) (dp_cache_vars d) (pl_host (al_placement (pe_allocation env))) (ex_vars e3) of
                 (vars, services) \<Rightarrow> Some (e3\<lparr>ex_vars := vars\<rparr>, calls1 @ calls2 @ calls3 @ [Log (HostServices (servicesLine services))], None)))))"

definition Prepare :: "deps \<Rightarrow> prepare_env \<Rightarrow> executor \<Rightarrow> (executor \<times> exec_call list \<times> err option) option" where
  "Prepare d env e = map_option (\<lambda>(e1, calls, res).
       (e1, Log SectionStart # calls @ (case res of None \<Rightarrow> [] | Some x \<Rightarrow> [Log (PrepareError x)]) @ [Log SectionEnd], res))
     (prepare_body d env (e\<lparr>ex_vars := jb_vars (pe_job env)\<rparr>))"

section \<open>Run\<close>

text \<open>What ended the wait of \<open>runStage\<close>: the transport's answer, or the context, and then whether the transport stopped in time.\<close>

datatype stage_end = StageDone int "tr_error option" | StageInterrupted stage_stop bool

record run_env =
  re_stage :: string
  re_script :: string
  re_args :: "string list"
  re_end :: stage_end
  re_stopped :: "stage_stop option"
  re_past_deadline :: bool
  re_fires :: "stage_stop option"
  re_lost :: "handle_error option"

definition stage_ctx :: "run_env \<Rightarrow> job_ctx" where
  "stage_ctx env = \<lparr>jc_ended = map_option stage_ended (re_stopped env), jc_past_deadline = re_past_deadline env,
     jc_fires = map_option stage_ended (re_fires env)\<rparr>"

definition noExitStatus :: "int \<Rightarrow> tr_error option \<Rightarrow> bool" where
  "noExitStatus status er \<longleftrightarrow> er \<noteq> None \<or> status < 0"

definition recordFailed :: "string \<Rightarrow> err \<Rightarrow> executor \<Rightarrow> executor" where
  "recordFailed stage x e = e\<lparr>ex_failed := mput stage x (ex_failed e)\<rparr>"

definition stageFailed :: "string \<Rightarrow> executor \<Rightarrow> err option" where
  "stageFailed stage e = mget (ex_failed e) stage"

text \<open>\<open>leaseLost\<close>, with what \<open>CheckLease\<close> answers when it is asked.\<close>

definition stage_leaseLost :: "run_env \<Rightarrow> nat \<Rightarrow> int \<Rightarrow> tr_error option \<Rightarrow> executor \<Rightarrow> executor \<times> exec_call list \<times> err option" where
  "stage_leaseLost env h status er e =
     (if \<not> noExitStatus status er then (e, [], None)
      else case re_lost env of
        None \<Rightarrow> (e, [CallCheckLease h], None)
      | Some lost \<Rightarrow>
          let x = Build (Both (Plain (case er of None \<Rightarrow> UnknownStatus status | Some m \<Rightarrow> StreamFailed m)) (Plain (LeaseIsLost lost)))
                    RunnerSystemFailure 0
          in (recordFailed (re_stage env) x e, [CallCheckLease h], Some x))"

definition stageError :: "deps \<Rightarrow> string \<Rightarrow> int \<Rightarrow> tr_error option \<Rightarrow> executor \<Rightarrow> executor \<times> err option" where
  "stageError d stage status er e = (case er of
     Some m \<Rightarrow> let x = buildErr RunnerSystemFailure (StreamFailed m) in (recordFailed stage x e, Some x)
   | None \<Rightarrow> if status \<noteq> 0 then (e, Some (Build (Plain (ExitStatus status)) ScriptFailure (dp_normalise d status))) else (e, None))"

definition graceful_kill :: "deps \<Rightarrow> duration" where
  "graceful_kill d = (if dp_graceful_kill d \<le> 0 then 30 * second else dp_graceful_kill d)"

definition runStage :: "deps \<Rightarrow> run_env \<Rightarrow> nat \<Rightarrow> executor \<Rightarrow> executor \<times> exec_call list \<times> err option" where
  "runStage d env h e = (case re_end env of
     StageInterrupted stop in_time \<Rightarrow>
       (e, if in_time then [] else [Log (StageNotStopped (re_stage env) (graceful_kill d))], Some (stageCancelled (stage_ended stop)))
   | StageDone status er \<Rightarrow> (case expired (stage_ctx env) of
       Some fin \<Rightarrow> (e, [], Some (stageCancelled fin))
     | None \<Rightarrow> (case stage_leaseLost env h status er e of
         (e1, calls, Some x) \<Rightarrow> (e1, calls, Some x)
       | (e1, calls, None) \<Rightarrow> (case stageError d (re_stage env) status er e1 of (e2, res) \<Rightarrow> (e2, calls, res)))))"

definition stage_command :: "resolved_profile \<Rightarrow> run_env \<Rightarrow> command" where
  "stage_command p env = \<lparr>cmd_path = guest_shell p, cmd_args = re_args env, cmd_dir = pr_builds_dir (rp_profile p), cmd_env = [],
     cmd_user = guest_user p, cmd_stdin = Some (re_script env)\<rparr>"

definition Run :: "deps \<Rightarrow> run_env \<Rightarrow> executor \<Rightarrow> executor \<times> exec_call list \<times> err option" where
  "Run d env e = (case (ex_tr e, ex_handle e, ex_profile e) of
     (True, Some h, Some p) \<Rightarrow> (case stageFailed (re_stage env) e of
        Some x \<Rightarrow> (e, [], Some x)
      | None \<Rightarrow> (case runStage d env h e of
          (e1, calls, res) \<Rightarrow> (e1, RunCommand (stage_command p env) # calls, res)))
   | _ \<Rightarrow> (e, [], Some (buildErr RunnerSystemFailure RunBeforePrepare)))"

section \<open>Finish and Cleanup\<close>

definition Finish :: "deps \<Rightarrow> bool \<Rightarrow> executor \<Rightarrow> executor \<times> exec_call list" where
  "Finish d failed e = (e\<lparr>ex_job_failed := failed\<rparr>,
     case (ex_handle e, ex_alloc e) of
       (Some h, Some a) \<Rightarrow> if failed \<and> dp_keep_on_failure d then [Log (KeepingMicroVM (al_vm a) (pl_host (al_placement a)))] else []
     | _ \<Rightarrow> [])"

definition Cleanup :: "deps \<Rightarrow> executor \<Rightarrow> executor \<times> exec_call list" where
  "Cleanup d e = (case closeGuest e of (e1, calls) \<Rightarrow>
     case ex_handle e1 of
       None \<Rightarrow> (e1, calls)
     | Some h \<Rightarrow> (e1\<lparr>ex_handle := None\<rparr>,
         calls @ [if ex_job_failed e1 \<and> dp_keep_on_failure d then CallRetain h else CallRelease h]))"

section \<open>The provider\<close>

text \<open>
  Whether a \<open>Lifecycle\<close> was given, whether its \<open>Run\<close> was started, cancelled and has returned,
  whether an init hook is installed, and whether \<open>AbortAll\<close> was called.
\<close>

record provider =
  pv_lifecycle :: bool
  pv_started :: bool
  pv_cancelled :: bool
  pv_hook :: bool
  pv_aborted :: bool

datatype provider_error = SchedulerRequired | TransportsRequired | HostsRequired

definition NewProvider :: "bool \<Rightarrow> bool \<Rightarrow> bool \<Rightarrow> bool \<Rightarrow> bool \<Rightarrow> provider_error + provider" where
  "NewProvider has_scheduler has_transports has_hosts lifecycle hook =
     (if \<not> has_scheduler then Inl SchedulerRequired
      else if \<not> has_transports then Inl TransportsRequired
      else if \<not> has_hosts then Inl HostsRequired
      else Inr \<lparr>pv_lifecycle = lifecycle, pv_started = False, pv_cancelled = False, pv_hook = hook, pv_aborted = False\<rparr>)"

datatype provider_call = StartScheduler | CancelScheduler | RunHook | WaitScheduler

definition provider_Init :: "provider \<Rightarrow> provider \<times> provider_call list" where
  "provider_Init p = (p\<lparr>pv_started := pv_started p \<or> pv_lifecycle p, pv_hook := False\<rparr>,
     (if pv_lifecycle p \<and> \<not> pv_started p then [StartScheduler] else []) @ (if pv_hook p then [RunHook] else []))"

definition BeginShutdown :: "provider \<Rightarrow> provider \<times> provider_call list" where
  "BeginShutdown p = (if pv_started p then (p\<lparr>pv_cancelled := True\<rparr>, [CancelScheduler]) else (p, []))"

definition provider_Shutdown :: "provider \<Rightarrow> provider \<times> provider_call list" where
  "provider_Shutdown p = (case BeginShutdown p of (p1, calls) \<Rightarrow> (p1, calls @ (if pv_started p1 then [WaitScheduler] else [])))"

definition AbortAll :: "provider \<Rightarrow> provider" where
  "AbortAll p = p\<lparr>pv_aborted := True\<rparr>"

text \<open>\<open>Acquire\<close> asks the Scheduler for a Reservation and gives any refusal as no free executor.\<close>

definition Acquire :: "time \<Rightarrow> health \<Rightarrow> tracker \<Rightarrow> sched \<Rightarrow> (reserve_error + nat option) \<times> sched" where
  "Acquire now hm t s = (case Reserve None now hm t s of
     (Inl e, s1) \<Rightarrow> (Inl e, s1)
   | (Inr r, s1) \<Rightarrow> (Inr (Some (res_id r)), s1))"

text \<open>The provider's \<open>Release\<close>: executor data that is not its own, or holds no Reservation, is left alone.\<close>

definition provider_Release :: "reservation option option \<Rightarrow> sched \<Rightarrow> sched" where
  "provider_Release data s = (case data of
     Some (Some r) \<Rightarrow> ReleaseReservation (Some r) s
   | _ \<Rightarrow> s)"

definition features_on :: "string list" where
  "features_on = [''variables'', ''image'', ''refspecs'', ''masking'', ''raw_variables'', ''artifacts'', ''artifacts_exclude'',
     ''upload_multiple_artifacts'', ''upload_raw_artifacts'', ''cache'', ''fallback_cache_keys'', ''multi_build_steps'',
     ''return_exit_code'', ''trace_reset'', ''trace_checksum'', ''trace_size'', ''cancelable'', ''cancel_gracefully'']"

definition features_off :: "string list" where
  "features_off = [''services'', ''session'', ''terminal'', ''proxy'', ''shared'']"

definition GetFeatures :: "(string, bool) gomap \<Rightarrow> (string, bool) gomap" where
  "GetFeatures f = fold (\<lambda>n. mput n False) features_off (fold (\<lambda>n. mput n True) features_on f)"

text \<open>
  \<open>Data.WithContext\<close>: what the Build's context ends with when its Handle is done, and the
  fields \<open>LogFields\<close> gives.
\<close>

definition WithContext :: "handle_error option option \<Rightarrow> ended option \<Rightarrow> ended option" where
  "WithContext handle_ended parent = (case parent of
     Some e \<Rightarrow> Some e
   | None \<Rightarrow> map_option (\<lambda>h. stage_ended (HandleDone h)) handle_ended)"

definition LogFields :: "allocation option \<Rightarrow> (string, string) gomap" where
  "LogFields a = (case a of
     None \<Rightarrow> []
   | Some a \<Rightarrow> [(''profile'', al_profile a), (''vm_uid'', al_vm a), (''host'', pl_host (al_placement a))])"

end
