(* ===== verification/Executor_Props.thy ===== *)
theory Executor_Props
  imports Executor Scheduler_Behaviour
begin

text \<open>
  What the Executor keeps to over the life of a Job: the errors of \<open>Prepare\<close>, the balance of
  what it takes and gives back, the Stages it refuses to run again, and whom it blames for a
  Stage that failed. Any order of its operations is allowed, as the run loop decides it.
\<close>

named_theorems exec_defs \<open>the definitions one operation of the executor unfolds to\<close>

declare closeGuest_def [exec_defs] releaseAfterFailedPrepare_def [exec_defs] allocate_def [exec_defs] recordFailed_def [exec_defs]

section \<open>Operations in any order\<close>

datatype exec_op = OpPrepare prepare_env | OpRun run_env | OpFinish bool | OpCleanup

text \<open>One operation; \<open>None\<close> is a \<open>Prepare\<close> that has not returned.\<close>

fun exec_step :: "deps \<Rightarrow> exec_op \<Rightarrow> executor \<Rightarrow> (executor \<times> exec_call list) option" where
  "exec_step d (OpPrepare env) e = map_option (\<lambda>(e1, calls, res). (e1, calls)) (Prepare d env e)"
| "exec_step d (OpRun env) e = (case Run d env e of (e1, calls, res) \<Rightarrow> Some (e1, calls))"
| "exec_step d (OpFinish failed) e = Some (Finish d failed e)"
| "exec_step d OpCleanup e = Some (Cleanup d e)"

fun exec_run :: "deps \<Rightarrow> exec_op list \<Rightarrow> executor \<Rightarrow> (executor \<times> exec_call list) option" where
  "exec_run d [] e = Some (e, [])"
| "exec_run d (op # ops) e = (case exec_step d op e of
     None \<Rightarrow> None
   | Some (e1, calls) \<Rightarrow> (case exec_run d ops e1 of None \<Rightarrow> None | Some (e2, rest) \<Rightarrow> Some (e2, calls @ rest)))"

lemma exec_run_append:
  "exec_run d (a @ b) e = (case exec_run d a e of None \<Rightarrow> None
     | Some (e1, calls) \<Rightarrow> (case exec_run d b e1 of None \<Rightarrow> None | Some (e2, rest) \<Rightarrow> Some (e2, calls @ rest)))"
  by (induction a arbitrary: e) (auto split: option.splits prod.splits)

section \<open>Books\<close>

definition allocs :: "nat \<Rightarrow> exec_call list \<Rightarrow> nat" where
  "allocs h calls = count_if (\<lambda>c. case c of CallAllocate r (Inr h') \<Rightarrow> h' = h | _ \<Rightarrow> False) calls"

definition backs :: "nat \<Rightarrow> exec_call list \<Rightarrow> nat" where
  "backs h calls = count_if (\<lambda>c. c = CallRelease h \<or> c = CallRetain h) calls"

definition takes :: "exec_call list \<Rightarrow> nat" where
  "takes calls = count_if (\<lambda>c. case c of TakeHost n granted \<Rightarrow> granted | TakeAgent l v n a granted \<Rightarrow> granted | _ \<Rightarrow> False) calls"

definition returns :: "exec_call list \<Rightarrow> nat" where
  "returns calls = count_if (\<lambda>c. c = ReturnHost) calls"

definition opens :: "exec_call list \<Rightarrow> nat" where
  "opens calls = count_if (\<lambda>c. c = OpenGuest) calls"

definition closes :: "exec_call list \<Rightarrow> nat" where
  "closes calls = count_if (\<lambda>c. c = CloseGuest) calls"

lemmas book_defs = allocs_def backs_def takes_def returns_def opens_def closes_def

lemma books_append [simp]:
  "allocs h (a @ b) = allocs h a + allocs h b" "backs h (a @ b) = backs h a + backs h b" "takes (a @ b) = takes a + takes b"
  "returns (a @ b) = returns a + returns b" "opens (a @ b) = opens a + opens b" "closes (a @ b) = closes a + closes b"
  by (simp_all add: book_defs)

lemma books_Nil [simp]:
  "allocs h [] = 0" "backs h [] = 0" "takes [] = 0" "returns [] = 0" "opens [] = 0" "closes [] = 0"
  by (simp_all add: book_defs)

lemma books_Log [simp]:
  "allocs h (Log l # cs) = allocs h cs" "backs h (Log l # cs) = backs h cs" "takes (Log l # cs) = takes cs"
  "returns (Log l # cs) = returns cs" "opens (Log l # cs) = opens cs" "closes (Log l # cs) = closes cs"
  by (simp_all add: book_defs)

text \<open>What the executor holds when it starts and what it takes is what it gives back and still holds.\<close>

definition holding :: "nat \<Rightarrow> executor \<Rightarrow> nat" where
  "holding h e = (if ex_handle e = Some h then 1 else 0)"

definition even_books :: "executor \<Rightarrow> exec_call list \<Rightarrow> executor \<Rightarrow> bool" where
  "even_books e calls e1 \<longleftrightarrow>
     (\<forall>h. holding h e + allocs h calls = backs h calls + holding h e1)
     \<and> of_bool (ex_host e) + takes calls = returns calls + of_bool (ex_host e1)
     \<and> of_bool (ex_tr e) + opens calls = closes calls + of_bool (ex_tr e1)"

lemma even_books_trans: "even_books e a e1 \<Longrightarrow> even_books e1 b e2 \<Longrightarrow> even_books e (a @ b) e2"
  unfolding even_books_def by (auto simp: algebra_simps) (metis (no_types, lifting) add.assoc add.commute)+

lemma even_books_refl [simp]: "even_books e [] e"
  by (simp add: even_books_def)

lemma even_books_fields [simp]:
  "even_books (e\<lparr>ex_prepared := b\<rparr>) calls e1 = even_books e calls e1" "even_books (e\<lparr>ex_vars := v\<rparr>) calls e1 = even_books e calls e1"
  "even_books e calls (e1\<lparr>ex_prepared := b\<rparr>) = even_books e calls e1" "even_books e calls (e1\<lparr>ex_vars := v\<rparr>) = even_books e calls e1"
  by (simp_all add: even_books_def holding_def)

lemma even_books_Log [simp]: "even_books e (Log l # calls) e1 = even_books e calls e1"
  by (simp add: even_books_def)

text \<open>What holds of an executor between operations: it holds nothing before \<open>Prepare\<close>, and a guest only with a Handle.\<close>

definition exec_ok :: "executor \<Rightarrow> bool" where
  "exec_ok e \<longleftrightarrow> (\<not> ex_prepared e \<longrightarrow> ex_handle e = None \<and> \<not> ex_host e \<and> \<not> ex_tr e)
     \<and> (ex_tr e \<longrightarrow> ex_handle e \<noteq> None \<and> ex_host e)
     \<and> (ex_host e \<longrightarrow> ex_handle e \<noteq> None)
     \<and> (ex_handle e \<noteq> None \<longrightarrow> ex_profile e \<noteq> None \<and> ex_alloc e \<noteq> None)"

lemma exec_ok_Create: "exec_ok Create"
  by (simp add: exec_ok_def Create_def)

lemma closeGuest_books: "closeGuest e = (e1, calls) \<Longrightarrow> even_books e calls e1"
  by (auto simp: closeGuest_def even_books_def holding_def book_defs)

lemma give_back_books:
  "ex_handle e = Some h \<Longrightarrow> even_books e [CallRelease h] (e\<lparr>ex_handle := None\<rparr>)"
  "ex_handle e = Some h \<Longrightarrow> even_books e [CallRetain h] (e\<lparr>ex_handle := None\<rparr>)"
  by (auto simp: even_books_def holding_def book_defs)

lemmas close_and_give_back = even_books_trans [OF closeGuest_books give_back_books(1)] even_books_trans [OF closeGuest_books give_back_books(2)]

lemma release_books: "releaseAfterFailedPrepare e = (e1, calls) \<Longrightarrow> even_books e calls e1"
  by (auto simp: releaseAfterFailedPrepare_def closeGuest_books close_and_give_back split: prod.splits option.splits)

lemma release_empty: "releaseAfterFailedPrepare e = (e1, calls) \<Longrightarrow> ex_handle e1 = None \<and> \<not> ex_host e1 \<and> \<not> ex_tr e1 \<and> ex_prepared e1 = ex_prepared e"
  by (auto simp: exec_defs split: option.splits)

lemma Cleanup_books: "Cleanup d e = (e1, calls) \<Longrightarrow> even_books e calls e1"
  by (auto simp: Cleanup_def closeGuest_books close_and_give_back split: prod.splits option.splits if_splits)

lemma Cleanup_empty: "Cleanup d e = (e1, calls) \<Longrightarrow> ex_handle e1 = None \<and> \<not> ex_host e1 \<and> \<not> ex_tr e1 \<and> ex_prepared e1 = ex_prepared e"
  by (auto simp: Cleanup_def exec_defs split: option.splits)

lemma guestTarget_books:
  "guestTarget d env p = (er, held, calls) \<Longrightarrow> \<not> ex_host e \<Longrightarrow> even_books e calls (e\<lparr>ex_host := held\<rparr>) \<and> (er = None \<longrightarrow> held)"
  by (auto simp: guestTarget_def agentTarget_def Let_def even_books_def holding_def book_defs split: if_splits option.splits sum.splits)

lemma startGuest_books:
  assumes "startGuest d env p e = Some (e1, calls, res)" "\<not> ex_host e" "\<not> ex_tr e"
  shows "even_books e calls e1" and "ex_handle e1 = ex_handle e" and "ex_tr e1 \<longrightarrow> ex_host e1"
    and "ex_profile e1 = ex_profile e \<and> ex_alloc e1 = ex_alloc e \<and> ex_prepared e1 = ex_prepared e"
proof -
  obtain er held calls0 where g: "guestTarget d env p = (er, held, calls0)" by (metis prod_cases3)
  note books = guestTarget_books [OF g assms(2)]
  have opened: "even_books (e\<lparr>ex_host := held\<rparr>) (OpenGuest # cs) (e\<lparr>ex_host := held, ex_tr := True\<rparr>)"
    if "\<forall>c \<in> set cs. \<exists>l. c = Log l \<or> c = RunCommand (dirs_command p)" for cs
  proof -
    have "allocs h cs = 0 \<and> backs h cs = 0 \<and> takes cs = 0 \<and> returns cs = 0 \<and> opens cs = 0 \<and> closes cs = 0" for h
      using that by (induction cs) (auto simp: book_defs)
    then show ?thesis using assms(3) by (simp add: even_books_def holding_def) (simp add: book_defs)
  qed
  note both = even_books_trans [OF conjunct1 [OF books] opened]
  show "even_books e calls e1" "ex_handle e1 = ex_handle e" "ex_tr e1 \<longrightarrow> ex_host e1"
    "ex_profile e1 = ex_profile e \<and> ex_alloc e1 = ex_alloc e \<and> ex_prepared e1 = ex_prepared e"
    using assms g books both [of "[]"] both [of "[Log (GuestReady (roundDuration (pe_ready_took env))), RunCommand (dirs_command p)]"]
    by (auto simp: startGuest_def Let_def split: option.splits)
qed

lemma prepare_profile_keeps:
  assumes "prepare_profile d env e = (e1, calls, r)"
  shows "ex_handle e1 = ex_handle e \<and> ex_host e1 = ex_host e \<and> ex_tr e1 = ex_tr e \<and> ex_prepared e1 = ex_prepared e"
    and "(\<exists>a b. r = Inr (a, b)) \<longrightarrow> ex_profile e1 \<noteq> None" and "even_books e calls e1"
  using assms
  by (auto simp: prepare_profile_def Let_def even_books_def holding_def book_defs split: option.splits sum.splits)

lemma allocate_books:
  assumes "allocate env r e = (e1, calls, res)" "ex_handle e = None"
  shows "even_books e calls e1" and "ex_host e1 = ex_host e \<and> ex_tr e1 = ex_tr e \<and> ex_profile e1 = ex_profile e \<and> ex_prepared e1 = ex_prepared e"
    and "if res = None then ex_handle e1 \<noteq> None \<and> ex_alloc e1 \<noteq> None else ex_handle e1 = None"
  using assms by (auto simp: allocate_def even_books_def holding_def book_defs split: sum.splits)

text \<open>How \<open>Prepare\<close> ends: refused as a second call, before the allocation, by it, after it, or with a guest.\<close>

lemma prepare_body_cases:
  assumes "prepare_body d env e = Some (e1, calls, res)"
  obtains (again) "ex_prepared e" "e1 = e" "calls = []" "res = Some (buildErr RunnerSystemFailure AlreadyPrepared)"
  | (early) x where "\<not> ex_prepared e" "prepare_profile d env (e\<lparr>ex_prepared := True\<rparr>) = (e1, calls, Inl x)" "res = Some x"
  | (unallocated) ea callsa r p callsb x where "\<not> ex_prepared e" "prepare_profile d env (e\<lparr>ex_prepared := True\<rparr>) = (ea, callsa, Inr (r, p))"
      "allocate env r ea = (e1, callsb, Some x)" "calls = callsa @ callsb" "res = Some (prepareErr (dp_build_is d) (prepare_ctx d env) x)"
  | (failed) ea callsa r p eb callsb ec callsc x given
      where "\<not> ex_prepared e" "prepare_profile d env (e\<lparr>ex_prepared := True\<rparr>) = (ea, callsa, Inr (r, p))" "allocate env r ea = (eb, callsb, None)"
      "startGuest d env p eb = Some (ec, callsc, Some x)" "releaseAfterFailedPrepare ec = (e1, given)"
      "calls = callsa @ callsb @ callsc @ given" "res = Some (prepareErr (dp_build_is d) (prepare_ctx d env) x)"
  | (started) ea callsa r p eb callsb ec callsc vars services
      where "\<not> ex_prepared e" "prepare_profile d env (e\<lparr>ex_prepared := True\<rparr>) = (ea, callsa, Inr (r, p))" "allocate env r ea = (eb, callsb, None)"
      "startGuest d env p eb = Some (ec, callsc, None)" "e1 = ec\<lparr>ex_vars := vars\<rparr>" "res = None"
      "calls = callsa @ callsb @ callsc @ [Log (HostServices (servicesLine services))]"
      "addHostServiceEnv (dp_env d) (dp_inventory d) (dp_cache_vars d) (pl_host (al_placement (pe_allocation env))) (ex_vars ec) = (vars, services)"
proof (cases "ex_prepared e")
  case True
  then show thesis using again assms by (simp add: prepare_body_def)
next
  case False
  obtain ea callsa ra where a: "prepare_profile d env (e\<lparr>ex_prepared := True\<rparr>) = (ea, callsa, ra)" by (metis prod_cases3)
  show thesis
  proof (cases ra)
    case (Inl x)
    then show thesis using early [of x] assms False a by (simp add: prepare_body_def)
  next
    case (Inr rp)
    obtain r p where rp: "rp = (r, p)" by (cases rp)
    obtain eb callsb resb where b: "allocate env r ea = (eb, callsb, resb)" by (metis prod_cases3)
    show thesis
    proof (cases resb)
      case (Some x)
      then show thesis using unallocated [of ea callsa r p callsb x] assms False a Inr rp b by (simp add: prepare_body_def)
    next
      case None
      show thesis
      proof (cases "startGuest d env p eb")
        case nothing: None
        then show thesis using assms False a Inr rp b None by (simp add: prepare_body_def)
      next
        case (Some t)
        obtain ec callsc resc where t: "t = (ec, callsc, resc)" by (metis prod_cases3)
        show thesis
        proof (cases resc)
          case x: (Some x)
          obtain ed given where g: "releaseAfterFailedPrepare ec = (ed, given)" by (metis surj_pair)
          show thesis using failed [of ea callsa r p eb callsb ec callsc x given] assms False a Inr rp b None Some t x g by (simp add: prepare_body_def)
        next
          case x: None
          obtain vars services
            where v: "addHostServiceEnv (dp_env d) (dp_inventory d) (dp_cache_vars d) (pl_host (al_placement (pe_allocation env))) (ex_vars ec) = (vars, services)"
            by (metis surj_pair)
          show thesis using started [of ea callsa r p eb callsb ec callsc vars services] assms False a Inr rp b None Some t x v by (simp add: prepare_body_def)
        qed
      qed
    qed
  qed
qed

text \<open>What a \<open>Prepare\<close> on an executor that holds nothing has after each of its parts.\<close>

lemma profile_part:
  assumes "prepare_profile d env (e\<lparr>ex_prepared := True\<rparr>) = (ea, callsa, ra)" "exec_ok e" "\<not> ex_prepared e"
  shows "even_books e callsa ea" "ex_handle ea = None \<and> \<not> ex_host ea \<and> \<not> ex_tr ea \<and> ex_prepared ea"
  using prepare_profile_keeps [OF assms(1)] assms(2,3) by (simp_all add: exec_ok_def)

lemma allocated_part:
  assumes "prepare_profile d env (e\<lparr>ex_prepared := True\<rparr>) = (ea, callsa, Inr (r, p))" "allocate env r ea = (eb, callsb, None)" "exec_ok e" "\<not> ex_prepared e"
  shows "even_books e (callsa @ callsb) eb" "\<not> ex_host eb" "\<not> ex_tr eb" "ex_prepared eb" "ex_handle eb \<noteq> None" "ex_alloc eb \<noteq> None" "ex_profile eb \<noteq> None"
proof -
  note a = profile_part [OF assms(1,3,4)]
  have free: "ex_handle ea = None" using a(2) by simp
  note b = allocate_books [OF assms(2) free]
  show "even_books e (callsa @ callsb) eb" using a(1) b(1) by (rule even_books_trans)
  show "\<not> ex_host eb" "\<not> ex_tr eb" "ex_prepared eb" "ex_handle eb \<noteq> None" "ex_alloc eb \<noteq> None" "ex_profile eb \<noteq> None"
    using a(2) b(2,3) prepare_profile_keeps(2) [OF assms(1)] by simp_all
qed

lemma started_part:
  assumes "prepare_profile d env (e\<lparr>ex_prepared := True\<rparr>) = (ea, callsa, Inr (r, p))" "allocate env r ea = (eb, callsb, None)"
    "startGuest d env p eb = Some (ec, callsc, resc)" "exec_ok e" "\<not> ex_prepared e"
  shows "even_books e (callsa @ callsb @ callsc) ec" "exec_ok ec" "ex_prepared ec"
proof -
  note b = allocated_part [OF assms(1,2,4,5)]
  note c = startGuest_books [OF assms(3) b(2,3)]
  from even_books_trans [OF b(1) c(1)] show "even_books e (callsa @ callsb @ callsc) ec" by simp
  show "exec_ok ec" "ex_prepared ec" using b(4-7) c(2-4) by (simp_all add: exec_ok_def)
qed

lemma prepare_body_books:
  assumes "prepare_body d env e = Some (e1, calls, res)" "exec_ok e"
  shows "even_books e calls e1 \<and> exec_ok e1"
  using assms(1)
proof (cases rule: prepare_body_cases)
  case (early x)
  then show ?thesis using profile_part [OF early(2) assms(2) early(1)] by (simp add: exec_ok_def)
next
  case (unallocated ea callsa r p callsb x)
  note a = profile_part [OF unallocated(2) assms(2) unallocated(1)]
  then have free: "ex_handle ea = None" by simp
  note b = allocate_books [OF unallocated(3) free]
  have "even_books e (callsa @ callsb) e1" using a(1) b(1) by (rule even_books_trans)
  then show ?thesis using unallocated(4) a(2) b(2,3) by (simp add: exec_ok_def)
next
  case (failed ea callsa r p eb callsb ec callsc x given)
  note c = started_part [OF failed(2-4) assms(2) failed(1)]
  have "exec_ok e1" using release_empty [OF failed(5)] c(3) by (simp add: exec_ok_def)
  with even_books_trans [OF c(1) release_books [OF failed(5)]] failed(6) show ?thesis by simp
next
  case (started ea callsa r p eb callsb ec callsc vars services)
  note c = started_part [OF started(2-4) assms(2) started(1)]
  have "even_books ec [Log (HostServices (servicesLine services))] ec" by simp
  from even_books_trans [OF c(1) this] c(2) show ?thesis unfolding started(5,7) by (simp add: exec_ok_def)
qed (use assms(2) in simp)

lemma Prepare_books:
  assumes "Prepare d env e = Some (e1, calls, res)" "exec_ok e"
  shows "even_books e calls e1 \<and> exec_ok e1"
proof -
  let ?e = "e\<lparr>ex_vars := jb_vars (pe_job env)\<rparr>"
  from assms(1) obtain inner where b: "prepare_body d env ?e = Some (e1, inner, res)"
    and calls: "calls = Log SectionStart # inner @ (case res of None \<Rightarrow> [] | Some x \<Rightarrow> [Log (PrepareError x)]) @ [Log SectionEnd]"
    by (auto simp: Prepare_def)
  have "exec_ok ?e" using assms(2) by (simp add: exec_ok_def)
  from prepare_body_books [OF b this] have "even_books e inner e1" "exec_ok e1" by simp_all
  moreover have "even_books e1 ((case res of None \<Rightarrow> [] | Some x \<Rightarrow> [Log (PrepareError x)]) @ [Log SectionEnd]) e1"
    by (cases res) simp_all
  ultimately show ?thesis unfolding calls using even_books_trans by simp
qed

text \<open>A Stage changes nothing but the record of failed Stages, and only runs, asks and logs.\<close>

fun plain_call :: "exec_call \<Rightarrow> bool" where
  "plain_call (RunCommand c) = True"
| "plain_call (CallCheckLease h) = True"
| "plain_call (Log l) = True"
| "plain_call c = False"

lemma plain_books: "list_all plain_call calls \<Longrightarrow>
  allocs h calls = 0 \<and> backs h calls = 0 \<and> takes calls = 0 \<and> returns calls = 0 \<and> opens calls = 0 \<and> closes calls = 0"
proof (induction calls)
  case (Cons c cs)
  then show ?case by (cases c) (simp_all add: book_defs)
qed simp

lemma recordFailed_only: "\<exists>f. recordFailed stage x e = e\<lparr>ex_failed := f\<rparr>"
  by (auto simp: recordFailed_def)

lemma unchanged_failed: "\<exists>f. e = e\<lparr>ex_failed := f\<rparr>" for e :: executor
  by (rule exI [of _ "ex_failed e"]) simp

lemma leaseLost_shape:
  "stage_leaseLost env h status er e = (e1, calls, res) \<Longrightarrow> (\<exists>f. e1 = e\<lparr>ex_failed := f\<rparr>) \<and> list_all plain_call calls"
  using recordFailed_only unchanged_failed by (auto simp: stage_leaseLost_def Let_def split: if_splits option.splits)

lemma stageError_shape: "stageError d stage status er e = (e1, res) \<Longrightarrow> \<exists>f. e1 = e\<lparr>ex_failed := f\<rparr>"
  using recordFailed_only unchanged_failed by (auto simp: stageError_def Let_def split: if_splits option.splits)

lemma runStage_shape:
  assumes "runStage d env h e = (e1, calls, res)"
  shows "(\<exists>f. e1 = e\<lparr>ex_failed := f\<rparr>) \<and> list_all plain_call calls"
proof (cases "re_end env")
  case (StageInterrupted stop in_time)
  then have "e1 = e" "list_all plain_call calls" using assms by (auto simp: runStage_def split: if_splits)
  then show ?thesis using unchanged_failed by blast
next
  case (StageDone status er)
  obtain ea callsa ra where a: "stage_leaseLost env h status er e = (ea, callsa, ra)" by (metis prod_cases3)
  obtain f where f: "ea = e\<lparr>ex_failed := f\<rparr>" and plain: "list_all plain_call callsa" using leaseLost_shape [OF a] by blast
  obtain eb rb where b: "stageError d (re_stage env) status er ea = (eb, rb)" by (metis surj_pair)
  obtain g where g: "eb = ea\<lparr>ex_failed := g\<rparr>" using stageError_shape [OF b] by blast
  have eb: "eb = e\<lparr>ex_failed := g\<rparr>" using f g by simp
  show ?thesis
  proof (cases "expired (stage_ctx env)")
    case (Some fin)
    then have "e1 = e" "calls = []" using assms StageDone by (simp_all add: runStage_def)
    then show ?thesis using unchanged_failed by simp
  next
    case None
    then have "calls = callsa" "e1 = ea \<or> e1 = eb" using assms StageDone a b by (simp_all add: runStage_def split: option.splits)
    then show ?thesis using f eb plain by blast
  qed
qed

lemma Run_shape:
  assumes "Run d env e = (e1, calls, res)"
  shows "(\<exists>f. e1 = e\<lparr>ex_failed := f\<rparr>) \<and> list_all plain_call calls"
proof (cases "ex_tr e \<and> ex_handle e \<noteq> None \<and> ex_profile e \<noteq> None \<and> stageFailed (re_stage env) e = None")
  case True
  then obtain h p where hp: "ex_handle e = Some h" "ex_profile e = Some p" by auto
  obtain ea callsa ra where a: "runStage d env h e = (ea, callsa, ra)" by (metis prod_cases3)
  then have "e1 = ea" "calls = RunCommand (stage_command p env) # callsa" using assms True hp by (simp_all add: Run_def)
  then show ?thesis using runStage_shape [OF a] by simp
next
  case False
  then have "e1 = e" "calls = []" using assms by (auto simp: Run_def split: option.splits bool.splits)
  then show ?thesis using unchanged_failed by simp
qed

lemma Run_books: "Run d env e = (e1, calls, res) \<Longrightarrow> even_books e calls e1 \<and> (exec_ok e \<longrightarrow> exec_ok e1)"
  using Run_shape [of d env e e1 calls res] plain_books [of calls] by (auto simp: even_books_def holding_def exec_ok_def)

lemma Finish_books: "Finish d failed e = (e1, calls) \<Longrightarrow> even_books e calls e1 \<and> (exec_ok e \<longrightarrow> exec_ok e1)"
  by (auto simp: Finish_def even_books_def holding_def exec_ok_def split: option.splits if_splits)

lemma exec_step_books:
  assumes "exec_step d op e = Some (e1, calls)" "exec_ok e"
  shows "even_books e calls e1 \<and> exec_ok e1"
proof (cases op)
  case (OpPrepare env)
  then show ?thesis using assms Prepare_books by (auto split: option.splits)
next
  case (OpRun env)
  then show ?thesis using assms Run_books by (auto split: prod.splits)
next
  case (OpFinish failed)
  then show ?thesis using assms Finish_books [of d failed e e1 calls] by auto
next
  case OpCleanup
  then show ?thesis using assms Cleanup_books [of d e e1 calls] Cleanup_empty [of d e e1 calls] by (auto simp: exec_ok_def)
qed

lemma exec_run_books: "exec_run d ops e = Some (e1, calls) \<Longrightarrow> exec_ok e \<Longrightarrow> even_books e calls e1 \<and> exec_ok e1"
  by (induction ops arbitrary: e calls) (auto dest!: exec_step_books intro: even_books_trans split: option.splits prod.splits)

section \<open>One MicroVM for a Job\<close>

definition alloc_calls :: "exec_call list \<Rightarrow> nat" where
  "alloc_calls calls = count_if (\<lambda>c. case c of CallAllocate r a \<Rightarrow> True | _ \<Rightarrow> False) calls"

lemma alloc_calls_simps [simp]:
  "alloc_calls [] = 0" "alloc_calls (a @ b) = alloc_calls a + alloc_calls b" "alloc_calls (Log l # b) = alloc_calls b"
  "alloc_calls (CallAllocate r x # b) = Suc (alloc_calls b)"
  by (simp_all add: alloc_calls_def)

lemma alloc_calls_quiet:
  "prepare_profile d env e = (e1, calls, r) \<Longrightarrow> alloc_calls calls = 0"
  "startGuest d env p e = Some (e1, calls, res) \<Longrightarrow> alloc_calls calls = 0"
  "releaseAfterFailedPrepare e = (e1, calls) \<Longrightarrow> alloc_calls calls = 0"
  "Run d renv e = (e1, calls, res) \<Longrightarrow> alloc_calls calls = 0"
  "Finish d failed e = (e1, calls) \<Longrightarrow> alloc_calls calls = 0"
  "Cleanup d e = (e1, calls) \<Longrightarrow> alloc_calls calls = 0"
  subgoal by (auto simp: prepare_profile_def Let_def split: option.splits sum.splits)
  subgoal by (auto simp: startGuest_def guestTarget_def agentTarget_def Let_def alloc_calls_def split: option.splits prod.splits if_splits sum.splits)
  subgoal by (auto simp: exec_defs alloc_calls_def split: option.splits)
  subgoal premises prems
  proof -
    have "list_all plain_call cs \<Longrightarrow> alloc_calls cs = 0" for cs
    proof (induction cs)
      case (Cons c cs)
      then show ?case by (cases c) (simp_all add: alloc_calls_def)
    qed simp
    then show ?thesis using Run_shape [OF prems] by blast
  qed
  subgoal by (auto simp: Finish_def split: option.splits if_splits)
  subgoal by (auto simp: Cleanup_def exec_defs alloc_calls_def split: option.splits if_splits)
  done

lemma allocate_once: "allocate env r e = (e1, calls, res) \<Longrightarrow> alloc_calls calls = 1"
  by (auto simp: allocate_def split: sum.splits)

lemma prepare_body_alloc_calls:
  assumes "prepare_body d env e = Some (e1, calls, res)"
  shows "alloc_calls calls \<le> (if ex_prepared e then 0 else 1)"
  using assms
proof (cases rule: prepare_body_cases)
  case (unallocated ea callsa r p callsb x)
  then show ?thesis using alloc_calls_quiet(1) [OF unallocated(2)] allocate_once [OF unallocated(3)] by simp
next
  case (failed ea callsa r p eb callsb ec callsc x given)
  then show ?thesis
    using alloc_calls_quiet(1) [OF failed(2)] allocate_once [OF failed(3)] alloc_calls_quiet(2) [OF failed(4)] alloc_calls_quiet(3) [OF failed(5)] by simp
next
  case (started ea callsa r p eb callsb ec callsc vars services)
  then show ?thesis using alloc_calls_quiet(1) [OF started(2)] allocate_once [OF started(3)] alloc_calls_quiet(2) [OF started(4)] by simp
qed (use alloc_calls_quiet(1) in simp_all)

text \<open>What no part of \<open>Prepare\<close> touches.\<close>

lemma prepare_parts_keep:
  "prepare_profile d env e = (e1, calls, r) \<Longrightarrow> ex_prepared e1 = ex_prepared e \<and> ex_failed e1 = ex_failed e"
  "allocate env rs e = (e1, calls, res) \<Longrightarrow> ex_prepared e1 = ex_prepared e \<and> ex_failed e1 = ex_failed e"
  "startGuest d env p e = Some (e1, calls, res) \<Longrightarrow> ex_prepared e1 = ex_prepared e \<and> ex_failed e1 = ex_failed e"
  "releaseAfterFailedPrepare e = (e1, calls) \<Longrightarrow> ex_prepared e1 = ex_prepared e \<and> ex_failed e1 = ex_failed e"
  subgoal by (auto simp: prepare_profile_def Let_def split: option.splits sum.splits)
  subgoal by (auto simp: allocate_def split: sum.splits)
  subgoal by (auto simp: startGuest_def Let_def split: prod.splits option.splits)
  subgoal by (auto simp: exec_defs split: option.splits)
  done

lemma prepare_body_keeps:
  assumes "prepare_body d env e = Some (e1, calls, res)"
  shows "ex_prepared e1 \<and> ex_failed e1 = ex_failed e"
  using assms
proof (cases rule: prepare_body_cases)
  case (early x)
  then show ?thesis using prepare_parts_keep(1) [OF early(2)] by simp
next
  case (unallocated ea callsa r p callsb x)
  then show ?thesis using prepare_parts_keep(1) [OF unallocated(2)] prepare_parts_keep(2) [OF unallocated(3)] by simp
next
  case (failed ea callsa r p eb callsb ec callsc x given)
  then show ?thesis
    using prepare_parts_keep(1) [OF failed(2)] prepare_parts_keep(2) [OF failed(3)] prepare_parts_keep(3) [OF failed(4)] prepare_parts_keep(4) [OF failed(5)] by simp
next
  case (started ea callsa r p eb callsb ec callsc vars services)
  then show ?thesis using prepare_parts_keep(1) [OF started(2)] prepare_parts_keep(2) [OF started(3)] prepare_parts_keep(3) [OF started(4)] by simp
qed simp

lemma exec_step_alloc_calls:
  assumes "exec_step d op e = Some (e1, calls)"
  shows "alloc_calls calls + of_bool (ex_prepared e) \<le> of_bool (ex_prepared e1)"
proof (cases op)
  case (OpPrepare env)
  with assms obtain res where "Prepare d env e = Some (e1, calls, res)" by auto
  then obtain inner where b: "prepare_body d env (e\<lparr>ex_vars := jb_vars (pe_job env)\<rparr>) = Some (e1, inner, res)"
    and calls: "calls = Log SectionStart # inner @ (case res of None \<Rightarrow> [] | Some x \<Rightarrow> [Log (PrepareError x)]) @ [Log SectionEnd]"
    by (auto simp: Prepare_def)
  have "alloc_calls calls = alloc_calls inner" unfolding calls by (cases res) simp_all
  then show ?thesis using prepare_body_alloc_calls [OF b] prepare_body_keeps [OF b] by (simp split: if_splits)
next
  case (OpRun env)
  with assms obtain res where r: "Run d env e = (e1, calls, res)" by (auto split: prod.splits)
  have "ex_prepared e1 = ex_prepared e" using Run_shape [OF r] by auto
  then show ?thesis using alloc_calls_quiet(4) [OF r] by simp
next
  case (OpFinish failed)
  with assms have "Finish d failed e = (e1, calls)" by simp
  then show ?thesis using alloc_calls_quiet(5) [of d failed e e1 calls] by (auto simp: Finish_def)
next
  case OpCleanup
  with assms have "Cleanup d e = (e1, calls)" by simp
  then show ?thesis using alloc_calls_quiet(6) [of d e e1 calls] Cleanup_empty [of d e e1 calls] by simp
qed

lemma exec_run_alloc_calls: "exec_run d ops e = Some (e1, calls) \<Longrightarrow> alloc_calls calls + of_bool (ex_prepared e) \<le> of_bool (ex_prepared e1)"
proof (induction ops arbitrary: e calls)
  case (Cons op ops)
  from Cons.prems obtain ea callsa callsb where "exec_step d op e = Some (ea, callsa)" "exec_run d ops ea = Some (e1, callsb)" "calls = callsa @ callsb"
    by (auto split: option.splits)
  with exec_step_alloc_calls [of d op e ea callsa] Cons.IH [of ea callsb] show ?case by simp
qed simp

text \<open>
  C5. Whatever order the run loop calls an executor in and whatever fails on the way, once
  \<open>Cleanup\<close> has run everything is given back exactly once: each MicroVM it was allocated to
  the Scheduler, by a release or by a retention, the Host or Exec Agent it leased, and the
  guest's transport. Over its whole life it asks the Scheduler for a MicroVM at most once.
\<close>

theorem job_gives_back_everything:
  assumes "exec_run d (ops @ [OpCleanup]) Create = Some (e, calls)"
  shows "(\<forall>h. allocs h calls = backs h calls) \<and> takes calls = returns calls \<and> opens calls = closes calls
    \<and> ex_handle e = None \<and> \<not> ex_host e \<and> \<not> ex_tr e \<and> alloc_calls calls \<le> 1"
proof -
  from exec_run_books [OF assms exec_ok_Create] have books: "even_books Create calls e" by blast
  obtain e0 calls0 calls1 where "Cleanup d e0 = (e, calls1)"
    using assms by (auto simp: exec_run_append split: option.splits prod.splits)
  from Cleanup_empty [OF this] have "ex_handle e = None" "\<not> ex_host e" "\<not> ex_tr e" by blast+
  moreover have "alloc_calls calls \<le> 1" using exec_run_alloc_calls [OF assms] by (cases "ex_prepared e") simp_all
  ultimately show ?thesis using books by (simp add: even_books_def holding_def Create_def)
qed

section \<open>The errors of Prepare\<close>

lemma as_build_buildErr [simp]: "as_build (buildErr r c) = Some (Plain c, r, 0)"
  by (simp add: buildErr_def)

lemma prepareErr_build: "as_build x \<noteq> None \<Longrightarrow> as_build (prepareErr bis cx x) \<noteq> None"
  by (auto simp: prepareErr_def split: option.splits)

lemma guestTarget_build: "guestTarget d env p = (Some x, held, calls) \<Longrightarrow> as_build x \<noteq> None"
  by (auto simp: guestTarget_def agentTarget_def Let_def split: if_splits option.splits sum.splits)

lemma waitReady_build: "waitReady p uid turns = Some (Some x) \<Longrightarrow> as_build x \<noteq> None"
  by (auto simp: waitReady_def)

lemma makeDirs_build: "makeDirs r = Some x \<Longrightarrow> as_build x \<noteq> None"
  by (auto simp: makeDirs_def split: prod.splits option.splits if_splits)

lemma startGuest_build: "startGuest d env p e = Some (e1, calls, Some x) \<Longrightarrow> as_build x \<noteq> None"
  by (auto simp: startGuest_def Let_def dest: guestTarget_build waitReady_build makeDirs_build split: prod.splits option.splits)

lemma prepare_profile_build: "prepare_profile d env e = (e1, calls, Inl x) \<Longrightarrow> as_build x \<noteq> None"
  by (auto simp: prepare_profile_def checkJob_def resolveProfile_def configureShell_def Let_def split: option.splits sum.splits if_splits)

lemma allocate_build: "allocate env r e = (e1, calls, Some x) \<Longrightarrow> as_build x \<noteq> None"
  by (auto simp: allocate_def split: sum.splits)

lemma prepare_body_build:
  assumes "prepare_body d env e = Some (e1, calls, Some x)"
  shows "as_build x \<noteq> None"
  using assms
proof (cases rule: prepare_body_cases)
  case (early y)
  then show ?thesis using prepare_profile_build [OF early(2)] by simp
next
  case (unallocated ea callsa r p callsb y)
  then show ?thesis using prepareErr_build [OF allocate_build [OF unallocated(3)]] by simp
next
  case (failed ea callsa r p eb callsb ec callsc y given)
  then show ?thesis using prepareErr_build [OF startGuest_build [OF failed(4)]] by simp
qed simp_all

lemma Prepare_body:
  assumes "Prepare d env e = Some (e1, calls, res)"
  obtains inner where "prepare_body d env (e\<lparr>ex_vars := jb_vars (pe_job env)\<rparr>) = Some (e1, inner, res)"
    and "calls = Log SectionStart # inner @ (case res of None \<Rightarrow> [] | Some x \<Rightarrow> [Log (PrepareError x)]) @ [Log SectionEnd]"
  using assms by (auto simp: Prepare_def)


section \<open>Stages that are not run again\<close>

lemma Run_ran:
  assumes "Run d env e = (e1, calls, res)" "calls \<noteq> []"
  obtains h p more_calls where "ex_tr e" "ex_handle e = Some h" "ex_profile e = Some p" "stageFailed (re_stage env) e = None"
    "runStage d env h e = (e1, more_calls, res)" "calls = RunCommand (stage_command p env) # more_calls"
  using assms by (auto simp: Run_def split: bool.splits option.splits prod.splits)

lemma Run_refused: "stageFailed (re_stage env) e = Some x \<Longrightarrow> Run d env e
    = (e, [], Some (if ex_tr e \<and> ex_handle e \<noteq> None \<and> ex_profile e \<noteq> None then x else buildErr RunnerSystemFailure RunBeforePrepare))"
  by (auto simp: Run_def split: bool.splits option.splits)

text \<open>The answer of the transport leaves the exit status of the Stage unknown.\<close>

definition status_unknown :: "run_env \<Rightarrow> bool" where
  "status_unknown env = (case re_end env of
     StageDone status er \<Rightarrow> er \<noteq> None \<or> status < 0 \<and> re_lost env \<noteq> None
   | StageInterrupted stop in_time \<Rightarrow> False)"

lemma runStage_records:
  assumes "runStage d env h e = (e1, calls, res)" "status_unknown env" "expired (stage_ctx env) = None"
  shows "\<exists>x. res = Some x \<and> stageFailed (re_stage env) e1 = Some x"
  using assms
  by (auto simp: runStage_def status_unknown_def stage_leaseLost_def stageError_def noExitStatus_def recordFailed_def stageFailed_def Let_def
      split: stage_end.splits option.splits if_splits)

text \<open>What is recorded about a Stage is what its last run recorded, and a recorded Stage keeps its error.\<close>

lemma runStage_other:
  assumes "runStage d env h e = (e1, calls, res)" "stage \<noteq> re_stage env"
  shows "stageFailed stage e1 = stageFailed stage e"
proof (cases "re_end env")
  case (StageInterrupted stop in_time)
  then show ?thesis using assms by (simp add: runStage_def)
next
  case (StageDone status er)
  obtain ea callsa ra where a: "stage_leaseLost env h status er e = (ea, callsa, ra)" by (metis prod_cases3)
  have fa: "stageFailed stage ea = stageFailed stage e"
    using a assms(2) by (auto simp: stage_leaseLost_def recordFailed_def stageFailed_def Let_def split: if_splits option.splits)
  obtain eb rb where b: "stageError d (re_stage env) status er ea = (eb, rb)" by (metis surj_pair)
  have fb: "stageFailed stage eb = stageFailed stage ea"
    using b assms(2) by (auto simp: stageError_def recordFailed_def stageFailed_def Let_def split: if_splits option.splits)
  have "e1 = e \<or> e1 = ea \<or> e1 = eb" using assms(1) StageDone a b by (auto simp: runStage_def split: option.splits)
  then show ?thesis using fa fb by auto
qed

lemma exec_step_failed:
  assumes "exec_step d op e = Some (e1, calls)" "stageFailed stage e = Some x"
  shows "stageFailed stage e1 = Some x"
proof (cases op)
  case (OpPrepare env)
  with assms(1) obtain res where "Prepare d env e = Some (e1, calls, res)" by auto
  then obtain inner where "prepare_body d env (e\<lparr>ex_vars := jb_vars (pe_job env)\<rparr>) = Some (e1, inner, res)" by (rule Prepare_body)
  from prepare_body_keeps [OF this] assms(2) show ?thesis by (simp add: stageFailed_def)
next
  case (OpRun env)
  with assms(1) obtain res where r: "Run d env e = (e1, calls, res)" by (auto split: prod.splits)
  show ?thesis
  proof (cases "calls = []")
    case True
    then have "e1 = e" using r by (auto simp: Run_def split: bool.splits option.splits prod.splits)
    then show ?thesis using assms(2) by simp
  next
    case False
    from Run_ran [OF r False] obtain h cs where "stageFailed (re_stage env) e = None" "runStage d env h e = (e1, cs, res)" by metis
    moreover from this assms(2) have "stage \<noteq> re_stage env" by auto
    ultimately show ?thesis using runStage_other [of d env h e e1 cs res stage] assms(2) by simp
  qed
next
  case (OpFinish failed)
  then show ?thesis using assms by (auto simp: Finish_def stageFailed_def)
next
  case OpCleanup
  then show ?thesis using assms by (auto simp: Cleanup_def exec_defs stageFailed_def split: option.splits)
qed

lemma exec_run_failed: "exec_run d ops e = Some (e1, calls) \<Longrightarrow> stageFailed stage e = Some x \<Longrightarrow> stageFailed stage e1 = Some x"
proof (induction ops arbitrary: e calls)
  case (Cons op ops)
  from Cons.prems(1) obtain ea callsa callsb where "exec_step d op e = Some (ea, callsa)" "exec_run d ops ea = Some (e1, callsb)"
    by (auto split: option.splits)
  with exec_step_failed Cons show ?case by blast
qed simp


section \<open>Who is blamed\<close>

definition blames_job :: "err \<Rightarrow> bool" where
  "blames_job x = (case as_build x of Some (inner, reason, code) \<Rightarrow> reason = ScriptFailure | None \<Rightarrow> False)"

text \<open>The run loop's own causes for ending a Job's context do not blame its script.\<close>

definition quiet_stop :: "stage_stop \<Rightarrow> bool" where
  "quiet_stop stop = (case stop of StageContext e c \<Rightarrow> \<not> blames_job c | _ \<Rightarrow> True)"

definition stops_of :: "run_env \<Rightarrow> stage_stop list" where
  "stops_of env = (case re_end env of StageInterrupted stop in_time \<Rightarrow> [stop] | _ \<Rightarrow> [])
     @ (case re_stopped env of Some s \<Rightarrow> [s] | None \<Rightarrow> []) @ (case re_fires env of Some s \<Rightarrow> [s] | None \<Rightarrow> [])"

definition failed_ok :: "executor \<Rightarrow> bool" where
  "failed_ok e \<longleftrightarrow> (\<forall>stage x. stageFailed stage e = Some x \<longrightarrow> \<not> blames_job x)"

lemma blames_stageCancelled: "quiet_stop stop \<Longrightarrow> \<not> blames_job (stageCancelled (stage_ended stop))"
  by (cases stop) (auto simp: blames_job_def quiet_stop_def stage_ended_def stageCancelled_def split: option.splits)

lemma expired_stage:
  assumes "expired (stage_ctx env) = Some fin" "list_all quiet_stop (stops_of env)"
  shows "\<not> blames_job (stageCancelled fin)"
proof -
  from assms(1) obtain stop where "fin = stage_ended stop" "re_stopped env = Some stop \<or> re_fires env = Some stop"
    by (auto simp: expired_def stage_ctx_def split: option.splits if_splits)
  then show ?thesis using assms(2) blames_stageCancelled by (auto simp: stops_of_def split: option.splits)
qed

lemma blames_simps [simp]:
  "blames_job (Build i r x) = (r = ScriptFailure)" "blames_job (buildErr r c) = (r = ScriptFailure)"
  by (simp_all add: blames_job_def)

lemma runStage_blames:
  assumes "runStage d env h e = (e1, calls, res)" "list_all quiet_stop (stops_of env)"
  shows "(\<exists>x. res = Some x \<and> blames_job x) \<longleftrightarrow>
    (\<exists>status. re_end env = StageDone status None \<and> status \<noteq> 0 \<and> expired (stage_ctx env) = None \<and> (status < 0 \<longrightarrow> re_lost env = None))"
proof (cases "re_end env")
  case (StageInterrupted stop in_time)
  then have "quiet_stop stop" using assms(2) by (simp add: stops_of_def)
  then show ?thesis using assms(1) StageInterrupted blames_stageCancelled by (auto simp: runStage_def)
next
  case (StageDone status er)
  show ?thesis
  proof (cases "expired (stage_ctx env)")
    case (Some fin)
    then show ?thesis using assms(1) StageDone expired_stage [OF Some assms(2)] by (auto simp: runStage_def)
  next
    case None
    then show ?thesis using assms(1) StageDone
      by (auto simp: runStage_def stage_leaseLost_def stageError_def noExitStatus_def Let_def split: option.splits if_splits)
  qed
qed

lemma runStage_failed_ok:
  assumes "runStage d env h e = (e1, calls, res)" "failed_ok e"
  shows "failed_ok e1"
proof (cases "re_end env")
  case (StageInterrupted stop in_time)
  then show ?thesis using assms by (simp add: runStage_def)
next
  case (StageDone status er)
  obtain ea callsa ra where a: "stage_leaseLost env h status er e = (ea, callsa, ra)" by (metis prod_cases3)
  have fa: "failed_ok ea" using a assms(2)
    by (auto simp: stage_leaseLost_def recordFailed_def stageFailed_def failed_ok_def Let_def split: if_splits option.splits)
  obtain eb rb where b: "stageError d (re_stage env) status er ea = (eb, rb)" by (metis surj_pair)
  have fb: "failed_ok eb" using b fa
    by (auto simp: stageError_def recordFailed_def stageFailed_def failed_ok_def Let_def split: if_splits option.splits)
  have "e1 = e \<or> e1 = ea \<or> e1 = eb" using assms(1) StageDone a b by (auto simp: runStage_def split: option.splits)
  then show ?thesis using fa fb assms(2) by auto
qed

lemma exec_step_failed_ok:
  assumes "exec_step d op e = Some (e1, calls)" "failed_ok e"
  shows "failed_ok e1"
proof (cases op)
  case (OpPrepare env)
  with assms(1) obtain res where "Prepare d env e = Some (e1, calls, res)" by auto
  then obtain inner where "prepare_body d env (e\<lparr>ex_vars := jb_vars (pe_job env)\<rparr>) = Some (e1, inner, res)" by (rule Prepare_body)
  from prepare_body_keeps [OF this] assms(2) show ?thesis by (simp add: failed_ok_def stageFailed_def)
next
  case (OpRun env)
  with assms(1) obtain res where r: "Run d env e = (e1, calls, res)" by (auto split: prod.splits)
  show ?thesis
  proof (cases "calls = []")
    case True
    then have "e1 = e" using r by (auto simp: Run_def split: bool.splits option.splits prod.splits)
    then show ?thesis using assms(2) by simp
  next
    case False
    from Run_ran [OF r False] obtain h cs where "runStage d env h e = (e1, cs, res)" by metis
    then show ?thesis using assms(2) by (rule runStage_failed_ok)
  qed
next
  case (OpFinish failed)
  then show ?thesis using assms by (auto simp: Finish_def failed_ok_def stageFailed_def)
next
  case OpCleanup
  then show ?thesis using assms by (auto simp: Cleanup_def exec_defs failed_ok_def stageFailed_def split: option.splits)
qed

lemma exec_run_failed_ok: "exec_run d ops e = Some (e1, calls) \<Longrightarrow> failed_ok e \<Longrightarrow> failed_ok e1"
proof (induction ops arbitrary: e calls)
  case (Cons op ops)
  from Cons.prems(1) obtain ea callsa callsb where "exec_step d op e = Some (ea, callsa)" "exec_run d ops ea = Some (e1, callsb)"
    by (auto split: option.splits)
  with exec_step_failed_ok Cons show ?case by blast
qed simp


section \<open>A Job of the small installation\<close>

definition small_deps :: deps where
  "small_deps = \<lparr>dp_prepare_timeout = 60 * second, dp_graceful_kill = 0, dp_keep_on_failure = True, dp_cache_configured = False, dp_transport = [],
     dp_agents = False, dp_env = None, dp_inventory = None, dp_cache_vars = [], dp_normalise = (\<lambda>n. n), dp_build_is = (\<lambda>a b. False)\<rparr>"

definition small_allocation :: allocation where
  "small_allocation = \<lparr>al_job = 7, al_profile = ''small'', al_vm = ''vm1'',
     al_lease = \<lparr>ls_id = ''L1'', ls_pool = small_ref, ls_expires_at = 0, ls_last_heartbeat = 0\<rparr>,
     al_placement = \<lparr>pl_host = ''h1'', pl_source = PlacementFromClaim, pl_resolved_at = 0\<rparr>,
     al_host = \<lparr>host_name = ''h1'', host_address = []\<rparr>, al_reservation = 1, al_claimed_at = 0\<rparr>"

text \<open>The guest answers the second probe; \<open>dirs\<close> is the outcome of making the directories.\<close>

definition small_prepare :: "outcome \<Rightarrow> prepare_env" where
  "small_prepare dirs = \<lparr>pe_data = Some (Some 1),
     pe_job = \<lparr>jb_id = 7, jb_image = ''ruby'', jb_services = [], jb_cache = [], jb_vars = []\<rparr>,
     pe_sched = new_sched small_settings, pe_shell = None, pe_alloc = Inr 2, pe_allocation = small_allocation, pe_alloc_took = 1500 * millisecond,
     pe_ended = None, pe_past_deadline = False, pe_fires = None, pe_host = None, pe_key_readable = False, pe_transport = None,
     pe_probes = [\<lparr>rt_answer = Some (ReadyExited 1), rt_ended_after_probe = False, rt_ended_after_wait = False\<rparr>,
                  \<lparr>rt_answer = None, rt_ended_after_probe = False, rt_ended_after_wait = False\<rparr>],
     pe_ready_took = 2 * second, pe_dirs = dirs\<rparr>"

definition small_stage :: "stage_end \<Rightarrow> run_env" where
  "small_stage fin = \<lparr>re_stage = ''build'', re_script = ''make'', re_args = [], re_end = fin, re_stopped = None, re_past_deadline = False,
     re_fires = None, re_lost = None\<rparr>"

definition small_job :: "exec_op list" where
  "small_job = [OpPrepare (small_prepare (0, None)), OpRun (small_stage (StageDone 1 None)), OpFinish True]"

text \<open>The books of a run, for evaluation.\<close>

definition books_of :: "(executor \<times> exec_call list) option \<Rightarrow> nat list option" where
  "books_of r = map_option (\<lambda>(e, calls). [allocs 2 calls, backs 2 calls, takes calls, returns calls, opens calls, closes calls, alloc_calls calls]) r"

lemma small_job_books: "books_of (exec_run small_deps (small_job @ [OpCleanup]) Create) = Some [1, 1, 1, 1, 1, 1, 1]"
  by code_simp

section \<open>With the Scheduler\<close>

text \<open>
  What the Executor relies on when it gives a MicroVM back: releasing or retaining a Handle
  ends its Allocation, and neither call brings another one to life.
\<close>

locale allocation_ender =
  fixes ok :: "'s \<Rightarrow> bool" and held :: "nat \<Rightarrow> 's \<Rightarrow> bool" and rel keep :: "nat \<Rightarrow> 's \<Rightarrow> 's"
  assumes release_ok: "ok s \<Longrightarrow> ok (rel h s)"
    and retain_ok: "ok s \<Longrightarrow> ok (keep h s)"
    and release_ends: "ok s \<Longrightarrow> \<not> held h (rel h s)"
    and retain_ends: "ok s \<Longrightarrow> \<not> held h (keep h s)"
    and release_starts_none: "ok s \<Longrightarrow> held i (rel h s) \<Longrightarrow> held i s"
    and retain_starts_none: "ok s \<Longrightarrow> held i (keep h s) \<Longrightarrow> held i s"

text \<open>The calls of an executor carried out on a Scheduler.\<close>

fun carry_out :: "(nat \<Rightarrow> 's \<Rightarrow> 's) \<Rightarrow> (nat \<Rightarrow> 's \<Rightarrow> 's) \<Rightarrow> exec_call \<Rightarrow> 's \<Rightarrow> 's" where
  "carry_out rel keep (CallRelease h) s = rel h s"
| "carry_out rel keep (CallRetain h) s = keep h s"
| "carry_out rel keep c s = s"

context allocation_ender
begin

lemma carry_out_ok: "ok s \<Longrightarrow> ok (carry_out rel keep c s)"
  by (cases c) (simp_all add: release_ok retain_ok)

lemma carry_out_starts_none: "ok s \<Longrightarrow> held i (carry_out rel keep c s) \<Longrightarrow> held i s"
  by (cases c) (auto dest: release_starts_none retain_starts_none)

lemma carry_out_all_starts_none: "ok s \<Longrightarrow> held i (fold (carry_out rel keep) calls s) \<Longrightarrow> held i s"
  by (induction calls arbitrary: s) (auto dest: carry_out_ok carry_out_starts_none)

lemma given_back_ends:
  "ok s \<Longrightarrow> 0 < backs h calls \<Longrightarrow> \<not> held h (fold (carry_out rel keep) calls s)"
proof (induction calls arbitrary: s)
  case (Cons c calls)
  show ?case
  proof (cases "c = CallRelease h \<or> c = CallRetain h")
    case True
    then have "\<not> held h (carry_out rel keep c s)" using release_ends retain_ends Cons.prems(1) by auto
    then show ?thesis using carry_out_all_starts_none [OF carry_out_ok [OF Cons.prems(1)]] by auto
  next
    case False
    then have "0 < backs h calls" using Cons.prems(2) by (simp add: backs_def)
    then show ?thesis using Cons.IH [OF carry_out_ok [OF Cons.prems(1)]] by simp
  qed
qed simp

end

lemma finish_unheld:
  assumes "finish i s = (b, s')" "sched_ok s"
  shows "\<not> holds i s'" and "holds j s' \<Longrightarrow> holds j s"
proof -
  have "\<not> holds i s' \<and> (holds j s' \<longrightarrow> holds j s)"
  proof (cases b)
    case True
    then have "sc_allocations s' = remove1 i (sc_allocations s)" using finish_True [of i s s'] assms(1) by auto
    then show ?thesis using assms(2) by (auto simp: holds_def sched_ok_def dest: notin_set_remove1)
  next
    case False
    then have "s' = s" using finish_False [of i s s'] assms(1) by simp
    moreover have "\<not> holds i s"
      using assms False by (auto simp: finish_def Let_def sched_ok_def holds_def known_def split: option.splits if_splits)
    ultimately show ?thesis by simp
  qed
  then show "\<not> holds i s'" "holds j s' \<Longrightarrow> holds j s" by blast+
qed

lemma holds_stopHeartbeat [simp]: "holds j (stopHeartbeat i s) = holds j s"
  by (simp add: holds_def stopHeartbeat_def on_handle_def split: option.splits)

lemma act_release_unheld:
  assumes "accounts y"
  shows "\<not> holds i (sy_sched (act_release i y))" and "holds j (sy_sched (act_release i y)) \<Longrightarrow> holds j (sy_sched y)"
proof -
  obtain b s where f: "finish i (sy_sched y) = (b, s)" by (metis surj_pair)
  have "sched_ok (sy_sched y)" using assms by (simp add: accounts_def)
  note fin = finish_unheld [OF f this]
  show "\<not> holds i (sy_sched (act_release i y))" using f fin(1) by (cases b) (simp_all add: act_release_def)
  show "holds j (sy_sched (act_release i y)) \<Longrightarrow> holds j (sy_sched y)" using f fin(2) by (cases b) (simp_all add: act_release_def)
qed

lemma act_retain_unheld:
  assumes "accounts y"
  shows "\<not> holds i (sy_sched (act_retain i y))" and "holds j (sy_sched (act_retain i y)) \<Longrightarrow> holds j (sy_sched y)"
proof -
  obtain b s where f: "finish i (sy_sched y) = (b, s)" by (metis surj_pair)
  have "sched_ok (sy_sched y)" using assms by (simp add: accounts_def)
  note fin = finish_unheld [OF f this]
  note rel = act_release_unheld(1) [OF assms, of i] act_release_unheld(2) [OF assms, of j i]
  show "\<not> holds i (sy_sched (act_retain i y))" using f fin(1) rel(1) by (cases b) (simp_all add: act_retain_def)
  show "holds j (sy_sched (act_retain i y)) \<Longrightarrow> holds j (sy_sched y)" using f fin(2) rel(2) by (cases b) (simp_all add: act_retain_def split: if_splits)
qed

interpretation ends: allocation_ender accounts "\<lambda>h y. holds h (sy_sched y)" "\<lambda>h. act pa (ActRelease h)" "\<lambda>h. act pa (ActRetain h)" for pa
proof
  fix y h assume "accounts y"
  then show "accounts (act pa (ActRelease h) y)" "accounts (act pa (ActRetain h) y)" by (simp_all only: accounts_act)
qed (simp_all add: act_release_unheld act_retain_unheld)

text \<open>
  C6. A finished Job leaves no Allocation behind in the Scheduler: in every state the Scheduler
  can be in when the Job's calls reach it, once those of an executor whose \<open>Cleanup\<close> has run are
  carried out, the Allocation of the MicroVM it was given is no longer live, whether it was
  released or kept for debugging.
\<close>

theorem finished_job_holds_no_slot:
  assumes "0 < set_slots cfg" "exec_run d (ops @ [OpCleanup]) Create = Some (e, calls)" "CallAllocate r (Inr h) \<in> set calls"
  shows "\<not> holds h (sy_sched (fold (carry_out (\<lambda>h. act pa (ActRelease h)) (\<lambda>h. act pa (ActRetain h))) calls (run_system pa cfg acts)))"
proof -
  from exec_run_books [OF assms(2) exec_ok_Create] have books: "even_books Create calls e" by blast
  obtain e0 calls1 where "Cleanup d e0 = (e, calls1)"
    using assms(2) by (auto simp: exec_run_append split: option.splits prod.splits)
  from Cleanup_empty [OF this] have "ex_handle e = None" by blast
  with books have even: "allocs h calls = backs h calls" by (simp add: even_books_def holding_def Create_def)
  have "0 < allocs h calls" using assms(3) by (induction calls) (auto simp: allocs_def)
  with even have "0 < backs h calls" by simp
  with ends.given_back_ends [OF run_accounts [OF assms(1)]] show ?thesis by blast
qed

section \<open>The theorems at work\<close>

theorem job_gives_back_everything_witness:
  "\<exists>e calls. exec_run small_deps (small_job @ [OpCleanup]) Create = Some (e, calls)
    \<and> allocs 2 calls = 1 \<and> backs 2 calls = 1 \<and> takes calls = 1 \<and> returns calls = 1 \<and> ex_handle e = None"
proof -
  from small_job_books obtain e calls where r: "exec_run small_deps (small_job @ [OpCleanup]) Create = Some (e, calls)"
    and "allocs 2 calls = 1" "takes calls = 1" by (auto simp: books_of_def)
  with job_gives_back_everything [OF r] show ?thesis by auto
qed

theorem finished_job_holds_no_slot_witness:
  "\<exists>e calls. exec_run small_deps (small_job @ [OpCleanup]) Create = Some (e, calls)
    \<and> holds 2 (sy_sched (run_system small_params small_settings small_allocate))
    \<and> \<not> holds 2 (sy_sched (fold (carry_out (\<lambda>h. act small_params (ActRelease h)) (\<lambda>h. act small_params (ActRetain h))) calls
         (run_system small_params small_settings small_allocate)))"
proof -
  from small_job_books obtain e calls where r: "exec_run small_deps (small_job @ [OpCleanup]) Create = Some (e, calls)"
    and "allocs 2 calls = 1" by (auto simp: books_of_def)
  then have "0 < allocs 2 calls" by simp
  then have "\<exists>r. CallAllocate r (Inr 2) \<in> set calls"
  proof (induction calls)
    case (Cons c calls)
    then show ?case by (cases c) (auto simp: allocs_def split: sum.splits if_splits)
  qed simp
  then obtain rs where a: "CallAllocate rs (Inr 2) \<in> set calls" by blast
  have "0 < set_slots small_settings" by (simp add: small_settings_def)
  from finished_job_holds_no_slot [OF this r a] have
    "\<not> holds 2 (sy_sched (fold (carry_out (\<lambda>h. act small_params (ActRelease h)) (\<lambda>h. act small_params (ActRetain h))) calls
         (run_system small_params small_settings small_allocate)))" .
  moreover have "holds 2 (sy_sched (run_system small_params small_settings small_allocate))" by code_simp
  ultimately show ?thesis using r by blast
qed

text \<open>Making the directories fails, and the MicroVM goes back before \<open>Prepare\<close> returns.\<close>

lemma small_prepare_fails:
  "map_option (\<lambda>(e, calls, res). (res \<noteq> None, backs 2 calls)) (Prepare small_deps (small_prepare (2, None)) Create) = Some (True, 1)"
  by code_simp


text \<open>The executor after a \<open>Prepare\<close> that succeeded.\<close>

definition small_executor :: executor where
  "small_executor = (case exec_run small_deps [OpPrepare (small_prepare (0, None))] Create of Some (e, calls) \<Rightarrow> e | None \<Rightarrow> Create)"

definition small_broken :: run_env where
  "small_broken = small_stage (StageDone (- 1) (Some (ExecReported ''vm deleted'')))"

lemma small_executor_run: "\<exists>calls. exec_run small_deps [OpPrepare (small_prepare (0, None))] Create = Some (small_executor, calls)"
proof -
  have "exec_run small_deps [OpPrepare (small_prepare (0, None))] Create \<noteq> None" by code_simp
  then show ?thesis by (auto simp: small_executor_def split: option.splits)
qed

lemma small_broken_ran: "length (fst (snd (Run small_deps small_broken small_executor))) = 2" "ex_tr (fst (Run small_deps small_broken small_executor))"
  "ex_handle (fst (Run small_deps small_broken small_executor)) = Some 2" "ex_profile (fst (Run small_deps small_broken small_executor)) \<noteq> None"
  by code_simp+



end
