(* ===== verification/Spec2Isabelle.thy ===== *)
theory Spec2Isabelle
  imports Clock_Backoff Health Lease_Keeper Tracker_Truth Registry_Props Scheduler_Behaviour Config_Props Host_Env Transport_Props Executor_Props
begin

text \<open>
  A verification development for flintlock-runner.
\<close>

end
